theory Spec2Isabelle
  imports Complex_Main "HOL-Library.Char_ord" "HOL-Library.List_Lexorder" "HOL-Library.Multiset"
begin

section \<open>JavaScript values\<close>

text \<open>
  Table cells and field domains hold primitive JavaScript values; a chart specification is
  a tree of arrays and objects over them. An object is an association list in insertion
  order, as \<open>Object.entries\<close> enumerates it.
\<close>

datatype prim = PUndef | PNull | PBool bool | PNum rat | PStr string

datatype json = JPrim prim | JArr "json list" | JObj "(string \<times> json) list"

abbreviation JStr :: "string \<Rightarrow> json" where
  "JStr s \<equiv> JPrim (PStr s)"

abbreviation JNum :: "rat \<Rightarrow> json" where
  "JNum n \<equiv> JPrim (PNum n)"

abbreviation JNull :: json where
  "JNull \<equiv> JPrim PNull"

abbreviation JUndef :: json where
  "JUndef \<equiv> JPrim PUndef"

abbreviation JBool :: "bool \<Rightarrow> json" where
  "JBool b \<equiv> JPrim (PBool b)"

type_synonym row = "(string \<times> prim) list"

text \<open>A string-valued optional property is truthy when it is present and not empty.\<close>

fun truthyStr :: "string option \<Rightarrow> bool" where
  "truthyStr None = False"
| "truthyStr (Some s) = (s \<noteq> [])"

section \<open>Data model (componentTypes.ts)\<close>

datatype DataType = TString | TNumber | TDate | TBoolean | TAuto

record EncodingItem =
  fieldID :: "string option"
  aggregate :: "string option"
  stack :: "string option"
  sortOrder :: "string option"
  sortBy :: "string option"
  scheme :: "string option"
  bin :: "bool option"

type_synonym EncodingMap = "(string \<times> EncodingItem) list"

record FieldItem =
  field_id :: string
  field_name :: string
  field_type :: DataType
  field_source :: string
  field_domain :: "prim list"
  field_tableRef :: string
  semanticType :: "string option"

record Chart =
  chart_id :: string
  chart_type :: string
  chart_encodingMap :: EncodingMap
  chart_tableRef :: string
  saved :: bool
  chart_source :: string

record Trigger =
  trigger_tableId :: string
  sourceTableIds :: "string list"
  trigger_chart :: "Chart option"
  instruction :: string
  resultTableId :: string

record Derive =
  derive_source :: "string list"
  derive_code :: string
  codeExpl :: string
  derive_trigger :: Trigger

record DictTable =
  table_id :: string
  displayId :: string
  names :: "string list"
  types :: "DataType list"
  rows :: "row list"
  derive :: "Derive option"
  anchored :: bool

section \<open>The store and its delete operations (dataFormulatorSlice)\<close>

text \<open>
  The slice state, restricted to the members the delete reducers read or write; the other
  members (session, models, pane sizes, messages, configuration) are not touched by them.
\<close>

record DataFormulatorState =
  tables :: "DictTable list"
  charts :: "Chart list"
  conceptShelfItems :: "FieldItem list"
  focusedTableId :: "string option"
  focusedChartId :: "string option"
  chartSynthesisInProgress :: "string list"

definition defaultTable :: DictTable where
  "defaultTable = \<lparr> table_id = ''default'', displayId = ''default'', names = [], types = [],
     rows = [], derive = None, anchored = False \<rparr>"

text \<open>\<open>tables.find(t => t.id === chart.tableRef) || tables[0] || {id: 'default', ...}\<close>\<close>

definition getDataTable :: "Chart \<Rightarrow> DictTable list \<Rightarrow> DictTable" where
  "getDataTable chart tbls =
     (case find (\<lambda>t. table_id t = chart_tableRef chart) tbls of
        Some t \<Rightarrow> t
      | None \<Rightarrow> (case tbls of t # _ \<Rightarrow> t | [] \<Rightarrow> defaultTable))"

definition getUnrefedDerivedTableIds :: "DataFormulatorState \<Rightarrow> string list" where
  "getUnrefedDerivedTableIds state =
     (let allCharts = charts state;
          chartRefedTables = map table_id (map (\<lambda>chart. getDataTable chart (tables state)) allCharts)
      in map table_id
           (filter (\<lambda>t. derive t \<noteq> None \<and> table_id t \<notin> set chartRefedTables) (tables state)))"

definition deleteChartsRoutine :: "DataFormulatorState \<Rightarrow> string list \<Rightarrow> DataFormulatorState" where
  "deleteChartsRoutine state chartIds =
     (let charts' = filter (\<lambda>c. chart_id c \<notin> set chartIds) (charts state);
          hit = (case focusedChartId state of
                   None \<Rightarrow> False
                 | Some f \<Rightarrow> f \<noteq> [] \<and> f \<in> set chartIds);
          focusedChartId' =
            (if hit then (case charts' of c # _ \<Rightarrow> Some (chart_id c) | [] \<Rightarrow> None)
             else focusedChartId state);
          focusedTableId' =
            (if hit
             then map_option chart_tableRef (find (\<lambda>c. Some (chart_id c) = focusedChartId') charts')
             else focusedTableId state);
          state1 = state \<lparr> focusedTableId := focusedTableId',
                     chartSynthesisInProgress :=
                       filter (\<lambda>s. s \<notin> set chartIds) (chartSynthesisInProgress state),
                     charts := charts',
                     focusedChartId := focusedChartId' \<rparr>;
          unrefedDerivedTableIds = getUnrefedDerivedTableIds state1;
          tableIdsToDelete =
            map table_id
              (filter (\<lambda>t. \<not> anchored t \<and> table_id t \<in> set unrefedDerivedTableIds) (tables state1))
      in state1 \<lparr> tables := filter (\<lambda>t. table_id t \<notin> set tableIdsToDelete) (tables state1) \<rparr>)"

definition deleteChart :: "DataFormulatorState \<Rightarrow> string \<Rightarrow> DataFormulatorState" where
  "deleteChart state payload = deleteChartsRoutine state [payload]"

definition deleteTable :: "DataFormulatorState \<Rightarrow> string \<Rightarrow> DataFormulatorState" where
  "deleteTable state payload =
     (let state1 = state \<lparr> tables := filter (\<lambda>t. table_id t \<noteq> payload) (tables state) \<rparr>;
          chartsToDelete = filter (\<lambda>c. chart_tableRef c = payload) (charts state1);
          state2 = deleteChartsRoutine state1 (map chart_id chartsToDelete)
      in state2 \<lparr> conceptShelfItems :=
                    filter (\<lambda>item. field_tableRef item \<noteq> payload) (conceptShelfItems state2) \<rparr>)"

text \<open>A sequence of chart deletions, dispatched one after the other.\<close>

definition deleteChartsSeq :: "DataFormulatorState \<Rightarrow> string list \<Rightarrow> DataFormulatorState" where
  "deleteChartsSeq state ids = foldl deleteChart state ids"

text \<open>The ids of the tables that the remaining charts resolve to.\<close>

definition chartRefed :: "Chart list \<Rightarrow> DictTable list \<Rightarrow> string set" where
  "chartRefed cs tbls = set (map (\<lambda>c. table_id (getDataTable c tbls)) cs)"

section \<open>JavaScript built-ins taken as parameters\<close>

text \<open>
  The functions below are provided by the JavaScript engine, not by this repository.
  The model takes them as parameters, so every theorem holds for whatever they compute:
  \<^item> \<open>numberIsFinite v\<close> stands for \<open>!isNaN(Number(v)) && isFinite(Number(v))\<close>;
  \<^item> \<open>dateParses v\<close> stands for \<open>!isNaN(Date.parse(v))\<close>;
  \<^item> \<open>numToString n\<close> stands for \<open>String(n)\<close> on a number;
  \<^item> \<open>jsonParse s\<close> stands for \<open>JSON.parse(s)\<close>, \<open>None\<close> when it throws;
  \<^item> \<open>mathMin\<close> and \<open>mathMax\<close> stand for \<open>Math.min(...vs)\<close> and \<open>Math.max(...vs)\<close>.
\<close>

record JsRuntime =
  numberIsFinite :: "prim \<Rightarrow> bool"
  dateParses :: "prim \<Rightarrow> bool"
  numToString :: "rat \<Rightarrow> string"
  jsonParse :: "string \<Rightarrow> json option"
  mathMin :: "prim list \<Rightarrow> prim"
  mathMax :: "prim list \<Rightarrow> prim"

section \<open>Type inference\<close>

text \<open>\<open>v != null && v !== ''\<close>\<close>

definition nonNullValue :: "prim \<Rightarrow> bool" where
  "nonNullValue v = (v \<noteq> PNull \<and> v \<noteq> PUndef \<and> v \<noteq> PStr [])"

text \<open>\<open>typeof v === 'boolean' || v === 'true' || v === 'false'\<close>\<close>

definition booleanLike :: "prim \<Rightarrow> bool" where
  "booleanLike v = ((case v of PBool _ \<Rightarrow> True | _ \<Rightarrow> False) \<or> v = PStr ''true'' \<or> v = PStr ''false'')"

text \<open>
  \<open>inferDataType\<close> of viewUtils.ts. The argument is \<open>None\<close> when the caller passes
  \<open>null\<close> or \<open>undefined\<close> instead of an array (the \<open>!values\<close> test).
\<close>

definition inferDataType :: "JsRuntime \<Rightarrow> prim list option \<Rightarrow> DataType" where
  "inferDataType rt values =
     (case values of
        None \<Rightarrow> TAuto
      | Some vs \<Rightarrow>
          if length vs = 0 then TAuto
          else (let nonNullValues = filter nonNullValue vs in
            if length nonNullValues = 0 then TAuto
            else if list_all booleanLike nonNullValues then TBoolean
            else if list_all (numberIsFinite rt) nonNullValues then TNumber
            else if list_all (dateParses rt) nonNullValues then TDate
            else TString))"

text \<open>\<open>inferTypeFromValueArray\<close> of componentTypes.ts: the same body, written there a second time.\<close>

definition inferTypeFromValueArray :: "JsRuntime \<Rightarrow> prim list option \<Rightarrow> DataType" where
  "inferTypeFromValueArray rt values =
     (case values of
        None \<Rightarrow> TAuto
      | Some vs \<Rightarrow>
          if length vs = 0 then TAuto
          else (let nonNullValues = filter nonNullValue vs in
            if length nonNullValues = 0 then TAuto
            else if list_all booleanLike nonNullValues then TBoolean
            else if list_all (numberIsFinite rt) nonNullValues then TNumber
            else if list_all (dateParses rt) nonNullValues then TDate
            else TString))"

text \<open>\<open>getDType\<close> of chartUtils: the display type of a field, a Vega-Lite type name.\<close>

definition getDType :: "JsRuntime \<Rightarrow> DataType \<Rightarrow> prim list \<Rightarrow> string" where
  "getDType rt type values =
     (if type = TAuto then
        (let nonNullValues = filter nonNullValue values in
         if length nonNullValues = 0 then ''nominal''
         else if list_all booleanLike nonNullValues then ''nominal''
         else if list_all (numberIsFinite rt) nonNullValues then ''quantitative''
         else if list_all (dateParses rt) nonNullValues then ''temporal''
         else ''nominal'')
      else (case type of
              TNumber \<Rightarrow> ''quantitative''
            | TDate \<Rightarrow> ''temporal''
            | _ \<Rightarrow> ''nominal''))"

section \<open>Thumbnail down-sampling (ChartRecBox)\<close>

text \<open>
  \<open>getRandom(seed) = (x = Math.sin(seed) * 10000; x - Math.floor(x))\<close>. \<open>Math.sin\<close> is the
  parameter \<open>msin\<close>; the arithmetic on its result is done on real numbers.
\<close>

definition getRandom :: "(int \<Rightarrow> real) \<Rightarrow> int \<Rightarrow> real" where
  "getRandom msin seed = (let x = msin seed * 10000 in x - of_int \<lfloor>x\<rfloor>)"

text \<open>\<open>index = Math.floor((i + 1) * getRandom(233 * i + 888))\<close>\<close>

definition swapIndex :: "(int \<Rightarrow> real) \<Rightarrow> nat \<Rightarrow> nat" where
  "swapIndex msin i = nat \<lfloor>(of_nat i + 1) * getRandom msin (233 * int i + 888)\<rfloor>"

text \<open>
  The loop \<open>while (i--) { ... }\<close>: the first argument is the value of \<open>i\<close> before the
  test, so the body runs with \<open>i - 1\<close> and the loop ends at \<open>0\<close>.
\<close>

fun shuffleLoop :: "(int \<Rightarrow> real) \<Rightarrow> nat \<Rightarrow> 'a list \<Rightarrow> 'a list" where
  "shuffleLoop msin 0 shuffled = shuffled"
| "shuffleLoop msin (Suc i) shuffled =
     (let index = swapIndex msin i;
          temp = shuffled ! index
      in shuffleLoop msin i (shuffled[index := shuffled ! i, i := temp]))"

definition getRandomSubarray :: "(int \<Rightarrow> real) \<Rightarrow> 'a list \<Rightarrow> nat \<Rightarrow> 'a list" where
  "getRandomSubarray msin arr sz = take sz (shuffleLoop msin (length arr) arr)"

section \<open>Objects, arrays and property access\<close>

text \<open>
  What a JavaScript statement of the assembler can do besides returning: throw the
  assembler's own error for a missing template, throw a \<open>TypeError\<close> (a property of
  \<open>undefined\<close> or \<open>null\<close> is read, or a property of a primitive is assigned, which
  throws in module code), or leave the fragment of JavaScript that this model covers
  (\<open>Unmodelled\<close>: an array read by a name, a string read as an object, an array written
  past its end, an object written under a numeric key). No registered template reaches
  \<open>Unmodelled\<close>. Property names inherited from \<open>Object.prototype\<close> are modelled
  where a channel name is looked up in the paths of a template, and not elsewhere.
\<close>

datatype error = TemplateNotFound string | TypeError | Unmodelled

definition bindE :: "error + 'a \<Rightarrow> ('a \<Rightarrow> error + 'b) \<Rightarrow> error + 'b" where
  "bindE m f = (case m of Inl e \<Rightarrow> Inl e | Inr x \<Rightarrow> f x)"

text \<open>The decimal digits of a number, as an array index is written when it names a property.\<close>

fun digitsOf :: "nat \<Rightarrow> nat \<Rightarrow> string" where
  "digitsOf 0 n = []"
| "digitsOf (Suc fuel) n =
     (if n < 10 then [char_of (48 + n)]
      else digitsOf fuel (n div 10) @ [char_of (48 + n mod 10)])"

definition natToString :: "nat \<Rightarrow> string" where
  "natToString n = digitsOf (Suc n) n"

text \<open>A path of a template is an array of strings and numbers.\<close>

datatype pkey = KStr string | KIdx nat

fun keyName :: "pkey \<Rightarrow> string" where
  "keyName (KStr s) = s"
| "keyName (KIdx n) = natToString n"

definition objGet :: "(string \<times> json) list \<Rightarrow> string \<Rightarrow> json" where
  "objGet kvs k = (case map_of kvs k of Some v \<Rightarrow> v | None \<Rightarrow> JUndef)"

text \<open>\<open>obj[k] = v\<close>: an existing property keeps its place, a new one goes last.\<close>

fun objSet :: "(string \<times> 'a) list \<Rightarrow> string \<Rightarrow> 'a \<Rightarrow> (string \<times> 'a) list" where
  "objSet [] k v = [(k, v)]"
| "objSet ((k', v') # kvs) k v =
     (if k' = k then (k, v) # kvs else (k', v') # objSet kvs k v)"

text \<open>\<open>delete obj[k]\<close>\<close>

definition objDelete :: "(string \<times> 'a) list \<Rightarrow> string \<Rightarrow> (string \<times> 'a) list" where
  "objDelete kvs k = filter (\<lambda>kv. fst kv \<noteq> k) kvs"

text \<open>\<open>Object.fromEntries(entries)\<close>: a later entry overwrites an earlier one of the same key.\<close>

definition fromEntries :: "(string \<times> 'a) list \<Rightarrow> (string \<times> 'a) list" where
  "fromEntries entries = foldl (\<lambda>acc kv. objSet acc (fst kv) (snd kv)) [] entries"

text \<open>\<open>Object.entries(v)\<close> of a value that is not a string.\<close>

fun entriesOf :: "json \<Rightarrow> (string \<times> json) list" where
  "entriesOf (JObj kvs) = kvs"
| "entriesOf (JArr xs) = zip (map natToString [0..<length xs]) xs"
| "entriesOf (JPrim p) = []"

text \<open>Truthiness, as \<open>if (v)\<close> and \<open>v ? a : b\<close> test it.\<close>

fun truthy :: "json \<Rightarrow> bool" where
  "truthy (JPrim PUndef) = False"
| "truthy (JPrim PNull) = False"
| "truthy (JPrim (PBool b)) = b"
| "truthy (JPrim (PNum n)) = (n \<noteq> 0)"
| "truthy (JPrim (PStr s)) = (s \<noteq> [])"
| "truthy (JArr xs) = True"
| "truthy (JObj kvs) = True"

text \<open>\<open>typeof v === 'string'\<close>\<close>

fun isString :: "json \<Rightarrow> bool" where
  "isString (JPrim (PStr s)) = True"
| "isString v = False"

text \<open>\<open>ref[key]\<close>, read.\<close>

fun getProp :: "json \<Rightarrow> pkey \<Rightarrow> error + json" where
  "getProp (JObj kvs) k = Inr (objGet kvs (keyName k))"
| "getProp (JArr xs) (KIdx n) = Inr (if n < length xs then xs ! n else JUndef)"
| "getProp (JArr xs) (KStr s) = Inl Unmodelled"
| "getProp (JPrim PUndef) k = Inl TypeError"
| "getProp (JPrim PNull) k = Inl TypeError"
| "getProp (JPrim (PStr s)) k = Inl Unmodelled"
| "getProp (JPrim (PBool b)) k = Inr JUndef"
| "getProp (JPrim (PNum n)) k = Inr JUndef"

text \<open>\<open>ref[key] = v\<close>; the result is \<open>ref\<close> after the assignment.\<close>

fun setProp :: "json \<Rightarrow> pkey \<Rightarrow> json \<Rightarrow> error + json" where
  "setProp (JObj kvs) (KStr s) v = Inr (JObj (objSet kvs s v))"
| "setProp (JObj kvs) (KIdx n) v = Inl Unmodelled"
| "setProp (JArr xs) (KIdx n) v = (if n < length xs then Inr (JArr (xs[n := v])) else Inl Unmodelled)"
| "setProp (JArr xs) (KStr s) v = Inl Unmodelled"
| "setProp (JPrim p) k v = Inl TypeError"

text \<open>
  The walk \<open>ref = vgObj; for (key of path) ref = ref[key]\<close> followed by a statement \<open>f\<close>
  that assigns to \<open>ref\<close>. The specification is a tree here, so the change made at the end
  of the walk is written back along the path. This is what the assignment through the
  reference does as long as the object at the end of the walk is reachable by this path
  only, which holds for the registered templates: none of their paths runs through the
  target of another path.
\<close>

fun modifyAt :: "pkey list \<Rightarrow> (json \<Rightarrow> error + json) \<Rightarrow> json \<Rightarrow> error + json" where
  "modifyAt [] f v = f v"
| "modifyAt (k # ks) f v =
     bindE (getProp v k) (\<lambda>child. bindE (modifyAt ks f child) (\<lambda>child'. setProp v k child'))"

fun getAt :: "pkey list \<Rightarrow> json \<Rightarrow> error + json" where
  "getAt [] v = Inr v"
| "getAt (k # ks) v = bindE (getProp v k) (getAt ks)"

section \<open>Cells, sets and the default sort\<close>

text \<open>\<open>r[name]\<close> on a row.\<close>

definition cell :: "row \<Rightarrow> string \<Rightarrow> prim" where
  "cell r name = (case map_of r name of Some v \<Rightarrow> v | None \<Rightarrow> PUndef)"

text \<open>\<open>[...new Set(xs)]\<close>: the distinct values in the order of their first occurrence.\<close>

fun uniq :: "'a list \<Rightarrow> 'a list" where
  "uniq [] = []"
| "uniq (x # xs) = x # filter (\<lambda>y. y \<noteq> x) (uniq xs)"

text \<open>\<open>String(v)\<close> on a primitive value.\<close>

definition primToString :: "JsRuntime \<Rightarrow> prim \<Rightarrow> string" where
  "primToString rt v =
     (case v of
        PUndef \<Rightarrow> ''undefined''
      | PNull \<Rightarrow> ''null''
      | PBool b \<Rightarrow> (if b then ''true'' else ''false'')
      | PNum n \<Rightarrow> numToString rt n
      | PStr s \<Rightarrow> s)"

text \<open>
  \<open>xs.sort()\<close> without a comparator: \<open>undefined\<close> goes last, the other values are ordered
  by their strings, character code by character code, and the sort is stable.
\<close>

definition jsSort :: "JsRuntime \<Rightarrow> prim list \<Rightarrow> prim list" where
  "jsSort rt xs = sort_key (primToString rt) (filter (\<lambda>v. v \<noteq> PUndef) xs) @ filter (\<lambda>v. v = PUndef) xs"

text \<open>\<open>s.includes(sub)\<close> on strings.\<close>

fun strIncludes :: "string \<Rightarrow> string \<Rightarrow> bool" where
  "strIncludes [] sub = (sub = [])"
| "strIncludes (c # cs) sub = (take (length sub) (c # cs) = sub \<or> strIncludes cs sub)"

definition primArr :: "prim list \<Rightarrow> json" where
  "primArr vs = JArr (map JPrim vs)"

definition rowObj :: "row \<Rightarrow> json" where
  "rowObj r = JObj (map (\<lambda>kv. (fst kv, JPrim (snd kv))) r)"

section \<open>Chart templates (ChartTemplates)\<close>

text \<open>
  \<open>paths[channel]\<close> is one path or an array of paths; the assembler tells them apart by
  \<open>pathObj.length > 0 && Array.isArray(pathObj[0])\<close>. The icon of a template is not part
  of the specification and is left out.
\<close>

datatype pathSpec = OnePath "pkey list" | ManyPaths "pkey list list"

fun pathsOf :: "pathSpec \<Rightarrow> pkey list list" where
  "pathsOf (OnePath p) = [p]"
| "pathsOf (ManyPaths ps) = (if ps = [] then [[]] else ps)"

record ChartTemplate =
  chart :: string
  template :: json
  channels :: "string list"
  paths :: "(string \<times> pathSpec) list"
  postProcessor :: "(json \<Rightarrow> row list \<Rightarrow> error + json) option"

text \<open>\<open>Object.fromEntries(chs.map(channel => [channel, ['encoding', channel]]))\<close>\<close>

definition encodingPaths :: "string list \<Rightarrow> (string \<times> pathSpec) list" where
  "encodingPaths chs = map (\<lambda>channel. (channel, OnePath [KStr ''encoding'', KStr channel])) chs"

text \<open>
  \<open>JSON.parse(JSON.stringify(v))\<close> of a value that is not \<open>undefined\<close>: a deep copy in
  which a property holding \<open>undefined\<close> is dropped and \<open>undefined\<close> in an array is \<open>null\<close>.
\<close>

fun jsonClone :: "json \<Rightarrow> json" where
  "jsonClone (JPrim p) = JPrim p"
| "jsonClone (JArr xs) = JArr (map (\<lambda>x. if x = JUndef then JNull else jsonClone x) xs)"
| "jsonClone (JObj kvs) =
     JObj (filter (\<lambda>kv. snd kv \<noteq> JUndef) (map (\<lambda>kv. (fst kv, jsonClone (snd kv))) kvs))"

text \<open>\<open>v?.type\<close>\<close>

definition typeOfEncoding :: "json \<Rightarrow> error + json" where
  "typeOfEncoding v = (if v = JUndef \<or> v = JNull then Inr JUndef else getProp v (KStr ''type''))"

text \<open>The post-processor of the Ranged Dot Plot.\<close>

definition rangedDotPlotPost :: "json \<Rightarrow> row list \<Rightarrow> error + json" where
  "rangedDotPlotPost vgSpec tbl =
     bindE (getAt [KStr ''encoding'', KStr ''y''] vgSpec) (\<lambda>y.
     bindE (typeOfEncoding y) (\<lambda>yType.
       if yType = JStr ''nominal''
       then modifyAt [KStr ''layer'', KIdx 0, KStr ''encoding'']
              (\<lambda>ref. setProp ref (KStr ''detail'') (jsonClone y)) vgSpec
       else
         bindE (getAt [KStr ''encoding'', KStr ''x''] vgSpec) (\<lambda>x.
         bindE (typeOfEncoding x) (\<lambda>xType.
           if xType = JStr ''nominal''
           then modifyAt [KStr ''layer'', KIdx 0, KStr ''encoding'']
                  (\<lambda>ref. setProp ref (KStr ''detail'') (jsonClone x)) vgSpec
           else Inr vgSpec))))"

text \<open>
  \<open>if (vgSpec.encoding.c && vgSpec.encoding.c.type !== 'nominal') vgSpec.encoding.c.type = 'nominal'\<close>
\<close>

definition forceNominal :: "string \<Rightarrow> json \<Rightarrow> error + json" where
  "forceNominal c vgSpec =
     bindE (getAt [KStr ''encoding'', KStr c] vgSpec) (\<lambda>enc.
       if truthy enc
       then bindE (getProp enc (KStr ''type'')) (\<lambda>t.
              if t \<noteq> JStr ''nominal''
              then modifyAt [KStr ''encoding'', KStr c]
                     (\<lambda>ref. setProp ref (KStr ''type'') (JStr ''nominal'')) vgSpec
              else Inr vgSpec)
       else Inr vgSpec)"

definition boxplotPost :: "json \<Rightarrow> row list \<Rightarrow> error + json" where
  "boxplotPost vgSpec tbl = forceNominal ''x'' vgSpec"

definition heatMapPost :: "json \<Rightarrow> row list \<Rightarrow> error + json" where
  "heatMapPost vgSpec tbl = bindE (forceNominal ''y'' vgSpec) (forceNominal ''x'')"

text \<open>
  The statements of a \<open>try\<close> block, run in order: a \<open>TypeError\<close> ends the block and keeps
  what the statements before it have done.
\<close>

fun runSteps :: "(json \<Rightarrow> error + json) list \<Rightarrow> json \<Rightarrow> error + json" where
  "runSteps [] vg = Inr vg"
| "runSteps (step # steps) vg =
     (case step vg of
        Inl TypeError \<Rightarrow> Inr vg
      | Inl e \<Rightarrow> Inl e
      | Inr vg' \<Rightarrow> runSteps steps vg')"

text \<open>A value used as a property name or inside a template literal.\<close>

fun keyOfJson :: "JsRuntime \<Rightarrow> json \<Rightarrow> error + string" where
  "keyOfJson rt (JPrim p) = Inr (primToString rt p)"
| "keyOfJson rt v = Inl Unmodelled"

definition nthOrUndef :: "prim list \<Rightarrow> nat \<Rightarrow> prim" where
  "nthOrUndef xs i = (if i < length xs then xs ! i else PUndef)"

text \<open>\<open>datum["${colorField}"] == "${value}"\<close>\<close>

definition datumFilter :: "JsRuntime \<Rightarrow> string \<Rightarrow> prim \<Rightarrow> json" where
  "datumFilter rt colorField v =
     JArr [JObj [(''filter'',
       JStr (''datum['' @ [CHR 0x22] @ colorField @ [CHR 0x22] @ ''] == '' @ [CHR 0x22]
             @ primToString rt v @ [CHR 0x22]))]]"

text \<open>\<open>[Math.min(...xValues, 0), Math.max(...xValues)]\<close> for the rows of the two colour values.\<close>

definition pyramidDomain :: "JsRuntime \<Rightarrow> string \<Rightarrow> prim \<Rightarrow> prim \<Rightarrow> row list \<Rightarrow> json \<Rightarrow> error + json" where
  "pyramidDomain rt colorField v0 v1 tbl vgSpec =
     bindE (getAt [KStr ''hconcat'', KIdx 0, KStr ''encoding'', KStr ''x'', KStr ''field''] vgSpec) (\<lambda>xf.
     bindE (keyOfJson rt xf) (\<lambda>xField.
       let xValues = uniq (map (\<lambda>r. cell r xField)
                        (filter (\<lambda>r. cell r colorField = v0 \<or> cell r colorField = v1) tbl))
       in Inr (primArr [mathMin rt (xValues @ [PNum 0]), mathMax rt xValues])))"

text \<open>The post-processor of the Pyramid Chart; its body is one \<open>try\<close> block.\<close>

definition pyramidPost :: "JsRuntime \<Rightarrow> json \<Rightarrow> row list \<Rightarrow> error + json" where
  "pyramidPost rt vgSpec tbl =
     (case bindE (getAt [KStr ''hconcat'', KIdx 0, KStr ''encoding'', KStr ''color'', KStr ''field''] vgSpec)
             (keyOfJson rt) of
        Inl TypeError \<Rightarrow> Inr vgSpec
      | Inl e \<Rightarrow> Inl e
      | Inr colorField \<Rightarrow>
          (let colorValues = uniq (map (\<lambda>r. cell r colorField) tbl);
               v0 = nthOrUndef colorValues 0;
               v1 = nthOrUndef colorValues 1
           in runSteps
                [modifyAt [KStr ''hconcat'', KIdx 0]
                   (\<lambda>h. setProp h (KStr ''transform'') (datumFilter rt colorField v0)),
                 modifyAt [KStr ''hconcat'', KIdx 0] (\<lambda>h. setProp h (KStr ''title'') (JPrim v0)),
                 modifyAt [KStr ''hconcat'', KIdx 1]
                   (\<lambda>h. setProp h (KStr ''transform'') (datumFilter rt colorField v1)),
                 modifyAt [KStr ''hconcat'', KIdx 1] (\<lambda>h. setProp h (KStr ''title'') (JPrim v1)),
                 (\<lambda>vg. bindE (pyramidDomain rt colorField v0 v1 tbl vg) (\<lambda>dom.
                    modifyAt [KStr ''hconcat'', KIdx 0, KStr ''encoding'', KStr ''x'', KStr ''scale'']
                      (\<lambda>sc. setProp sc (KStr ''domain'') dom) vg)),
                 (\<lambda>vg. bindE (pyramidDomain rt colorField v0 v1 tbl vg) (\<lambda>dom.
                    modifyAt [KStr ''hconcat'', KIdx 1, KStr ''encoding'', KStr ''x'']
                      (\<lambda>x. setProp x (KStr ''scale'') (JObj [(''domain'', dom)])) vg))]
                vgSpec))"

definition tablePlots :: "ChartTemplate list" where
  "tablePlots =
     [\<lparr> chart = ''Auto'', template = JObj [], channels = [], paths = [], postProcessor = None \<rparr>,
      \<lparr> chart = ''Table'', template = JObj [], channels = [], paths = [], postProcessor = None \<rparr>]"

definition scatterPlots :: "ChartTemplate list" where
  "scatterPlots =
     [\<lparr> chart = ''Scatter Plot'',
        template = JObj [(''mark'', JStr ''circle''), (''encoding'', JObj [])],
        channels = [''x'', ''y'', ''color'', ''size'', ''column'', ''row''],
        paths = [(''x'', OnePath [KStr ''encoding'', KStr ''x'']),
                 (''y'', OnePath [KStr ''encoding'', KStr ''y'']),
                 (''color'', OnePath [KStr ''encoding'', KStr ''color'']),
                 (''size'', OnePath [KStr ''encoding'', KStr ''size'']),
                 (''column'', OnePath [KStr ''encoding'', KStr ''column'']),
                 (''row'', OnePath [KStr ''encoding'', KStr ''row''])],
        postProcessor = None \<rparr>,
      \<lparr> chart = ''Linear Regression'',
        template = JObj [(''layer'', JArr
          [JObj [(''mark'', JStr ''circle''),
                 (''encoding'', JObj [(''x'', JObj []), (''y'', JObj []), (''color'', JObj []),
                                      (''size'', JObj [])])],
           JObj [(''mark'', JObj [(''type'', JStr ''line''), (''color'', JStr ''red'')]),
                 (''transform'', JArr [JObj [(''regression'', JStr ''field1''),
                                             (''on'', JStr ''field2''),
                                             (''group'', JStr ''field3'')]]),
                 (''encoding'', JObj [(''x'', JObj []), (''y'', JObj [])])]])],
        channels = [''x'', ''y'', ''size'', ''color'', ''column''],
        paths = [(''x'', ManyPaths [[KStr ''layer'', KIdx 0, KStr ''encoding'', KStr ''x''],
                                    [KStr ''layer'', KIdx 1, KStr ''encoding'', KStr ''x''],
                                    [KStr ''layer'', KIdx 1, KStr ''transform'', KIdx 0, KStr ''on'']]),
                 (''y'', ManyPaths [[KStr ''layer'', KIdx 0, KStr ''encoding'', KStr ''y''],
                                    [KStr ''layer'', KIdx 1, KStr ''encoding'', KStr ''y''],
                                    [KStr ''layer'', KIdx 1, KStr ''transform'', KIdx 0,
                                     KStr ''regression'']]),
                 (''color'', OnePath [KStr ''layer'', KIdx 0, KStr ''encoding'', KStr ''color'']),
                 (''size'', OnePath [KStr ''layer'', KIdx 0, KStr ''encoding'', KStr ''size''])],
        postProcessor = None \<rparr>,
      \<lparr> chart = ''Ranged Dot Plot'',
        template = JObj [(''encoding'', JObj []),
          (''layer'', JArr
            [JObj [(''mark'', JStr ''line''), (''encoding'', JObj [(''detail'', JObj [])])],
             JObj [(''mark'', JObj [(''type'', JStr ''point''), (''filled'', JBool True)]),
                   (''encoding'', JObj [(''color'', JObj [])])]])],
        channels = [''x'', ''y'', ''color''],
        paths = [(''x'', OnePath [KStr ''encoding'', KStr ''x'']),
                 (''y'', OnePath [KStr ''encoding'', KStr ''y'']),
                 (''color'', OnePath [KStr ''layer'', KIdx 1, KStr ''encoding'', KStr ''color''])],
        postProcessor = Some rangedDotPlotPost \<rparr>,
      \<lparr> chart = ''Boxplot'',
        template = JObj [(''mark'', JStr ''boxplot''), (''encoding'', JObj [])],
        channels = [''x'', ''y'', ''color'', ''opacity'', ''column'', ''row''],
        paths = encodingPaths [''x'', ''y'', ''color'', ''opacity'', ''column'', ''row''],
        postProcessor = Some boxplotPost \<rparr>]"

definition pyramidTemplate :: json where
  "pyramidTemplate = JObj
     [(''spacing'', JNum 0),
      (''resolve'', JObj [(''scale'', JObj [(''y'', JStr ''shared'')])]),
      (''hconcat'', JArr
        [JObj [(''mark'', JStr ''bar''),
               (''encoding'', JObj
                 [(''y'', JObj []),
                  (''x'', JObj [(''scale'', JObj [(''reverse'', JBool True)]), (''stack'', JNull)]),
                  (''color'', JObj [(''legend'', JNull)]),
                  (''opacity'', JObj [(''value'', JNum (9 / 10))])])],
         JObj [(''mark'', JStr ''bar''),
               (''encoding'', JObj
                 [(''y'', JObj [(''axis'', JNull)]),
                  (''x'', JObj [(''stack'', JNull)]),
                  (''color'', JObj [(''legend'', JNull)]),
                  (''opacity'', JObj [(''value'', JNum (9 / 10))])])]]),
      (''config'', JObj [(''view'', JObj [(''stroke'', JNull)]),
                         (''axis'', JObj [(''grid'', JBool False)])])]"

definition barCharts :: "JsRuntime \<Rightarrow> ChartTemplate list" where
  "barCharts rt =
     [\<lparr> chart = ''Bar Chart'',
        template = JObj [(''mark'', JStr ''bar''), (''encoding'', JObj [])],
        channels = [''x'', ''y'', ''color'', ''column'', ''row''],
        paths = [(''x'', OnePath [KStr ''encoding'', KStr ''x'']),
                 (''y'', OnePath [KStr ''encoding'', KStr ''y'']),
                 (''color'', OnePath [KStr ''encoding'', KStr ''color'']),
                 (''column'', OnePath [KStr ''encoding'', KStr ''column'']),
                 (''row'', OnePath [KStr ''encoding'', KStr ''row''])],
        postProcessor = None \<rparr>,
      \<lparr> chart = ''Pyramid Chart'',
        template = pyramidTemplate,
        channels = [''x'', ''y'', ''color''],
        paths = [(''x'', ManyPaths [[KStr ''hconcat'', KIdx 0, KStr ''encoding'', KStr ''x''],
                                    [KStr ''hconcat'', KIdx 1, KStr ''encoding'', KStr ''x'']]),
                 (''y'', ManyPaths [[KStr ''hconcat'', KIdx 0, KStr ''encoding'', KStr ''y''],
                                    [KStr ''hconcat'', KIdx 1, KStr ''encoding'', KStr ''y'']]),
                 (''color'', ManyPaths [[KStr ''hconcat'', KIdx 0, KStr ''encoding'', KStr ''color''],
                                        [KStr ''hconcat'', KIdx 1, KStr ''encoding'', KStr ''color'']])],
        postProcessor = Some (pyramidPost rt) \<rparr>,
      \<lparr> chart = ''Grouped Bar Chart'',
        template = JObj [(''mark'', JStr ''bar''), (''encoding'', JObj [])],
        channels = [''x'', ''y'', ''group''],
        paths = [(''x'', OnePath [KStr ''encoding'', KStr ''x'']),
                 (''y'', OnePath [KStr ''encoding'', KStr ''y'']),
                 (''group'', ManyPaths [[KStr ''encoding'', KStr ''xOffset''],
                                        [KStr ''encoding'', KStr ''color'']])],
        postProcessor = None \<rparr>,
      \<lparr> chart = ''Stacked Bar Chart'',
        template = JObj [(''mark'', JStr ''bar''), (''encoding'', JObj [])],
        channels = [''x'', ''y'', ''color'', ''column'', ''row''],
        paths = [(''x'', OnePath [KStr ''encoding'', KStr ''x'']),
                 (''y'', OnePath [KStr ''encoding'', KStr ''y'']),
                 (''color'', OnePath [KStr ''encoding'', KStr ''color'']),
                 (''column'', OnePath [KStr ''encoding'', KStr ''column'']),
                 (''row'', OnePath [KStr ''encoding'', KStr ''row''])],
        postProcessor = None \<rparr>,
      \<lparr> chart = ''Histogram'',
        template = JObj [(''mark'', JStr ''bar''), (''encoding'', JObj [])],
        channels = [''x'', ''y'', ''color'', ''column'', ''row''],
        paths = [(''x'', OnePath [KStr ''encoding'', KStr ''x'']),
                 (''y'', OnePath [KStr ''encoding'', KStr ''y'']),
                 (''color'', OnePath [KStr ''encoding'', KStr ''color'']),
                 (''column'', OnePath [KStr ''encoding'', KStr ''column'']),
                 (''row'', OnePath [KStr ''encoding'', KStr ''row''])],
        postProcessor = None \<rparr>]"

definition lineCharts :: "ChartTemplate list" where
  "lineCharts =
     [\<lparr> chart = ''Line Chart'',
        template = JObj [(''mark'', JStr ''line''), (''encoding'', JObj [])],
        channels = [''x'', ''y'', ''color'', ''column'', ''row''],
        paths = [(''x'', OnePath [KStr ''encoding'', KStr ''x'']),
                 (''y'', OnePath [KStr ''encoding'', KStr ''y'']),
                 (''color'', OnePath [KStr ''encoding'', KStr ''color'']),
                 (''column'', OnePath [KStr ''encoding'', KStr ''column'']),
                 (''row'', OnePath [KStr ''encoding'', KStr ''row''])],
        postProcessor = None \<rparr>,
      \<lparr> chart = ''Dotted Line Chart'',
        template = JObj [(''mark'', JObj [(''type'', JStr ''line''), (''point'', JBool True)]),
                         (''encoding'', JObj [])],
        channels = [''x'', ''y'', ''color'', ''column'', ''row''],
        paths = [(''x'', OnePath [KStr ''encoding'', KStr ''x'']),
                 (''y'', OnePath [KStr ''encoding'', KStr ''y'']),
                 (''color'', OnePath [KStr ''encoding'', KStr ''color'']),
                 (''column'', OnePath [KStr ''encoding'', KStr ''column'']),
                 (''row'', OnePath [KStr ''encoding'', KStr ''row''])],
        postProcessor = None \<rparr>]"

definition customCharts :: "ChartTemplate list" where
  "customCharts =
     [\<lparr> chart = ''Custom Point'',
        template = JObj [(''mark'', JStr ''circle''), (''encoding'', JObj [])],
        channels = [''x'', ''y'', ''color'', ''opacity'', ''size'', ''shape'', ''column'', ''row''],
        paths = encodingPaths [''x'', ''y'', ''color'', ''opacity'', ''size'', ''shape'', ''column'', ''row''],
        postProcessor = None \<rparr>,
      \<lparr> chart = ''Custom Line'',
        template = JObj [(''mark'', JStr ''line''), (''encoding'', JObj [])],
        channels = [''x'', ''y'', ''color'', ''opacity'', ''detail'', ''column'', ''row''],
        paths = encodingPaths [''x'', ''y'', ''color'', ''opacity'', ''column'', ''row'']
                  @ [(''detail'', OnePath [KStr ''encoding'', KStr ''detail''])],
        postProcessor = None \<rparr>,
      \<lparr> chart = ''Custom Bar'',
        template = JObj [(''mark'', JStr ''bar''), (''encoding'', JObj [])],
        channels = [''x'', ''y'', ''color'', ''opacity'', ''size'', ''shape'', ''column'', ''row''],
        paths = encodingPaths [''x'', ''y'', ''color'', ''opacity'', ''size'', ''shape'', ''column'', ''row''],
        postProcessor = None \<rparr>,
      \<lparr> chart = ''Custom Rect'',
        template = JObj [(''mark'', JStr ''rect''), (''encoding'', JObj [])],
        channels = [''x'', ''y'', ''x2'', ''y2'', ''color'', ''opacity'', ''column'', ''row''],
        paths = encodingPaths [''x'', ''y'', ''x2'', ''y2'', ''color'', ''opacity'', ''column'', ''row''],
        postProcessor = None \<rparr>,
      \<lparr> chart = ''Custom Area'',
        template = JObj [(''mark'', JStr ''area''), (''encoding'', JObj [])],
        channels = [''x'', ''y'', ''x2'', ''y2'', ''color'', ''column'', ''row''],
        paths = encodingPaths [''x'', ''y'', ''x2'', ''y2'', ''color'', ''column'', ''row''],
        postProcessor = None \<rparr>]"

definition tableCharts :: "ChartTemplate list" where
  "tableCharts =
     [\<lparr> chart = ''Heat Map'',
        template = JObj [(''mark'', JStr ''rect''), (''encoding'', JObj [])],
        channels = [''x'', ''y'', ''color'', ''column'', ''row''],
        paths = encodingPaths [''x'', ''y'', ''color'', ''column'', ''row''],
        postProcessor = Some heatMapPost \<rparr>]"

definition CHART_TEMPLATES :: "JsRuntime \<Rightarrow> (string \<times> ChartTemplate list) list" where
  "CHART_TEMPLATES rt =
     [(''table'', tablePlots), (''scatter'', scatterPlots), (''bar'', barCharts rt),
      (''line'', lineCharts), (''table-based'', tableCharts), (''custom'', customCharts)]"

text \<open>\<open>Object.values(CHART_TEMPLATES).flat().find(t => t.chart === chartType)\<close>\<close>

definition getChartTemplate :: "JsRuntime \<Rightarrow> string \<Rightarrow> ChartTemplate option" where
  "getChartTemplate rt chartType =
     find (\<lambda>t. chart t = chartType) (concat (map snd (CHART_TEMPLATES rt)))"

section \<open>Spec assembly (assembleVegaChart)\<close>

definition strOf :: "string option \<Rightarrow> string" where
  "strOf x = (case x of None \<Rightarrow> [] | Some s \<Rightarrow> s)"

text \<open>The object under a property of \<open>encodingObj\<close>, which is absent or an object there.\<close>

definition subObj :: "(string \<times> json) list \<Rightarrow> string \<Rightarrow> (string \<times> json) list" where
  "subObj e k = (case objGet e k of JObj kvs \<Rightarrow> kvs | _ \<Rightarrow> [])"

text \<open>
  \<open>encoding.fieldID ? conceptShelfItems.find(f => f.id === encoding.fieldID) : undefined\<close>
\<close>

definition resolveField :: "FieldItem list \<Rightarrow> EncodingItem \<Rightarrow> FieldItem option" where
  "resolveField fieldItems encoding =
     (if truthyStr (fieldID encoding)
      then find (\<lambda>f. field_id f = strOf (fieldID encoding)) fieldItems
      else None)"

text \<open>
  The colour branch of a nominal field: the scale keeps the field's whole domain, the
  legend shows the values of the working rows.
\<close>

definition colorEncoding ::
  "JsRuntime \<Rightarrow> FieldItem \<Rightarrow> row list \<Rightarrow> (string \<times> json) list \<Rightarrow> (string \<times> json) list" where
  "colorEncoding rt field workingTable e =
     (let actualDomain = uniq (map (\<lambda>r. cell r (field_name field)) workingTable);
          e1 = (if list_all (\<lambda>v. v \<in> set (field_domain field)) actualDomain
                   \<and> length (field_domain field) > length actualDomain
                then (let scaleValues = jsSort rt (uniq (field_domain field));
                          legendValues = jsSort rt actualDomain
                      in objSet (objSet e ''scale'' (JObj [(''domain'', primArr scaleValues)]))
                           ''legend'' (JObj [(''values'', primArr legendValues)]))
                else e);
          e2 = (if length actualDomain \<ge> 16
                then objSet e1 ''legend''
                       (JObj (objSet (objSet (subObj e1 ''legend'') ''symbolSize'' (JNum 12))
                                ''labelFontSize'' (JNum 8)))
                else e1);
          e3 = (if length (uniq (field_domain field)) \<ge> 16
                then objSet e2 ''scale'' (JObj (objSet (subObj e2 ''scale'') ''scheme'' (JStr ''tableau20'')))
                else e2)
      in e3)"

text \<open>
  The first part of the block \<open>if (field) { ... }\<close>: field name, display type,
  aggregation, and the scale of a quantitative x axis of a line chart.
\<close>

definition typedEncoding ::
  "JsRuntime \<Rightarrow> string \<Rightarrow> string \<Rightarrow> EncodingItem \<Rightarrow> FieldItem \<Rightarrow> row list \<Rightarrow> bool
     \<Rightarrow> (string \<times> json) list \<Rightarrow> (string \<times> json) list" where
  "typedEncoding rt chartType channel encoding field workingTable aggrPreprocessed e =
     (let e1 = objSet e ''field'' (JStr (field_name field));
          e2 = objSet e1 ''type''
                 (JStr (getDType rt (field_type field) (map (\<lambda>r. cell r (field_name field)) workingTable)));
          e3 = (if semanticType field = Some ''Year''
                then (if channel \<in> set [''color'', ''size'', ''column'', ''row'']
                      then objSet e2 ''type'' (JStr ''nominal'')
                      else objSet e2 ''type'' (JStr ''temporal''))
                else e2);
          e4 = (if aggrPreprocessed
                then (if truthyStr (aggregate encoding)
                      then (if aggregate encoding = Some ''count''
                            then objSet (objSet (objSet e3 ''field'' (JStr ''_count''))
                                   ''title'' (JStr ''Count'')) ''type'' (JStr ''quantitative'')
                            else objSet (objSet e3 ''field''
                                   (JStr (field_name field @ ''_'' @ strOf (aggregate encoding))))
                                   ''type'' (JStr ''quantitative''))
                      else e3)
                else (if truthyStr (aggregate encoding)
                      then (let ea = objSet e3 ''aggregate'' (JStr (strOf (aggregate encoding)))
                            in if aggregate encoding = Some ''count''
                               then objSet ea ''title'' (JStr ''Count'') else ea)
                      else e3));
          e5 = (if objGet e4 ''type'' = JStr ''quantitative'' \<and> strIncludes chartType ''Line''
                   \<and> channel = ''x''
                then objSet e4 ''scale'' (JObj [(''nice'', JBool False)])
                else e4)
      in e5)"

text \<open>The whole block \<open>if (field) { ... }\<close>: the colour branch comes last.\<close>

definition fieldEncoding ::
  "JsRuntime \<Rightarrow> string \<Rightarrow> string \<Rightarrow> EncodingItem \<Rightarrow> FieldItem \<Rightarrow> row list \<Rightarrow> bool
     \<Rightarrow> (string \<times> json) list \<Rightarrow> (string \<times> json) list" where
  "fieldEncoding rt chartType channel encoding field workingTable aggrPreprocessed e =
     (let e5 = typedEncoding rt chartType channel encoding field workingTable aggrPreprocessed e
      in if objGet e5 ''type'' = JStr ''nominal'' \<and> channel = ''color''
         then colorEncoding rt field workingTable e5
         else e5)"

text \<open>
  \<open>JSON.parse(encoding.sortBy).values\<close>, on what \<open>JSON.parse\<close> returned, when that is
  not an array.
\<close>

fun parsedValues :: "json \<Rightarrow> error + json" where
  "parsedValues (JObj kvs) = Inr (objGet kvs ''values'')"
| "parsedValues (JArr xs) = Inl Unmodelled"
| "parsedValues (JPrim PNull) = Inl TypeError"
| "parsedValues (JPrim PUndef) = Inl TypeError"
| "parsedValues (JPrim p) = Inr JUndef"

text \<open>\<open>sortedValues.reverse()\<close>: only an array has the method.\<close>

fun jsReverse :: "json \<Rightarrow> error + json" where
  "jsReverse (JArr xs) = Inr (JArr (rev xs))"
| "jsReverse v = Inl TypeError"

text \<open>
  \<open>sortOrder === 'ascending' ? sortedValues : sortedValues.reverse()\<close> for
  \<open>sortedValues = JSON.parse(encoding.sortBy).values\<close>. Of a parsed array, \<open>values\<close> is
  the method \<open>Array.prototype.values\<close>: a function, which has no \<open>reverse\<close>, and which as
  a sort value is outside the model.
\<close>

fun sortedValuesOf :: "json \<Rightarrow> string \<Rightarrow> error + json" where
  "sortedValuesOf (JArr xs) sortOrder' =
     (if sortOrder' = ''ascending'' then Inl Unmodelled else Inl TypeError)"
| "sortedValuesOf parsed sortOrder' =
     bindE (parsedValues parsed)
       (\<lambda>sortedValues. if sortOrder' = ''ascending'' then Inr sortedValues
                        else jsReverse sortedValues)"

text \<open>
  \<open>vgObj.encoding = vgObj.encoding || {}; vgObj.encoding.order = { field: ... }\<close>
\<close>

definition setOrder :: "string \<Rightarrow> json \<Rightarrow> error + json" where
  "setOrder fieldName vgObj =
     bindE (getProp vgObj (KStr ''encoding'')) (\<lambda>enc.
       let enc' = (if truthy enc then enc else JObj []) in
       bindE (setProp vgObj (KStr ''encoding'') enc') (\<lambda>vg1.
       bindE (setProp enc' (KStr ''order'')
                (JObj [(''field'', JStr (''color_'' @ fieldName @ ''_sort_index''))])) (\<lambda>enc''.
         setProp vg1 (KStr ''encoding'') enc'')))"

text \<open>
  The \<open>try\<close> block of the sort by an explicit value list. Whatever throws inside it is
  caught; the statements before the throw keep their effect.
\<close>

definition customSort ::
  "JsRuntime \<Rightarrow> string \<Rightarrow> EncodingItem \<Rightarrow> FieldItem option \<Rightarrow> string
     \<Rightarrow> (string \<times> json) list \<Rightarrow> json \<Rightarrow> error + ((string \<times> json) list \<times> json)" where
  "customSort rt channel encoding field sortOrder' encodingObj vgObj =
     (case jsonParse rt (strOf (sortBy encoding)) of
        None \<Rightarrow> Inr (encodingObj, vgObj)
      | Some parsed \<Rightarrow>
          (case sortedValuesOf parsed sortOrder' of
             Inl TypeError \<Rightarrow> Inr (encodingObj, vgObj)
           | Inl e \<Rightarrow> Inl e
           | Inr sortValue \<Rightarrow>
               (let encodingObj' = objSet encodingObj ''sort'' sortValue in
                if channel = ''color''
                then (case bindE (getProp vgObj (KStr ''mark''))
                             (\<lambda>m. if m = JStr ''bar'' \<or> m = JStr ''area''
                                  then setOrder (case field of None \<Rightarrow> ''undefined''
                                                 | Some f \<Rightarrow> field_name f) vgObj
                                  else Inr vgObj) of
                        Inl TypeError \<Rightarrow> Inr (encodingObj', vgObj)
                      | Inl e \<Rightarrow> Inl e
                      | Inr vgObj' \<Rightarrow> Inr (encodingObj', vgObj'))
                else Inr (encodingObj', vgObj))))"

text \<open>The block \<open>if (encoding.sortBy || encoding.sortOrder) { ... }\<close>.\<close>

definition sortEncoding ::
  "JsRuntime \<Rightarrow> string \<Rightarrow> EncodingItem \<Rightarrow> FieldItem option
     \<Rightarrow> (string \<times> json) list \<Rightarrow> json \<Rightarrow> error + ((string \<times> json) list \<times> json)" where
  "sortEncoding rt channel encoding field encodingObj vgObj =
     (if truthyStr (sortBy encoding) \<or> truthyStr (sortOrder encoding)
      then (let sortOrder' = (if truthyStr (sortOrder encoding) then strOf (sortOrder encoding)
                              else ''ascending'')
            in if \<not> truthyStr (sortBy encoding) \<or> sortBy encoding = Some ''default''
               then Inr (objSet encodingObj ''sort'' (JStr sortOrder'), vgObj)
               else if sortBy encoding = Some ''x'' \<or> sortBy encoding = Some ''y''
               then Inr (objSet encodingObj ''sort''
                           (JStr ((if sortOrder' = ''ascending'' then [] else ''-'')
                                  @ strOf (sortBy encoding))), vgObj)
               else customSort rt channel encoding field sortOrder' encodingObj vgObj)
      else Inr (encodingObj, vgObj))"

text \<open>\<open>if (encoding.stack) encodingObj.stack = encoding.stack === 'layered' ? null : encoding.stack\<close>\<close>

definition stackEncoding :: "EncodingItem \<Rightarrow> (string \<times> json) list \<Rightarrow> (string \<times> json) list" where
  "stackEncoding encoding encodingObj =
     (if truthyStr (stack encoding)
      then objSet encodingObj ''stack''
             (if stack encoding = Some ''layered'' then JNull else JStr (strOf (stack encoding)))
      else encodingObj)"

text \<open>The block \<open>if (encoding.scheme) { ... }\<close>.\<close>

definition schemeEncoding :: "EncodingItem \<Rightarrow> (string \<times> json) list \<Rightarrow> (string \<times> json) list" where
  "schemeEncoding encoding encodingObj =
     (if truthyStr (scheme encoding)
      then (if map_of encodingObj ''scale'' \<noteq> None
            then objSet encodingObj ''scale''
                   (JObj (objSet (subObj encodingObj ''scale'') ''scheme'' (JStr (strOf (scheme encoding)))))
            else objSet encodingObj ''scale'' (JObj [(''scheme'', JStr (strOf (scheme encoding)))]))
      else encodingObj)"

text \<open>
  One path: walk to the parent, then overwrite a string placeholder with the field name,
  or merge the keys of \<open>encodingObj\<close> into what is there. The last key of an empty path
  is \<open>undefined\<close>, which names the property \<open>"undefined"\<close>.
\<close>

definition fillPath :: "(string \<times> json) list \<Rightarrow> pkey list \<Rightarrow> json \<Rightarrow> error + json" where
  "fillPath encodingObj path vgObj =
     (let lastKey = (if path = [] then KStr ''undefined'' else last path) in
      modifyAt (butlast path)
        (\<lambda>ref. bindE (getProp ref lastKey) (\<lambda>cur.
           if isString cur
           then setProp ref lastKey (objGet encodingObj ''field'')
           else (let prebuiltEntries = (if truthy cur then entriesOf cur else [])
                 in setProp ref lastKey (JObj (fromEntries (prebuiltEntries @ encodingObj))))))
        vgObj)"

fun fillPaths :: "(string \<times> json) list \<Rightarrow> pkey list list \<Rightarrow> json \<Rightarrow> error + json" where
  "fillPaths encodingObj [] vgObj = Inr vgObj"
| "fillPaths encodingObj (path # rest) vgObj =
     bindE (fillPath encodingObj path vgObj) (fillPaths encodingObj rest)"

text \<open>
  The names that every object inherits from \<open>Object.prototype\<close>. \<open>paths[name]\<close> for such
  a name that is not a key of \<open>paths\<close> is a function (for \<open>__proto__\<close>, the prototype
  itself), which is truthy.
\<close>

definition objectPrototypeNames :: "string list" where
  "objectPrototypeNames =
     [''constructor'', ''hasOwnProperty'', ''isPrototypeOf'', ''propertyIsEnumerable'',
      ''toLocaleString'', ''toString'', ''valueOf'', ''__defineGetter__'', ''__defineSetter__'',
      ''__lookupGetter__'', ''__lookupSetter__'', ''__proto__'']"

text \<open>
  \<open>if (Object.keys(encodingObj).length !== 0 && chartTemplate.paths[channel]) { ... }\<close>.
  For an inherited name the block is entered with \<open>paths = [pathObj]\<close>, and
  \<open>path.slice\<close>, which such a value does not have, is called: a \<open>TypeError\<close>.
\<close>

definition applyEncoding ::
  "ChartTemplate \<Rightarrow> string \<Rightarrow> (string \<times> json) list \<Rightarrow> json \<Rightarrow> error + json" where
  "applyEncoding chartTemplate channel encodingObj vgObj =
     (if encodingObj \<noteq> []
      then (case map_of (paths chartTemplate) channel of
              None \<Rightarrow> (if channel \<in> set objectPrototypeNames then Inl TypeError else Inr vgObj)
            | Some pathObj \<Rightarrow> fillPaths encodingObj (pathsOf pathObj) vgObj)
      else Inr vgObj)"

text \<open>The configuration built for one channel, before it is written to the template.\<close>

definition baseEncoding ::
  "JsRuntime \<Rightarrow> string \<Rightarrow> FieldItem list \<Rightarrow> row list \<Rightarrow> bool \<Rightarrow> string \<Rightarrow> EncodingItem
     \<Rightarrow> (string \<times> json) list" where
  "baseEncoding rt chartType fieldItems workingTable aggrPreprocessed channel encoding =
     (let encodingObj0 = (if channel = ''radius''
                          then [(''scale'', JObj [(''type'', JStr ''sqrt''), (''zero'', JBool True)])]
                          else []);
          field = resolveField fieldItems encoding;
          encodingObj1 = (if field = None \<and> aggregate encoding = Some ''count'' \<and> aggrPreprocessed
                          then objSet (objSet (objSet encodingObj0 ''field'' (JStr ''_count''))
                                 ''title'' (JStr ''Count'')) ''type'' (JStr ''quantitative'')
                          else encodingObj0)
      in case field of
           None \<Rightarrow> encodingObj1
         | Some f \<Rightarrow> fieldEncoding rt chartType channel encoding f workingTable aggrPreprocessed
                       encodingObj1)"

text \<open>The sort, stack and scheme settings on top of it; the sort may add a draw order to the specification.\<close>

definition resolveEncoding ::
  "JsRuntime \<Rightarrow> string \<Rightarrow> FieldItem list \<Rightarrow> row list \<Rightarrow> bool \<Rightarrow> string \<Rightarrow> EncodingItem \<Rightarrow> json
     \<Rightarrow> error + ((string \<times> json) list \<times> json)" where
  "resolveEncoding rt chartType fieldItems workingTable aggrPreprocessed channel encoding vgObj =
     bindE (sortEncoding rt channel encoding (resolveField fieldItems encoding)
              (baseEncoding rt chartType fieldItems workingTable aggrPreprocessed channel encoding) vgObj)
       (\<lambda>res. Inr (schemeEncoding encoding (stackEncoding encoding (fst res)), snd res))"

text \<open>The body of the loop over \<open>Object.entries(encodingMap)\<close>.\<close>

definition processChannel ::
  "JsRuntime \<Rightarrow> string \<Rightarrow> ChartTemplate \<Rightarrow> FieldItem list \<Rightarrow> row list \<Rightarrow> bool
     \<Rightarrow> string \<Rightarrow> EncodingItem \<Rightarrow> json \<Rightarrow> error + json" where
  "processChannel rt chartType chartTemplate fieldItems workingTable aggrPreprocessed channel encoding vgObj =
     bindE (resolveEncoding rt chartType fieldItems workingTable aggrPreprocessed channel encoding vgObj)
       (\<lambda>resolved. applyEncoding chartTemplate channel (fst resolved) (snd resolved))"

fun processChannels ::
  "JsRuntime \<Rightarrow> string \<Rightarrow> ChartTemplate \<Rightarrow> FieldItem list \<Rightarrow> row list \<Rightarrow> bool
     \<Rightarrow> EncodingMap \<Rightarrow> json \<Rightarrow> error + json" where
  "processChannels rt chartType chartTemplate fieldItems workingTable aggrPreprocessed [] vgObj = Inr vgObj"
| "processChannels rt chartType chartTemplate fieldItems workingTable aggrPreprocessed (entry # rest) vgObj =
     bindE (processChannel rt chartType chartTemplate fieldItems workingTable aggrPreprocessed
              (fst entry) (snd entry) vgObj)
       (processChannels rt chartType chartTemplate fieldItems workingTable aggrPreprocessed rest)"

text \<open>
  The faceting step:
  \<open>if (vgObj.encoding?.column && !vgObj.encoding?.row) { facet = column; facet.columns = 6; delete column }\<close>
\<close>

definition optionalProp :: "json \<Rightarrow> string \<Rightarrow> error + json" where
  "optionalProp v k = (if v = JUndef \<or> v = JNull then Inr JUndef else getProp v (KStr k))"

definition deleteProp :: "json \<Rightarrow> string \<Rightarrow> error + json" where
  "deleteProp v k =
     (case v of
        JObj kvs \<Rightarrow> Inr (JObj (objDelete kvs k))
      | JArr xs \<Rightarrow> Inl Unmodelled
      | JPrim p \<Rightarrow> (if p = PUndef \<or> p = PNull then Inl TypeError else Inr v))"

definition applyFaceting :: "json \<Rightarrow> error + json" where
  "applyFaceting vgObj =
     bindE (getProp vgObj (KStr ''encoding'')) (\<lambda>enc.
     bindE (optionalProp enc ''column'') (\<lambda>column.
     bindE (optionalProp enc ''row'') (\<lambda>row.
       if truthy column \<and> \<not> truthy row
       then bindE (setProp column (KStr ''columns'') (JNum 6)) (\<lambda>facet.
            bindE (setProp enc (KStr ''facet'') facet) (\<lambda>enc1.
            bindE (deleteProp enc1 ''column'') (\<lambda>enc2.
              setProp vgObj (KStr ''encoding'') enc2)))
       else Inr vgObj)))"

text \<open>
  The data rows: a copy of the working rows in which every column of a date field or of
  a field whose semantic type is Year holds \<open>String(value)\<close>.
\<close>

definition temporalKey :: "FieldItem list \<Rightarrow> string \<Rightarrow> bool" where
  "temporalKey fieldItems k =
     list_ex (\<lambda>concept. field_name concept = k
                \<and> (field_type concept = TDate \<or> semanticType concept = Some ''Year'')) fieldItems"

definition dataValues :: "JsRuntime \<Rightarrow> FieldItem list \<Rightarrow> row list \<Rightarrow> row list" where
  "dataValues rt fieldItems workingTable =
     map (\<lambda>r. map (\<lambda>kv. if temporalKey fieldItems (fst kv)
                         then (fst kv, PStr (primToString rt (snd kv))) else kv) r)
       workingTable"

text \<open>
  \<open>assembleVegaChart\<close>. The result is the thrown error, or the pair \<open>[chartType, vgObj]\<close>;
  the specification of the \<open>Table\<close> sentinel is \<open>undefined\<close>. \<open>structuredClone\<close> of the
  template is the template's tree itself, since a tree is a value. The warning about
  nominal axes with more than \<open>maxNominalValues\<close> values goes to the console and leaves
  the specification as it is; console output is not modelled.
\<close>

definition assembleVegaChart ::
  "JsRuntime \<Rightarrow> string \<Rightarrow> EncodingMap \<Rightarrow> FieldItem list \<Rightarrow> row list \<Rightarrow> nat \<Rightarrow> bool
     \<Rightarrow> error + (string \<times> json)" where
  "assembleVegaChart rt chartType encodingMap fieldItems workingTable maxNominalValues aggrPreprocessed =
     (if chartType = ''Table'' then Inr (''Table'', JUndef)
      else case getChartTemplate rt chartType of
             None \<Rightarrow> Inl (TemplateNotFound chartType)
           | Some chartTemplate \<Rightarrow>
               bindE (processChannels rt chartType chartTemplate fieldItems workingTable
                        aggrPreprocessed encodingMap (template chartTemplate)) (\<lambda>vg1.
               bindE (applyFaceting vg1) (\<lambda>vg2.
               bindE (case postProcessor chartTemplate of
                        None \<Rightarrow> Inr vg2
                      | Some post \<Rightarrow> post vg2 workingTable) (\<lambda>vg3.
               bindE (setProp vg3 (KStr ''data'')
                        (JObj [(''values'',
                                JArr (map rowObj (dataValues rt fieldItems workingTable)))])) (\<lambda>vg4.
                 Inr (chartType, vg4))))))"

section \<open>The thumbnail of a chart (ChartElementFC)\<close>

text \<open>
  \<open>ChartElementFC\<close> keeps in \<open>assembledChart\<close> what \<open>assembleVegaChart\<close> returned, which
  is the array \<open>[chartType, vgObj]\<close>. An array is an object: besides its elements it takes
  properties under names that are not indices. After the rest spread the variable holds a
  plain object.
\<close>

datatype chartValue = ChartArr "json list" "(string \<times> json) list" | ChartObj "(string \<times> json) list"

text \<open>
  \<open>assembledChart[name]\<close>, read, for a name that is not an index, not \<open>length\<close> and not a
  member of \<open>Array.prototype\<close> or \<open>Object.prototype\<close>; \<open>data\<close>, the name read below, is
  none of these.
\<close>

definition namedProp :: "chartValue \<Rightarrow> string \<Rightarrow> json" where
  "namedProp a name = (case a of ChartArr xs ps \<Rightarrow> objGet ps name | ChartObj kvs \<Rightarrow> objGet kvs name)"

text \<open>\<open>assembledChart[name] = v\<close> for such a name.\<close>

definition setNamedProp :: "chartValue \<Rightarrow> string \<Rightarrow> json \<Rightarrow> chartValue" where
  "setNamedProp a name v =
     (case a of ChartArr xs ps \<Rightarrow> ChartArr xs (objSet ps name v)
              | ChartObj kvs \<Rightarrow> ChartObj (objSet kvs name v))"

text \<open>
  \<open>(({ data, ...o }) => o)(assembledChart)\<close>: a new object holding the own enumerable
  properties other than \<open>data\<close>; those of an array are its indices and what was added.
\<close>

definition withoutData :: "chartValue \<Rightarrow> chartValue" where
  "withoutData a =
     (case a of ChartArr xs ps \<Rightarrow> ChartObj (objDelete (entriesOf (JArr xs) @ ps) ''data'')
              | ChartObj kvs \<Rightarrow> ChartObj (objDelete kvs ''data''))"

text \<open>The array whose \<open>length\<close> the guard reads and which the sampler copies.\<close>

definition arrayOf :: "json \<Rightarrow> error + json list" where
  "arrayOf v =
     (case v of
        JArr xs \<Rightarrow> Inr xs
      | JObj kvs \<Rightarrow> Inl Unmodelled
      | JPrim p \<Rightarrow> (if p = PUndef \<or> p = PNull then Inl TypeError else Inl Unmodelled))"

text \<open>
  What the component does with the value that \<open>assembleVegaChart\<close> returned:
  \<open>assembledChart["background"] = "transparent"\<close>, the guard
  \<open>if (assembledChart["data"]["values"].length > 5000)\<close> with the sampling in its body, and
  \<open>assembledChart['config'] = { axis: { labelLimit: 30 } }\<close>. The result is what is handed
  to the renderer.
\<close>

definition thumbnailChart :: "(int \<Rightarrow> real) \<Rightarrow> string \<times> json \<Rightarrow> error + chartValue" where
  "thumbnailChart msin assembled =
     (let chart0 = setNamedProp (ChartArr [JStr (fst assembled), snd assembled] [])
                     ''background'' (JStr ''transparent'')
      in bindE (getProp (namedProp chart0 ''data'') (KStr ''values'')) (\<lambda>dataValues.
         bindE (arrayOf dataValues) (\<lambda>vs.
           let chart1 = (if length vs > 5000
                         then setNamedProp (withoutData chart0) ''data''
                                (JObj [(''values'', JArr (getRandomSubarray msin vs 5000))])
                         else chart0)
           in Inr (setNamedProp chart1 ''config''
                     (JObj [(''axis'', JObj [(''labelLimit'', JNum 30)])])))))"

text \<open>
  \<open>ChartElementFC\<close>, up to the value it hands to the renderer. \<open>checkChartAvailability\<close>
  is imported from a file that is not part of the sources; its result is the parameter
  \<open>available\<close>. The chart type \<open>Auto\<close> shows an icon, a chart that is not available and
  the chart type \<open>Table\<close> show the skeleton of the template; every other chart is
  assembled with the default \<open>maxNominalValues\<close> and \<open>aggrPreprocessed\<close>.
\<close>

datatype thumbnail = Icon | Skeleton | Rendered chartValue

definition ChartElementFC ::
  "JsRuntime \<Rightarrow> (int \<Rightarrow> real) \<Rightarrow> bool \<Rightarrow> Chart \<Rightarrow> FieldItem list \<Rightarrow> row list
     \<Rightarrow> error + thumbnail" where
  "ChartElementFC rt msin available c fieldItems tableRows =
     (if chart_type c = ''Auto'' then Inr Icon
      else if \<not> available \<or> chart_type c = ''Table'' then Inr Skeleton
      else bindE (assembleVegaChart rt (chart_type c) (chart_encodingMap c) fieldItems
                    tableRows 68 False) (\<lambda>assembled.
           bindE (thumbnailChart msin assembled) (\<lambda>assembledChart.
             Inr (Rendered assembledChart))))"

section \<open>The assembler on a store of objects\<close>

text \<open>
  In JavaScript an object is reached through a reference, and an assignment through a
  reference changes the object for everyone who holds it. To say that assembly leaves
  the template registry, the field list and the rows alone, the assembler is modelled a
  second time, on a store: the objects that exist before the call (\<open>shared\<close>) and the
  objects the call creates (\<open>local\<close>, numbered from 0 in each call, since a fresh object
  is distinct from every other). A write goes to the object its reference points to,
  in whichever part that object lives.
\<close>

datatype ref = Shared nat | Local nat

datatype hval = HPrim prim | HRef ref

datatype hobj = HObj "(string \<times> hval) list" | HArr "hval list"

record store =
  shared :: "hobj list"
  local :: "hobj list"

type_synonym 'a prog = "store \<Rightarrow> (error + 'a) \<times> store"

definition returnH :: "'a \<Rightarrow> 'a prog" where
  "returnH x = (\<lambda>s. (Inr x, s))"

definition throwH :: "error \<Rightarrow> 'a prog" where
  "throwH e = (\<lambda>s. (Inl e, s))"

definition bindH :: "'a prog \<Rightarrow> ('a \<Rightarrow> 'b prog) \<Rightarrow> 'b prog" where
  "bindH m f = (\<lambda>s. case m s of (Inl e, s') \<Rightarrow> (Inl e, s') | (Inr x, s') \<Rightarrow> f x s')"

text \<open>\<open>try { m } catch { }\<close>: what \<open>m\<close> did before it threw stays done.\<close>

definition catchH :: "unit prog \<Rightarrow> unit prog" where
  "catchH m = (\<lambda>s. case m s of (Inl TypeError, s') \<Rightarrow> (Inr (), s') | other \<Rightarrow> other)"

definition objAt :: "store \<Rightarrow> ref \<Rightarrow> hobj option" where
  "objAt s r =
     (case r of
        Shared n \<Rightarrow> (if n < length (shared s) then Some (shared s ! n) else None)
      | Local n \<Rightarrow> (if n < length (local s) then Some (local s ! n) else None))"

definition putObj :: "ref \<Rightarrow> hobj \<Rightarrow> store \<Rightarrow> store" where
  "putObj r obj s =
     (case r of
        Shared n \<Rightarrow> s \<lparr> shared := (shared s)[n := obj] \<rparr>
      | Local n \<Rightarrow> s \<lparr> local := (local s)[n := obj] \<rparr>)"

text \<open>An object or array literal, \<open>Object.fromEntries\<close>, a spread: a new object.\<close>

definition allocH :: "hobj \<Rightarrow> hval prog" where
  "allocH obj = (\<lambda>s. (Inr (HRef (Local (length (local s)))), s \<lparr> local := local s @ [obj] \<rparr>))"

definition hGet :: "(string \<times> hval) list \<Rightarrow> string \<Rightarrow> hval" where
  "hGet kvs k = (case map_of kvs k of Some v \<Rightarrow> v | None \<Rightarrow> HPrim PUndef)"

text \<open>\<open>ref[key]\<close>, read. A reference to no object is outside the model.\<close>

definition getPropH :: "hval \<Rightarrow> pkey \<Rightarrow> hval prog" where
  "getPropH v k =
     (case v of
        HPrim p \<Rightarrow>
          (case p of
             PUndef \<Rightarrow> throwH TypeError
           | PNull \<Rightarrow> throwH TypeError
           | PStr s \<Rightarrow> throwH Unmodelled
           | _ \<Rightarrow> returnH (HPrim PUndef))
      | HRef r \<Rightarrow>
          (\<lambda>s. case objAt s r of
                  None \<Rightarrow> (Inl Unmodelled, s)
                | Some (HObj kvs) \<Rightarrow> (Inr (hGet kvs (keyName k)), s)
                | Some (HArr xs) \<Rightarrow>
                    (case k of
                       KIdx n \<Rightarrow> (Inr (if n < length xs then xs ! n else HPrim PUndef), s)
                     | KStr name \<Rightarrow> (Inl Unmodelled, s))))"

text \<open>\<open>ref[key] = x\<close>: the object that \<open>ref\<close> points to is changed in place.\<close>

definition setPropH :: "hval \<Rightarrow> pkey \<Rightarrow> hval \<Rightarrow> unit prog" where
  "setPropH v k x =
     (case v of
        HPrim p \<Rightarrow> throwH TypeError
      | HRef r \<Rightarrow>
          (\<lambda>s. case objAt s r of
                  None \<Rightarrow> (Inl Unmodelled, s)
                | Some (HObj kvs) \<Rightarrow>
                    (case k of
                       KStr name \<Rightarrow> (Inr (), putObj r (HObj (objSet kvs name x)) s)
                     | KIdx n \<Rightarrow> (Inl Unmodelled, s))
                | Some (HArr xs) \<Rightarrow>
                    (case k of
                       KIdx n \<Rightarrow> (if n < length xs then (Inr (), putObj r (HArr (xs[n := x])) s)
                                  else (Inl Unmodelled, s))
                     | KStr name \<Rightarrow> (Inl Unmodelled, s))))"

text \<open>\<open>delete ref[name]\<close>\<close>

definition deletePropH :: "hval \<Rightarrow> string \<Rightarrow> unit prog" where
  "deletePropH v name =
     (case v of
        HPrim p \<Rightarrow> (if p = PUndef \<or> p = PNull then throwH TypeError else returnH ())
      | HRef r \<Rightarrow>
          (\<lambda>s. case objAt s r of
                  Some (HObj kvs) \<Rightarrow> (Inr (), putObj r (HObj (objDelete kvs name)) s)
                | _ \<Rightarrow> (Inl Unmodelled, s)))"

text \<open>\<open>ref = v; for (key of path) ref = ref[key]\<close>\<close>

fun walkH :: "hval \<Rightarrow> pkey list \<Rightarrow> hval prog" where
  "walkH v [] = returnH v"
| "walkH v (k # ks) = bindH (getPropH v k) (\<lambda>child. walkH child ks)"

fun truthyH :: "hval \<Rightarrow> bool" where
  "truthyH (HPrim p) = truthy (JPrim p)"
| "truthyH (HRef r) = True"

fun isStringH :: "hval \<Rightarrow> bool" where
  "isStringH (HPrim (PStr s)) = True"
| "isStringH v = False"

text \<open>\<open>Object.entries(v)\<close> of a value that is not a string.\<close>

definition entriesOfH :: "hval \<Rightarrow> (string \<times> hval) list prog" where
  "entriesOfH v =
     (case v of
        HPrim p \<Rightarrow> returnH []
      | HRef r \<Rightarrow>
          (\<lambda>s. case objAt s r of
                  None \<Rightarrow> (Inl Unmodelled, s)
                | Some (HObj kvs) \<Rightarrow> (Inr kvs, s)
                | Some (HArr xs) \<Rightarrow> (Inr (zip (map natToString [0..<length xs]) xs), s)))"

text \<open>Running programs over a list, in order.\<close>

fun mapH :: "('a \<Rightarrow> 'b prog) \<Rightarrow> 'a list \<Rightarrow> 'b list prog" where
  "mapH f [] = returnH []"
| "mapH f (x # xs) = bindH (f x) (\<lambda>y. bindH (mapH f xs) (\<lambda>ys. returnH (y # ys)))"

fun forEachH :: "('a \<Rightarrow> unit prog) \<Rightarrow> 'a list \<Rightarrow> unit prog" where
  "forEachH f [] = returnH ()"
| "forEachH f (x # xs) = bindH (f x) (\<lambda>u. forEachH f xs)"

text \<open>
  \<open>structuredClone(v)\<close>: a copy, made of new objects, of everything that can be reached
  from \<open>v\<close>. The first argument bounds the depth; a store of \<open>n\<close> objects in which no
  object contains itself has no chain of references longer than \<open>n\<close>. Inputs in which an
  object contains itself, or is held twice, are outside the model.
\<close>

fun cloneH :: "nat \<Rightarrow> hval \<Rightarrow> hval prog" where
  "cloneH fuel (HPrim p) = returnH (HPrim p)"
| "cloneH 0 (HRef r) = throwH Unmodelled"
| "cloneH (Suc fuel) (HRef r) =
     (\<lambda>s. case objAt s r of
             None \<Rightarrow> (Inl Unmodelled, s)
           | Some (HObj kvs) \<Rightarrow>
               bindH (mapH (cloneH fuel) (map snd kvs))
                 (\<lambda>vs. allocH (HObj (zip (map fst kvs) vs))) s
           | Some (HArr xs) \<Rightarrow>
               bindH (mapH (cloneH fuel) xs) (\<lambda>vs. allocH (HArr vs)) s)"

definition structuredCloneH :: "hval \<Rightarrow> hval prog" where
  "structuredCloneH v = (\<lambda>s. cloneH (Suc (length (shared s) + length (local s))) v s)"

text \<open>A tree written out as new objects: a literal, or what \<open>JSON.parse\<close> returns.\<close>

fun storeJsonH :: "json \<Rightarrow> hval prog" where
  "storeJsonH (JPrim p) = returnH (HPrim p)"
| "storeJsonH (JArr xs) = bindH (mapH (\<lambda>m. m) (map storeJsonH xs)) (\<lambda>vs. allocH (HArr vs))"
| "storeJsonH (JObj kvs) =
     bindH (mapH (\<lambda>m. m) (map (\<lambda>kv. storeJsonH (snd kv)) kvs))
       (\<lambda>vs. allocH (HObj (zip (map fst kvs) vs)))"

text \<open>The tree under a value, for what reads a whole structure (\<open>JSON.stringify\<close>, the caller).\<close>

fun readJson :: "nat \<Rightarrow> store \<Rightarrow> hval \<Rightarrow> json option" where
  "readJson fuel s (HPrim p) = Some (JPrim p)"
| "readJson 0 s (HRef r) = None"
| "readJson (Suc fuel) s (HRef r) =
     (case objAt s r of
        None \<Rightarrow> None
      | Some (HObj kvs) \<Rightarrow>
          (let ts = map (\<lambda>kv. readJson fuel s (snd kv)) kvs
           in if list_all (\<lambda>t. t \<noteq> None) ts
              then Some (JObj (zip (map fst kvs) (map the ts))) else None)
      | Some (HArr xs) \<Rightarrow>
          (let ts = map (readJson fuel s) xs
           in if list_all (\<lambda>t. t \<noteq> None) ts then Some (JArr (map the ts)) else None))"

definition readJsonH :: "hval \<Rightarrow> json prog" where
  "readJsonH v =
     (\<lambda>s. case readJson (Suc (length (shared s) + length (local s))) s v of
             None \<Rightarrow> (Inl Unmodelled, s)
           | Some t \<Rightarrow> (Inr t, s))"

subsection \<open>Reading the inputs\<close>

text \<open>
  The field list is an array of field objects, a field's domain an array of primitive
  values, the working table an array of row objects whose cells are primitive values.
  \<open>find\<close>, \<open>some\<close>, \<open>map\<close>, \<open>filter\<close>, \<open>includes\<close>, \<open>length\<close>, the spread into a new
  array and the reads of a property only read; what they hand on is a value of the types
  of the data model. Inputs of another shape are outside the model.
\<close>

definition primsOf :: "hval list \<Rightarrow> prim list option" where
  "primsOf vs =
     (if list_all (\<lambda>v. case v of HPrim p \<Rightarrow> True | HRef r \<Rightarrow> False) vs
      then Some (map (\<lambda>v. case v of HPrim p \<Rightarrow> p | HRef r \<Rightarrow> PUndef) vs) else None)"

definition readPrimArray :: "store \<Rightarrow> hval \<Rightarrow> prim list option" where
  "readPrimArray s v =
     (case v of
        HRef r \<Rightarrow> (case objAt s r of Some (HArr xs) \<Rightarrow> primsOf xs | _ \<Rightarrow> None)
      | HPrim p \<Rightarrow> None)"

definition readRow :: "store \<Rightarrow> hval \<Rightarrow> row option" where
  "readRow s v =
     (case v of
        HRef r \<Rightarrow>
          (case objAt s r of
             Some (HObj kvs) \<Rightarrow>
               (case primsOf (map snd kvs) of
                  Some ps \<Rightarrow> Some (zip (map fst kvs) ps)
                | None \<Rightarrow> None)
           | _ \<Rightarrow> None)
      | HPrim p \<Rightarrow> None)"

definition dataTypeOf :: "hval \<Rightarrow> DataType option" where
  "dataTypeOf v =
     (if v = HPrim (PStr ''string'') then Some TString
      else if v = HPrim (PStr ''number'') then Some TNumber
      else if v = HPrim (PStr ''date'') then Some TDate
      else if v = HPrim (PStr ''boolean'') then Some TBoolean
      else if v = HPrim (PStr ''auto'') then Some TAuto
      else None)"

definition stringOf :: "hval \<Rightarrow> string option" where
  "stringOf v = (case v of HPrim (PStr s) \<Rightarrow> Some s | _ \<Rightarrow> None)"

definition readField :: "store \<Rightarrow> hval \<Rightarrow> FieldItem option" where
  "readField s v =
     (case v of
        HRef r \<Rightarrow>
          (case objAt s r of
             Some (HObj kvs) \<Rightarrow>
               (case (stringOf (hGet kvs ''id''), stringOf (hGet kvs ''name''),
                      dataTypeOf (hGet kvs ''type''), readPrimArray s (hGet kvs ''domain'')) of
                  (Some i, Some n, Some t, Some d) \<Rightarrow>
                    Some \<lparr> field_id = i, field_name = n, field_type = t,
                           field_source = strOf (stringOf (hGet kvs ''source'')),
                           field_domain = d,
                           field_tableRef = strOf (stringOf (hGet kvs ''tableRef'')),
                           semanticType = stringOf (hGet kvs ''semanticType'') \<rparr>
                | _ \<Rightarrow> None)
           | _ \<Rightarrow> None)
      | HPrim p \<Rightarrow> None)"

definition allSome :: "'a option list \<Rightarrow> 'a list option" where
  "allSome xs = (if list_all (\<lambda>x. x \<noteq> None) xs then Some (map the xs) else None)"

definition elementsOf :: "store \<Rightarrow> hval \<Rightarrow> hval list option" where
  "elementsOf s v =
     (case v of
        HRef r \<Rightarrow> (case objAt s r of Some (HArr xs) \<Rightarrow> Some xs | _ \<Rightarrow> None)
      | HPrim p \<Rightarrow> None)"

definition readFieldsH :: "hval \<Rightarrow> FieldItem list prog" where
  "readFieldsH v =
     (\<lambda>s. case elementsOf s v of
             None \<Rightarrow> (Inl Unmodelled, s)
           | Some xs \<Rightarrow>
               (case allSome (map (readField s) xs) of
                  None \<Rightarrow> (Inl Unmodelled, s)
                | Some fs \<Rightarrow> (Inr fs, s)))"

definition readRowsH :: "hval \<Rightarrow> row list prog" where
  "readRowsH v =
     (\<lambda>s. case elementsOf s v of
             None \<Rightarrow> (Inl Unmodelled, s)
           | Some xs \<Rightarrow>
               (case allSome (map (readRow s) xs) of
                  None \<Rightarrow> (Inl Unmodelled, s)
                | Some rs \<Rightarrow> (Inr rs, s)))"

definition elementsH :: "hval \<Rightarrow> hval list prog" where
  "elementsH v = (\<lambda>s. case elementsOf s v of None \<Rightarrow> (Inl Unmodelled, s) | Some xs \<Rightarrow> (Inr xs, s))"

subsection \<open>The loop over the channels\<close>

text \<open>
  The configuration of a channel is built from values only (strings, and arrays made by
  a spread or by \<open>JSON.parse\<close>), so it is the tree of \<open>baseEncoding\<close>, \<open>stackEncoding\<close>
  and \<open>schemeEncoding\<close> above. Its nested objects become objects of the store once,
  before the paths are filled, and every path that is filled holds the same ones.
\<close>

definition storeEntriesH :: "(string \<times> json) list \<Rightarrow> (string \<times> hval) list prog" where
  "storeEntriesH encodingObj =
     mapH (\<lambda>kv. bindH (storeJsonH (snd kv)) (\<lambda>v. returnH (fst kv, v))) encodingObj"

definition fillPathH :: "(string \<times> hval) list \<Rightarrow> pkey list \<Rightarrow> hval \<Rightarrow> unit prog" where
  "fillPathH entries path vgObj =
     (let lastKey = (if path = [] then KStr ''undefined'' else last path) in
      bindH (walkH vgObj (butlast path)) (\<lambda>ref.
      bindH (getPropH ref lastKey) (\<lambda>cur.
        if isStringH cur
        then setPropH ref lastKey (hGet entries ''field'')
        else bindH (if truthyH cur then entriesOfH cur else returnH []) (\<lambda>prebuiltEntries.
             bindH (allocH (HObj (fromEntries (prebuiltEntries @ entries)))) (\<lambda>obj.
               setPropH ref lastKey obj)))))"

definition applyEncodingH ::
  "(string \<times> pathSpec) list \<Rightarrow> string \<Rightarrow> (string \<times> json) list \<Rightarrow> hval \<Rightarrow> unit prog" where
  "applyEncodingH templatePaths channel encodingObj vgObj =
     (if encodingObj \<noteq> []
      then (case map_of templatePaths channel of
              None \<Rightarrow> (if channel \<in> set objectPrototypeNames then throwH TypeError
                       else returnH ())
            | Some pathObj \<Rightarrow>
                bindH (storeEntriesH encodingObj) (\<lambda>entries.
                  forEachH (\<lambda>path. fillPathH entries path vgObj) (pathsOf pathObj)))
      else returnH ())"

definition setOrderH :: "string \<Rightarrow> hval \<Rightarrow> unit prog" where
  "setOrderH fieldName vgObj =
     bindH (getPropH vgObj (KStr ''encoding'')) (\<lambda>enc.
     bindH (if truthyH enc then returnH enc else allocH (HObj [])) (\<lambda>enc'.
     bindH (setPropH vgObj (KStr ''encoding'') enc') (\<lambda>u.
     bindH (allocH (HObj [(''field'', HPrim (PStr (''color_'' @ fieldName @ ''_sort_index'')))])) (\<lambda>ord.
       setPropH enc' (KStr ''order'') ord))))"

definition customSortH ::
  "JsRuntime \<Rightarrow> string \<Rightarrow> EncodingItem \<Rightarrow> FieldItem option \<Rightarrow> string
     \<Rightarrow> (string \<times> json) list \<Rightarrow> hval \<Rightarrow> (string \<times> json) list prog" where
  "customSortH rt channel encoding field sortOrder' encodingObj vgObj =
     (case jsonParse rt (strOf (sortBy encoding)) of
        None \<Rightarrow> returnH encodingObj
      | Some parsed \<Rightarrow>
          (case sortedValuesOf parsed sortOrder' of
             Inl TypeError \<Rightarrow> returnH encodingObj
           | Inl e \<Rightarrow> throwH e
           | Inr sortValue \<Rightarrow>
               (let encodingObj' = objSet encodingObj ''sort'' sortValue in
                if channel = ''color''
                then bindH (catchH (bindH (getPropH vgObj (KStr ''mark''))
                              (\<lambda>m. if m = HPrim (PStr ''bar'') \<or> m = HPrim (PStr ''area'')
                                   then setOrderH (case field of None \<Rightarrow> ''undefined''
                                                   | Some f \<Rightarrow> field_name f) vgObj
                                   else returnH ())))
                       (\<lambda>u. returnH encodingObj')
                else returnH encodingObj')))"

definition sortEncodingH ::
  "JsRuntime \<Rightarrow> string \<Rightarrow> EncodingItem \<Rightarrow> FieldItem option
     \<Rightarrow> (string \<times> json) list \<Rightarrow> hval \<Rightarrow> (string \<times> json) list prog" where
  "sortEncodingH rt channel encoding field encodingObj vgObj =
     (if truthyStr (sortBy encoding) \<or> truthyStr (sortOrder encoding)
      then (let sortOrder' = (if truthyStr (sortOrder encoding) then strOf (sortOrder encoding)
                              else ''ascending'')
            in if \<not> truthyStr (sortBy encoding) \<or> sortBy encoding = Some ''default''
               then returnH (objSet encodingObj ''sort'' (JStr sortOrder'))
               else if sortBy encoding = Some ''x'' \<or> sortBy encoding = Some ''y''
               then returnH (objSet encodingObj ''sort''
                               (JStr ((if sortOrder' = ''ascending'' then [] else ''-'')
                                      @ strOf (sortBy encoding))))
               else customSortH rt channel encoding field sortOrder' encodingObj vgObj)
      else returnH encodingObj)"

definition processChannelH ::
  "JsRuntime \<Rightarrow> string \<Rightarrow> (string \<times> pathSpec) list \<Rightarrow> hval \<Rightarrow> hval \<Rightarrow> bool
     \<Rightarrow> string \<Rightarrow> EncodingItem \<Rightarrow> hval \<Rightarrow> unit prog" where
  "processChannelH rt chartType templatePaths fieldsRef tableRef aggrPreprocessed channel encoding vgObj =
     bindH (readFieldsH fieldsRef) (\<lambda>fieldItems.
     bindH (readRowsH tableRef) (\<lambda>workingTable.
     bindH (sortEncodingH rt channel encoding (resolveField fieldItems encoding)
              (baseEncoding rt chartType fieldItems workingTable aggrPreprocessed channel encoding)
              vgObj) (\<lambda>encodingObj.
       applyEncodingH templatePaths channel
         (schemeEncoding encoding (stackEncoding encoding encodingObj)) vgObj)))"

subsection \<open>Faceting, post-processing and data\<close>

definition optionalPropH :: "hval \<Rightarrow> string \<Rightarrow> hval prog" where
  "optionalPropH v k =
     (if v = HPrim PUndef \<or> v = HPrim PNull then returnH (HPrim PUndef) else getPropH v (KStr k))"

definition applyFacetingH :: "hval \<Rightarrow> unit prog" where
  "applyFacetingH vgObj =
     bindH (getPropH vgObj (KStr ''encoding'')) (\<lambda>enc.
     bindH (optionalPropH enc ''column'') (\<lambda>column.
     bindH (optionalPropH enc ''row'') (\<lambda>row.
       if truthyH column \<and> \<not> truthyH row
       then bindH (setPropH enc (KStr ''facet'') column) (\<lambda>u.
            bindH (setPropH column (KStr ''columns'') (HPrim (PNum 6))) (\<lambda>u.
              deletePropH enc ''column''))
       else returnH ())))"

text \<open>\<open>JSON.parse(JSON.stringify(v))\<close>\<close>

definition jsonRoundTripH :: "hval \<Rightarrow> hval prog" where
  "jsonRoundTripH v = bindH (readJsonH v) (\<lambda>t. storeJsonH (jsonClone t))"

definition typeOfEncodingH :: "hval \<Rightarrow> hval prog" where
  "typeOfEncodingH v =
     (if v = HPrim PUndef \<or> v = HPrim PNull then returnH (HPrim PUndef)
      else getPropH v (KStr ''type''))"

definition rangedDotPlotPostH :: "hval \<Rightarrow> hval \<Rightarrow> unit prog" where
  "rangedDotPlotPostH vgSpec tableRef =
     bindH (walkH vgSpec [KStr ''encoding'', KStr ''y'']) (\<lambda>y.
     bindH (typeOfEncodingH y) (\<lambda>yType.
       if yType = HPrim (PStr ''nominal'')
       then bindH (walkH vgSpec [KStr ''layer'', KIdx 0, KStr ''encoding'']) (\<lambda>ref.
            bindH (jsonRoundTripH y) (\<lambda>detail. setPropH ref (KStr ''detail'') detail))
       else
         bindH (walkH vgSpec [KStr ''encoding'', KStr ''x'']) (\<lambda>x.
         bindH (typeOfEncodingH x) (\<lambda>xType.
           if xType = HPrim (PStr ''nominal'')
           then bindH (walkH vgSpec [KStr ''layer'', KIdx 0, KStr ''encoding'']) (\<lambda>ref.
                bindH (jsonRoundTripH x) (\<lambda>detail. setPropH ref (KStr ''detail'') detail))
           else returnH ()))))"

definition forceNominalH :: "string \<Rightarrow> hval \<Rightarrow> unit prog" where
  "forceNominalH c vgSpec =
     bindH (walkH vgSpec [KStr ''encoding'', KStr c]) (\<lambda>enc.
       if truthyH enc
       then bindH (getPropH enc (KStr ''type'')) (\<lambda>t.
              if t \<noteq> HPrim (PStr ''nominal'')
              then bindH (walkH vgSpec [KStr ''encoding'', KStr c]) (\<lambda>ref.
                     setPropH ref (KStr ''type'') (HPrim (PStr ''nominal'')))
              else returnH ())
       else returnH ())"

definition boxplotPostH :: "hval \<Rightarrow> hval \<Rightarrow> unit prog" where
  "boxplotPostH vgSpec tableRef = forceNominalH ''x'' vgSpec"

definition heatMapPostH :: "hval \<Rightarrow> hval \<Rightarrow> unit prog" where
  "heatMapPostH vgSpec tableRef = bindH (forceNominalH ''y'' vgSpec) (\<lambda>u. forceNominalH ''x'' vgSpec)"

definition keyOfH :: "JsRuntime \<Rightarrow> hval \<Rightarrow> string prog" where
  "keyOfH rt v = (case v of HPrim p \<Rightarrow> returnH (primToString rt p) | HRef r \<Rightarrow> throwH Unmodelled)"

text \<open>\<open>base.key = value\<close> where \<open>base\<close> is reached from \<open>vgSpec\<close> by a path.\<close>

definition assignAtH :: "hval \<Rightarrow> pkey list \<Rightarrow> string \<Rightarrow> hval \<Rightarrow> unit prog" where
  "assignAtH vgSpec path key v = bindH (walkH vgSpec path) (\<lambda>base. setPropH base (KStr key) v)"

definition pyramidPostH :: "JsRuntime \<Rightarrow> hval \<Rightarrow> hval \<Rightarrow> unit prog" where
  "pyramidPostH rt vgSpec tableRef =
     catchH
       (bindH (walkH vgSpec [KStr ''hconcat'', KIdx 0, KStr ''encoding'', KStr ''color'', KStr ''field'']) (\<lambda>cf.
        bindH (keyOfH rt cf) (\<lambda>colorField.
        bindH (readRowsH tableRef) (\<lambda>tbl.
          let colorValues = uniq (map (\<lambda>r. cell r colorField) tbl);
              v0 = nthOrUndef colorValues 0;
              v1 = nthOrUndef colorValues 1
          in
          bindH (storeJsonH (datumFilter rt colorField v0)) (\<lambda>filter0.
          bindH (assignAtH vgSpec [KStr ''hconcat'', KIdx 0] ''transform'' filter0) (\<lambda>u.
          bindH (assignAtH vgSpec [KStr ''hconcat'', KIdx 0] ''title'' (HPrim v0)) (\<lambda>u.
          bindH (storeJsonH (datumFilter rt colorField v1)) (\<lambda>filter1.
          bindH (assignAtH vgSpec [KStr ''hconcat'', KIdx 1] ''transform'' filter1) (\<lambda>u.
          bindH (assignAtH vgSpec [KStr ''hconcat'', KIdx 1] ''title'' (HPrim v1)) (\<lambda>u.
          bindH (walkH vgSpec [KStr ''hconcat'', KIdx 0, KStr ''encoding'', KStr ''x'', KStr ''field'']) (\<lambda>xf.
          bindH (keyOfH rt xf) (\<lambda>xField.
          bindH (readRowsH tableRef) (\<lambda>tbl'.
            let xValues = uniq (map (\<lambda>r. cell r xField)
                             (filter (\<lambda>r. cell r colorField = v0 \<or> cell r colorField = v1) tbl'))
            in
            bindH (allocH (HArr [HPrim (mathMin rt (xValues @ [PNum 0])), HPrim (mathMax rt xValues)])) (\<lambda>dom.
            bindH (assignAtH vgSpec
                     [KStr ''hconcat'', KIdx 0, KStr ''encoding'', KStr ''x'', KStr ''scale'']
                     ''domain'' dom) (\<lambda>u.
            bindH (allocH (HObj [(''domain'', dom)])) (\<lambda>sc.
              assignAtH vgSpec [KStr ''hconcat'', KIdx 1, KStr ''encoding'', KStr ''x'']
                ''scale'' sc))))))))))))))))"

text \<open>\<open>Object.keys(r)\<close>\<close>

definition keysH :: "hval \<Rightarrow> string list prog" where
  "keysH r =
     (if r = HPrim PUndef \<or> r = HPrim PNull then throwH TypeError
      else bindH (entriesOfH r) (\<lambda>kvs. returnH (map fst kvs)))"

text \<open>
  \<open>values = structuredClone(workingTable)\<close>, then the loop that overwrites the temporal
  cells of each copied row, then the new array that \<open>map\<close> returns.
\<close>

definition dataValuesH :: "JsRuntime \<Rightarrow> hval \<Rightarrow> hval \<Rightarrow> hval prog" where
  "dataValuesH rt fieldsRef tableRef =
     bindH (structuredCloneH tableRef) (\<lambda>values.
     bindH (elementsH values) (\<lambda>rowRefs.
     bindH (forEachH
              (\<lambda>r. bindH (keysH r) (\<lambda>keys.
                    bindH (readFieldsH fieldsRef) (\<lambda>fieldItems.
                      forEachH
                        (\<lambda>temporalKey'. bindH (getPropH r (KStr temporalKey')) (\<lambda>v.
                           case v of
                             HPrim p \<Rightarrow> setPropH r (KStr temporalKey') (HPrim (PStr (primToString rt p)))
                           | HRef a \<Rightarrow> throwH Unmodelled))
                        (filter (temporalKey fieldItems) keys))))
              rowRefs) (\<lambda>u.
       allocH (HArr rowRefs))))"

subsection \<open>The registry and the call\<close>

record ChartTemplateH =
  chartH :: string
  templateH :: hval
  channelsH :: "string list"
  pathsH :: "(string \<times> pathSpec) list"
  postProcessorH :: "(hval \<Rightarrow> hval \<Rightarrow> unit prog) option"

text \<open>
  The registry on the store: the entries of \<open>CHART_TEMPLATES\<close> in their order, the
  skeleton of each being an object of the store (\<open>roots\<close> gives them in the same order),
  with the four post-processors of the source.
\<close>

definition postProcessorOf :: "JsRuntime \<Rightarrow> string \<Rightarrow> (hval \<Rightarrow> hval \<Rightarrow> unit prog) option" where
  "postProcessorOf rt name =
     (if name = ''Ranged Dot Plot'' then Some rangedDotPlotPostH
      else if name = ''Boxplot'' then Some boxplotPostH
      else if name = ''Pyramid Chart'' then Some (pyramidPostH rt)
      else if name = ''Heat Map'' then Some heatMapPostH
      else None)"

definition registryH :: "JsRuntime \<Rightarrow> hval list \<Rightarrow> ChartTemplateH list" where
  "registryH rt roots =
     map (\<lambda>tr. \<lparr> chartH = chart (fst tr), templateH = snd tr, channelsH = channels (fst tr),
                 pathsH = paths (fst tr), postProcessorH = postProcessorOf rt (chart (fst tr)) \<rparr>)
       (zip (concat (map snd (CHART_TEMPLATES rt))) roots)"

definition getChartTemplateH :: "JsRuntime \<Rightarrow> hval list \<Rightarrow> string \<Rightarrow> ChartTemplateH option" where
  "getChartTemplateH rt roots chartType = find (\<lambda>t. chartH t = chartType) (registryH rt roots)"

definition assembleVegaChartH ::
  "JsRuntime \<Rightarrow> hval list \<Rightarrow> string \<Rightarrow> EncodingMap \<Rightarrow> hval \<Rightarrow> hval \<Rightarrow> nat \<Rightarrow> bool
     \<Rightarrow> (string \<times> hval) prog" where
  "assembleVegaChartH rt roots chartType encodingMap fieldsRef tableRef maxNominalValues aggrPreprocessed =
     (if chartType = ''Table'' then returnH (''Table'', HPrim PUndef)
      else case getChartTemplateH rt roots chartType of
             None \<Rightarrow> throwH (TemplateNotFound chartType)
           | Some chartTemplate \<Rightarrow>
               bindH (structuredCloneH (templateH chartTemplate)) (\<lambda>vgObj.
               bindH (forEachH
                        (\<lambda>entry. processChannelH rt chartType (pathsH chartTemplate) fieldsRef tableRef
                                   aggrPreprocessed (fst entry) (snd entry) vgObj)
                        encodingMap) (\<lambda>u.
               bindH (applyFacetingH vgObj) (\<lambda>u.
               bindH (case postProcessorH chartTemplate of
                        None \<Rightarrow> returnH ()
                      | Some post \<Rightarrow> post vgObj tableRef) (\<lambda>u.
               bindH (dataValuesH rt fieldsRef tableRef) (\<lambda>values.
               bindH (allocH (HObj [(''values'', values)])) (\<lambda>dataObj.
               bindH (setPropH vgObj (KStr ''data'') dataObj) (\<lambda>u.
                 returnH (chartType, vgObj)))))))))"

text \<open>
  The world between calls: the objects that exist, the skeletons of the registry, the
  field list and the working table. A call runs on these objects with no object of its
  own yet; what the caller sees of it is the structure of the returned specification
  and the objects of the world afterwards.
\<close>

record world =
  objects :: "hobj list"
  templateRoots :: "hval list"
  fieldList :: hval
  workingRows :: hval

definition assembleCall ::
  "JsRuntime \<Rightarrow> string \<Rightarrow> EncodingMap \<Rightarrow> nat \<Rightarrow> bool \<Rightarrow> world
     \<Rightarrow> (error + (string \<times> json)) \<times> world" where
  "assembleCall rt chartType encodingMap maxNominalValues aggrPreprocessed w =
     (case bindH (assembleVegaChartH rt (templateRoots w) chartType encodingMap (fieldList w)
                    (workingRows w) maxNominalValues aggrPreprocessed)
             (\<lambda>res. bindH (readJsonH (snd res)) (\<lambda>t. returnH (fst res, t)))
             \<lparr> shared = objects w, local = [] \<rparr> of
        (r, s') \<Rightarrow> (r, w \<lparr> objects := shared s' \<rparr>))"

section \<open>A reference instance of the built-ins, and example inputs\<close>

text \<open>
  The examples below are evaluated with this instance. It agrees with the JavaScript engine
  on the values the examples use: \<open>Number\<close> of \<open>null\<close>, of a boolean and of the empty
  string is finite, \<open>Number\<close> of \<open>undefined\<close> and of a string of letters is \<open>NaN\<close>;
  \<open>Date.parse\<close> and \<open>JSON.parse\<close> reject a string of capital letters; \<open>Math.min\<close> and
  \<open>Math.max\<close> of a non-empty list of numbers are its least and greatest element. The
  examples hold no number that is not an integer and no list of mixed cells, where this
  instance is left arbitrary.
\<close>

definition intToString :: "int \<Rightarrow> string" where
  "intToString i = (if i < 0 then CHR ''-'' # digitsOf (Suc (nat (- i))) (nat (- i))
                    else digitsOf (Suc (nat i)) (nat i))"

fun primNums :: "prim list \<Rightarrow> rat list" where
  "primNums [] = []"
| "primNums (PNum n # vs) = n # primNums vs"
| "primNums (_ # vs) = primNums vs"

definition refRuntime :: JsRuntime where
  "refRuntime = \<lparr>
     numberIsFinite = (\<lambda>v. case v of PUndef \<Rightarrow> False | PStr s \<Rightarrow> s = [] | _ \<Rightarrow> True),
     dateParses = (\<lambda>v. False),
     numToString = (\<lambda>n. intToString \<lfloor>n\<rfloor>),
     jsonParse = (\<lambda>s. None),
     mathMin = (\<lambda>vs. case primNums vs of [] \<Rightarrow> PUndef | n # ns \<Rightarrow> PNum (fold min ns n)),
     mathMax = (\<lambda>vs. case primNums vs of [] \<Rightarrow> PUndef | n # ns \<Rightarrow> PNum (fold max ns n)) \<rparr>"

definition exChart :: "string \<Rightarrow> string \<Rightarrow> Chart" where
  "exChart cid tref = \<lparr> chart_id = cid, chart_type = ''Bar Chart'', chart_encodingMap = [],
     chart_tableRef = tref, saved = False, chart_source = ''user'' \<rparr>"

definition exRoot :: DictTable where
  "exRoot = \<lparr> table_id = ''root'', displayId = ''root'', names = [], types = [], rows = [],
     derive = None, anchored = True \<rparr>"

definition exDerived :: "string \<Rightarrow> string \<Rightarrow> DictTable" where
  "exDerived tid src = \<lparr> table_id = tid, displayId = tid, names = [], types = [], rows = [],
     derive = Some \<lparr> derive_source = [src], derive_code = [], codeExpl = [],
       derive_trigger = \<lparr> trigger_tableId = src, sourceTableIds = [src], trigger_chart = None,
         instruction = ''derive'', resultTableId = tid \<rparr> \<rparr>,
     anchored = False \<rparr>"

definition exField :: "string \<Rightarrow> string \<Rightarrow> FieldItem" where
  "exField fid tref = \<lparr> field_id = fid, field_name = fid, field_type = TString,
     field_source = ''original'', field_domain = [], field_tableRef = tref, semanticType = None \<rparr>"

text \<open>
  A root table, a table \<open>t1\<close> derived from it and a table \<open>t2\<close> derived from \<open>t1\<close>. In
  \<open>exStateTwoCharts\<close> each derived table has a chart of its own; in \<open>exStateOneChart\<close>
  only \<open>t1\<close> has one.
\<close>

definition exStateTwoCharts :: DataFormulatorState where
  "exStateTwoCharts = \<lparr> tables = [exRoot, exDerived ''t1'' ''root'', exDerived ''t2'' ''t1''],
     charts = [exChart ''c1'' ''t1'', exChart ''c2'' ''t2''],
     conceptShelfItems = [exField ''f0'' ''root'', exField ''f1'' ''t1'', exField ''f2'' ''t2''],
     focusedTableId = Some ''t1'', focusedChartId = Some ''c1'',
     chartSynthesisInProgress = [] \<rparr>"

definition exStateOneChart :: DataFormulatorState where
  "exStateOneChart = exStateTwoCharts \<lparr> charts := [exChart ''c1'' ''t1''] \<rparr>"

text \<open>
  Two tables under the id \<open>t1\<close>, as two dispatches of \<open>loadTable\<close> and
  \<open>insertDerivedTables\<close> leave them: an anchored one and a derived one, and one chart on \<open>t1\<close>.
\<close>

definition exStateSharedId :: DataFormulatorState where
  "exStateSharedId = \<lparr> tables = [exRoot \<lparr> table_id := ''t1'' \<rparr>, exDerived ''t1'' ''root''],
     charts = [exChart ''c1'' ''t1''],
     conceptShelfItems = [],
     focusedTableId = Some ''t1'', focusedChartId = Some ''c1'',
     chartSynthesisInProgress = [] \<rparr>"


text \<open>
  An encoding as a fresh chart holds it (\<open>{ bin: false }\<close>), a field \<open>Region\<close> whose
  domain is A, B, C, D, a field \<open>Kind\<close>, and two working rows that show the regions
  C and A only.
\<close>

definition exEncoding :: EncodingItem where
  "exEncoding = \<lparr> fieldID = None, aggregate = None, stack = None, sortOrder = None,
     sortBy = None, scheme = None, bin = Some False \<rparr>"

definition exRegion :: FieldItem where
  "exRegion = \<lparr> field_id = ''f1'', field_name = ''Region'', field_type = TString,
     field_source = ''original'',
     field_domain = [PStr ''D'', PStr ''B'', PStr ''A'', PStr ''C''],
     field_tableRef = ''t'', semanticType = None \<rparr>"

definition exKind :: FieldItem where
  "exKind = \<lparr> field_id = ''f2'', field_name = ''Kind'', field_type = TString,
     field_source = ''original'', field_domain = [PStr ''U'', PStr ''V''],
     field_tableRef = ''t'', semanticType = None \<rparr>"

definition exRows :: "row list" where
  "exRows = [[(''Region'', PStr ''C''), (''Kind'', PStr ''U'')],
             [(''Region'', PStr ''A''), (''Kind'', PStr ''V'')]]"


text \<open>
  The colour channel bound to \<open>Region\<close> on the Bar Chart: the template as the registry
  has it, the configuration resolved for the channel, and the assembled specification.
\<close>

definition exColorEncoding :: EncodingItem where
  "exColorEncoding = exEncoding \<lparr> fieldID := Some ''f1'' \<rparr>"

definition exBarTemplate :: ChartTemplate where
  "exBarTemplate =
     \<lparr> chart = ''Bar Chart'',
       template = JObj [(''mark'', JStr ''bar''), (''encoding'', JObj [])],
       channels = [''x'', ''y'', ''color'', ''column'', ''row''],
       paths = [(''x'', OnePath [KStr ''encoding'', KStr ''x'']),
                (''y'', OnePath [KStr ''encoding'', KStr ''y'']),
                (''color'', OnePath [KStr ''encoding'', KStr ''color'']),
                (''column'', OnePath [KStr ''encoding'', KStr ''column'']),
                (''row'', OnePath [KStr ''encoding'', KStr ''row''])],
       postProcessor = None \<rparr>"

definition exColorObj :: "(string \<times> json) list" where
  "exColorObj =
     [(''field'', JStr ''Region''), (''type'', JStr ''nominal''),
      (''scale'', JObj [(''domain'', JArr [JStr ''A'', JStr ''B'', JStr ''C'', JStr ''D''])]),
      (''legend'', JObj [(''values'', JArr [JStr ''A'', JStr ''C''])])]"

definition exColorSpec :: json where
  "exColorSpec =
     JObj [(''mark'', JStr ''bar''),
           (''encoding'', JObj [(''color'', JObj exColorObj)]),
           (''data'',
            JObj [(''values'',
                   JArr [JObj [(''Region'', JStr ''C''), (''Kind'', JStr ''U'')],
                         JObj [(''Region'', JStr ''A''), (''Kind'', JStr ''V'')]])])]"

subsection \<open>What a call may touch\<close>

text \<open>
  A value is \<open>local\<close> when it is primitive or refers to an object the call created. The
  call's own objects are \<open>closed\<close> when they hold local values only. A program \<open>frames\<close>
  when, run on a store whose local objects are closed, it leaves every shared object as
  it is, keeps the local objects closed, and returns a result that satisfies \<open>Q\<close>,
  whether it returns or throws.
\<close>

definition localVal :: "hval \<Rightarrow> bool" where
  "localVal v = (case v of HRef (Shared n) \<Rightarrow> False | _ \<Rightarrow> True)"

definition objVals :: "hobj \<Rightarrow> hval list" where
  "objVals obj = (case obj of HObj kvs \<Rightarrow> map snd kvs | HArr xs \<Rightarrow> xs)"

definition localClosed :: "store \<Rightarrow> bool" where
  "localClosed s = list_all (\<lambda>obj. list_all localVal (objVals obj)) (local s)"

definition frames :: "('a \<Rightarrow> bool) \<Rightarrow> 'a prog \<Rightarrow> bool" where
  "frames Q m =
     (\<forall>s. localClosed s \<longrightarrow>
        (case m s of
           (r, s') \<Rightarrow> shared s' = shared s \<and> localClosed s'
                       \<and> (case r of Inl e \<Rightarrow> True | Inr x \<Rightarrow> Q x)))"

text \<open>
  A small world: the skeletons of \<open>Auto\<close>, \<open>Table\<close> and \<open>Scatter Plot\<close> (objects 0, 1
  and 3, the scatter plot's empty \<open>encoding\<close> being object 2), the field list with the
  field \<open>Kind\<close> (objects 4 to 6) and two rows (objects 7 to 9); and the encoding map that
  binds the channel \<open>column\<close> to \<open>Kind\<close>.
\<close>

definition exWorld :: world where
  "exWorld =
     \<lparr> objects =
         [HObj [], HObj [], HObj [],
          HObj [(''mark'', HPrim (PStr ''circle'')), (''encoding'', HRef (Shared 2))],
          HArr [HPrim (PStr ''U''), HPrim (PStr ''V'')],
          HObj [(''id'', HPrim (PStr ''f2'')), (''name'', HPrim (PStr ''Kind'')),
                (''type'', HPrim (PStr ''string'')), (''source'', HPrim (PStr ''original'')),
                (''domain'', HRef (Shared 4)), (''tableRef'', HPrim (PStr ''t''))],
          HArr [HRef (Shared 5)],
          HObj [(''Kind'', HPrim (PStr ''U''))],
          HObj [(''Kind'', HPrim (PStr ''V''))],
          HArr [HRef (Shared 7), HRef (Shared 8)]],
       templateRoots = [HRef (Shared 0), HRef (Shared 1), HRef (Shared 3)],
       fieldList = HRef (Shared 6),
       workingRows = HRef (Shared 9) \<rparr>"

definition exKindRows :: "row list" where
  "exKindRows = [[(''Kind'', PStr ''U'')], [(''Kind'', PStr ''V'')]]"

definition exColumnMap :: EncodingMap where
  "exColumnMap = [(''column'', exEncoding \<lparr> fieldID := Some ''f2'' \<rparr>)]"

definition exFacetSpec :: json where
  "exFacetSpec =
     JObj [(''mark'', JStr ''circle''),
           (''encoding'', JObj [(''facet'', JObj [(''field'', JStr ''Kind''), (''type'', JStr ''nominal''),
                                                  (''columns'', JNum 6)])]),
           (''data'', JObj [(''values'', JArr [JObj [(''Kind'', JStr ''U'')],
                                               JObj [(''Kind'', JStr ''V'')]])])]"

section \<open>Where the assembler writes\<close>

text \<open>
  Two paths part ways when, after a common beginning, they go on with keys of different
  names; what is written at one of them is then not read at the other.
\<close>

fun diverge :: "pkey list \<Rightarrow> pkey list \<Rightarrow> bool" where
  "diverge (a # p) (b # q) = (if a = b then diverge p q else keyName a \<noteq> keyName b)"
| "diverge p q = False"

text \<open>The paths of a channel on a template, and the paths of all other channels.\<close>

definition channelPaths :: "ChartTemplate \<Rightarrow> string \<Rightarrow> pkey list list" where
  "channelPaths t ch = (case map_of (paths t) ch of None \<Rightarrow> [] | Some pathObj \<Rightarrow> pathsOf pathObj)"

definition otherPaths :: "ChartTemplate \<Rightarrow> string \<Rightarrow> pkey list list" where
  "otherPaths t ch = concat (map (\<lambda>cp. pathsOf (snd cp)) (filter (\<lambda>cp. fst cp \<noteq> ch) (paths t)))"

text \<open>What is read at a path, if anything is, satisfies \<open>Q\<close>.\<close>

definition holdsAt :: "(json \<Rightarrow> bool) \<Rightarrow> pkey list \<Rightarrow> json \<Rightarrow> bool" where
  "holdsAt Q p v = (case getAt p v of Inl e \<Rightarrow> True | Inr x \<Rightarrow> Q x)"

text \<open>
  The places that the assembler writes besides the paths of the template: the draw order
  of a sorted colour channel, the faceting step, the four post-processors of the
  registry, and the data.
\<close>

definition stepWrites :: "pkey list list" where
  "stepWrites =
     [[KStr ''encoding'', KStr ''order''],
      [KStr ''encoding'', KStr ''facet''],
      [KStr ''encoding'', KStr ''column''],
      [KStr ''data'']]"

definition postWrites :: "pkey list list" where
  "postWrites =
     [[KStr ''layer'', KIdx 0, KStr ''encoding'', KStr ''detail''],
      [KStr ''encoding'', KStr ''x'', KStr ''type''],
      [KStr ''encoding'', KStr ''y'', KStr ''type''],
      [KStr ''hconcat'', KIdx 0, KStr ''transform''],
      [KStr ''hconcat'', KIdx 0, KStr ''title''],
      [KStr ''hconcat'', KIdx 1, KStr ''transform''],
      [KStr ''hconcat'', KIdx 1, KStr ''title''],
      [KStr ''hconcat'', KIdx 0, KStr ''encoding'', KStr ''x'', KStr ''scale'', KStr ''domain''],
      [KStr ''hconcat'', KIdx 1, KStr ''encoding'', KStr ''x'', KStr ''scale'']]"

text \<open>
  A path of a channel is the channel's own on a template when every other write of an
  assembly parts ways with it, and the skeleton holds no string placeholder there.
\<close>

definition ownPath :: "ChartTemplate \<Rightarrow> string \<Rightarrow> pkey list \<Rightarrow> bool" where
  "ownPath t ch path =
     (list_all (diverge path) (otherPaths t ch @ stepWrites @ postWrites)
      \<and> list_all (\<lambda>q. q = path \<or> diverge path q) (channelPaths t ch)
      \<and> holdsAt (\<lambda>x. \<not> isString x) path (template t))"

text \<open>
  The body of \<open>assembleVegaChart\<close> from \<open>structuredClone(chartTemplate.template)\<close> on, for a
  template given as a value.
\<close>

definition assembleWithTemplate ::
  "JsRuntime \<Rightarrow> string \<Rightarrow> ChartTemplate \<Rightarrow> EncodingMap \<Rightarrow> FieldItem list \<Rightarrow> row list \<Rightarrow> bool
     \<Rightarrow> error + (string \<times> json)" where
  "assembleWithTemplate rt chartType chartTemplate encodingMap fieldItems workingTable aggrPreprocessed =
     bindE (processChannels rt chartType chartTemplate fieldItems workingTable
              aggrPreprocessed encodingMap (template chartTemplate)) (\<lambda>vg1.
     bindE (applyFaceting vg1) (\<lambda>vg2.
     bindE (case postProcessor chartTemplate of
              None \<Rightarrow> Inr vg2
            | Some post \<Rightarrow> post vg2 workingTable) (\<lambda>vg3.
     bindE (setProp vg3 (KStr ''data'')
              (JObj [(''values'',
                      JArr (map rowObj (dataValues rt fieldItems workingTable)))])) (\<lambda>vg4.
       Inr (chartType, vg4)))))"

text \<open>
  A single-faceted template, in the words of the specification: its paths target
  \<open>encoding.column\<close> and there is no \<open>encoding.row\<close> path. That is: the channel \<open>column\<close>
  is written at \<open>encoding.column\<close> and no other channel writes there, nothing is written at
  \<open>encoding.row\<close>, the skeleton holds no placeholder for the column and no row encoding,
  and there is no post-processor.
\<close>

definition singleFaceted :: "ChartTemplate \<Rightarrow> bool" where
  "singleFaceted t =
     (channelPaths t ''column'' = [[KStr ''encoding'', KStr ''column'']]
      \<and> list_all (diverge [KStr ''encoding'', KStr ''column'']) (otherPaths t ''column'')
      \<and> list_all (diverge [KStr ''encoding'', KStr ''row''])
           (concat (map (\<lambda>cp. pathsOf (snd cp)) (paths t)))
      \<and> holdsAt (\<lambda>x. \<not> isString x) [KStr ''encoding'', KStr ''column''] (template t)
      \<and> holdsAt (\<lambda>x. \<not> truthy x) [KStr ''encoding'', KStr ''row''] (template t)
      \<and> postProcessor t = None)"





section \<open>Properties of the delete operations\<close>

lemma tables_deleteChartsRoutine:
  "tables (deleteChartsRoutine s ids) =
     filter (\<lambda>t. \<not> ((\<exists>u \<in> set (tables s). table_id u = table_id t \<and> \<not> anchored u)
                 \<and> (\<exists>w \<in> set (tables s). table_id w = table_id t \<and> derive w \<noteq> None)
                 \<and> table_id t \<notin> chartRefed (filter (\<lambda>c. chart_id c \<notin> set ids) (charts s)) (tables s)))
       (tables s)"
proof -
  let ?R = "chartRefed (filter (\<lambda>c. chart_id c \<notin> set ids) (charts s)) (tables s)"
  have u: "set (getUnrefedDerivedTableIds (s\<lparr>focusedTableId := a, chartSynthesisInProgress := b,
               charts := filter (\<lambda>c. chart_id c \<notin> set ids) (charts s), focusedChartId := d\<rparr>))
           = {i. (\<exists>w \<in> set (tables s). table_id w = i \<and> derive w \<noteq> None) \<and> i \<notin> ?R}" for a b d
    unfolding getUnrefedDerivedTableIds_def chartRefed_def Let_def by auto
  have t: "tables (deleteChartsRoutine s ids) =
      filter (\<lambda>t. table_id t \<notin> table_id ` {t \<in> set (tables s). \<not> anchored t \<and> table_id t \<in>
          {i. (\<exists>w \<in> set (tables s). table_id w = i \<and> derive w \<noteq> None) \<and> i \<notin> ?R}}) (tables s)"
    unfolding deleteChartsRoutine_def Let_def
    by (simp add: u del: mem_Collect_eq)
  show ?thesis
    unfolding t
    by (rule filter_cong[OF refl]) (auto simp: image_iff)
qed

lemma charts_deleteChartsRoutine:
  "charts (deleteChartsRoutine s ids) = filter (\<lambda>c. chart_id c \<notin> set ids) (charts s)"
  unfolding deleteChartsRoutine_def Let_def by simp

lemma find_filter: "find P (filter Q xs) = find (\<lambda>x. Q x \<and> P x) xs"
  by (induction xs) auto

lemma find_cong_set: "(\<And>x. x \<in> set xs \<Longrightarrow> P x = Q x) \<Longrightarrow> find P xs = find Q xs"
  by (induction xs) auto

lemma find_Some_in: "find P xs = Some x \<Longrightarrow> x \<in> set xs \<and> P x"
  by (induction xs) (auto split: if_splits)

text \<open>Filtering with a predicate that depends on the id only, and keeps the table a chart
  resolves to, does not change what the chart resolves to.\<close>
lemma getDataTable_filter:
  assumes keep: "K (table_id (getDataTable c tbls))"
  shows "getDataTable c (filter (\<lambda>t. K (table_id t)) tbls) = getDataTable c tbls"
proof (cases "find (\<lambda>t. table_id t = chart_tableRef c) tbls")
  case (Some t)
  then have g: "getDataTable c tbls = t" by (simp add: getDataTable_def)
  from Some have tid: "table_id t = chart_tableRef c" using find_Some_in by fastforce
  have "find (\<lambda>x. K (table_id x) \<and> table_id x = chart_tableRef c) tbls = find (\<lambda>t. table_id t = chart_tableRef c) tbls"
    using keep g tid by (intro find_cong_set) auto
  then show ?thesis using Some by (simp add: getDataTable_def find_filter)
next
  case None
  then have n: "find (\<lambda>x. K (table_id x) \<and> table_id x = chart_tableRef c) tbls = None"
    by (auto simp: find_None_iff)
  show ?thesis
  proof (cases tbls)
    case Nil then show ?thesis by simp
  next
    case (Cons h tl)
    then have "getDataTable c tbls = h" using None by (simp add: getDataTable_def)
    then have kh: "K (table_id h)" using keep by simp
    have g: "getDataTable c tbls = h" using None Cons by (simp add: getDataTable_def)
    have f: "filter (\<lambda>t. K (table_id t)) tbls = h # filter (\<lambda>t. K (table_id t)) tl"
      using Cons kh by simp
    have "find (\<lambda>t. table_id t = chart_tableRef c) (filter (\<lambda>t. K (table_id t)) tbls) = None"
      using n by (simp only: find_filter)
    then have "getDataTable c (filter (\<lambda>t. K (table_id t)) tbls) = h"
      unfolding getDataTable_def by (simp only: f option.case list.case)
    then show ?thesis using g by simp
  qed
qed

lemma chartRefed_stable:
  "chartRefed (charts (deleteChartsRoutine s ids)) (tables (deleteChartsRoutine s ids))
     = chartRefed (charts (deleteChartsRoutine s ids)) (tables s)"
proof -
  let ?cs = "filter (\<lambda>c. chart_id c \<notin> set ids) (charts s)"
  let ?K = "\<lambda>i. \<not> ((\<exists>u \<in> set (tables s). table_id u = i \<and> \<not> anchored u)
                 \<and> (\<exists>w \<in> set (tables s). table_id w = i \<and> derive w \<noteq> None)
                 \<and> i \<notin> chartRefed ?cs (tables s))"
  have "getDataTable c (filter (\<lambda>t. ?K (table_id t)) (tables s)) = getDataTable c (tables s)"
    if "c \<in> set ?cs" for c
  proof (rule getDataTable_filter)
    have "table_id (getDataTable c (tables s)) \<in> chartRefed ?cs (tables s)"
      using that unfolding chartRefed_def by auto
    then show "?K (table_id (getDataTable c (tables s)))" by blast
  qed
  then show ?thesis
    unfolding chartRefed_def charts_deleteChartsRoutine tables_deleteChartsRoutine
    by (auto simp: image_iff)
qed

lemma second_pass_removes_nothing:
  "tables (deleteChartsRoutine (deleteChartsRoutine s ids) []) = tables (deleteChartsRoutine s ids)"
proof -
  let ?s' = "deleteChartsRoutine s ids"
  have sub: "set (tables ?s') \<subseteq> set (tables s)"
    unfolding tables_deleteChartsRoutine by auto
  have keep: "\<not> ((\<exists>u \<in> set (tables s). table_id u = table_id t \<and> \<not> anchored u)
                 \<and> (\<exists>w \<in> set (tables s). table_id w = table_id t \<and> derive w \<noteq> None)
                 \<and> table_id t \<notin> chartRefed (charts ?s') (tables s))"
    if "t \<in> set (tables ?s')" for t
    using that unfolding tables_deleteChartsRoutine[of s ids] charts_deleteChartsRoutine by simp
  have "filter (\<lambda>t. \<not> ((\<exists>u \<in> set (tables ?s'). table_id u = table_id t \<and> \<not> anchored u)
                 \<and> (\<exists>w \<in> set (tables ?s'). table_id w = table_id t \<and> derive w \<noteq> None)
                 \<and> table_id t \<notin> chartRefed (charts ?s') (tables ?s'))) (tables ?s') = tables ?s'"
    unfolding chartRefed_stable filter_id_conv using keep sub by blast
  then show ?thesis
    unfolding tables_deleteChartsRoutine[of ?s' "[]"] by simp
qed

lemma conceptShelfItems_deleteChartsRoutine:
  "conceptShelfItems (deleteChartsRoutine s ids) = conceptShelfItems s"
  unfolding deleteChartsRoutine_def Let_def by simp

lemma anchored_kept:
  assumes "t \<in> set (tables s)" "\<forall>u \<in> set (tables s). table_id u = table_id t \<longrightarrow> anchored u"
  shows "t \<in> set (tables (deleteChartsRoutine s ids))"
  using assms unfolding tables_deleteChartsRoutine by auto

lemma distinct_kept:
  "distinct (map table_id (tables s)) \<Longrightarrow> distinct (map table_id (tables (deleteChartsRoutine s ids)))"
  unfolding tables_deleteChartsRoutine by (simp add: distinct_map_filter)

text \<open>
  C3 (as amended). Deleting a chart removes a non-anchored derived table exactly when no
  remaining chart resolves to it (by its \<open>tableRef\<close>, or as the first table when the
  \<open>tableRef\<close> matches no table). This holds for the table of the deleted chart and
  for a table derived from it alike: a table is not removed because its source table was.
  The pass runs once, and running the unreferenced-table check again removes nothing more.
\<close>

theorem deleteChart_removes_unreferenced_derived:
  assumes "t \<in> set (tables s)" and "\<not> anchored t" and "derive t \<noteq> None"
  shows "(t \<in> set (tables (deleteChart s cid)) \<longleftrightarrow>
            table_id t \<in> chartRefed (filter (\<lambda>c. chart_id c \<noteq> cid) (charts s)) (tables s))
         \<and> tables (deleteChartsRoutine (deleteChart s cid) []) = tables (deleteChart s cid)"
proof -
  have "t \<in> set (tables (deleteChart s cid)) \<longleftrightarrow>
          table_id t \<in> chartRefed (filter (\<lambda>c. chart_id c \<noteq> cid) (charts s)) (tables s)"
    unfolding deleteChart_def tables_deleteChartsRoutine using assms by auto
  moreover have "tables (deleteChartsRoutine (deleteChart s cid) []) = tables (deleteChart s cid)"
    unfolding deleteChart_def by (rule second_pass_removes_nothing)
  ultimately show ?thesis by simp
qed

lemma exStateOneChart_deleted:
  "tables (deleteChart exStateOneChart ''c1'') = [exRoot]"
  by code_simp

text \<open>The two-level cascade, when the second table has no chart: both derived tables go.\<close>

theorem deleteChart_removes_unreferenced_derived_witness:
  "exDerived ''t2'' ''t1'' \<in> set (tables exStateOneChart)
   \<and> \<not> anchored (exDerived ''t2'' ''t1'')
   \<and> derive (exDerived ''t2'' ''t1'') \<noteq> None
   \<and> exDerived ''t2'' ''t1'' \<notin> set (tables (deleteChart exStateOneChart ''c1''))
   \<and> table_id (exDerived ''t2'' ''t1'')
        \<notin> chartRefed (filter (\<lambda>c. chart_id c \<noteq> ''c1'') (charts exStateOneChart)) (tables exStateOneChart)"
proof -
  have h1: "exDerived ''t2'' ''t1'' \<in> set (tables exStateOneChart)"
    by (simp add: exStateOneChart_def exStateTwoCharts_def)
  have h2: "\<not> anchored (exDerived ''t2'' ''t1'')" by (simp add: exDerived_def)
  have h3: "derive (exDerived ''t2'' ''t1'') \<noteq> None" by (simp add: exDerived_def)
  have gone: "exDerived ''t2'' ''t1'' \<notin> set (tables (deleteChart exStateOneChart ''c1''))"
    by (simp add: exStateOneChart_deleted exDerived_def exRoot_def)
  show ?thesis
    using deleteChart_removes_unreferenced_derived[OF h1 h2 h3, of "''c1''"] h1 h2 h3 gone
    by simp
qed

text \<open>
  C3, as stated, fails: \<open>t2\<close> is derived from \<open>t1\<close> alone, the sole chart of \<open>t1\<close> is
  deleted and \<open>t1\<close> is removed, yet \<open>t2\<close> stays because a chart of its own resolves to it.
\<close>

theorem deleteChart_second_level_counterexample:
  "tables (deleteChart exStateTwoCharts ''c1'') = [exRoot, exDerived ''t2'' ''t1'']
   \<and> map_option derive_source (derive (exDerived ''t2'' ''t1'')) = Some [''t1'']
   \<and> map chart_id (filter (\<lambda>c. chart_tableRef c = ''t1'') (charts exStateTwoCharts)) = [''c1'']"
  by code_simp

text \<open>
  Where no two tables share an id, a table whose \<open>anchored\<close> flag is true is still in
  the state after any sequence of chart deletions, whatever charts reference it.
\<close>

lemma anchored_kept_when_ids_distinct:
  assumes "distinct (map table_id (tables s))" and "t \<in> set (tables s)" and "anchored t"
  shows "t \<in> set (tables (deleteChartsSeq s ids))"
  using assms unfolding deleteChartsSeq_def
proof (induction ids arbitrary: s)
  case Nil
  then show ?case by simp
next
  case (Cons i ids)
  have d: "distinct (map table_id (tables (deleteChart s i)))"
    unfolding deleteChart_def using Cons.prems(1) by (rule distinct_kept)
  have "\<forall>u \<in> set (tables s). table_id u = table_id t \<longrightarrow> anchored u"
    using Cons.prems by (metis distinct_map inj_onD)
  then have m: "t \<in> set (tables (deleteChart s i))"
    unfolding deleteChart_def using Cons.prems(2) anchored_kept by blast
  show ?case using Cons.IH[OF d m Cons.prems(3)] by simp
qed

lemma anchored_kept_example:
  "exRoot \<in> set (tables (deleteChartsSeq exStateTwoCharts [''c1'', ''c2'']))"
proof -
  have h1: "distinct (map table_id (tables exStateTwoCharts))"
    by (simp add: exStateTwoCharts_def exRoot_def exDerived_def)
  have h2: "exRoot \<in> set (tables exStateTwoCharts)" by (simp add: exStateTwoCharts_def)
  have h3: "anchored exRoot" by (simp add: exRoot_def)
  show ?thesis
    using anchored_kept_when_ids_distinct[OF h1 h2 h3, of "[''c1'', ''c2'']"] by simp
qed

text \<open>
  C4 does not hold of the code. \<open>deleteChartsRoutine\<close> tests \<open>!t.anchored\<close> on each
  table to collect the ids to delete, and then removes every table that has one of these
  ids, without the test. In \<open>exStateSharedId\<close> an anchored table and a derived table share
  the id \<open>t1\<close>; deleting the only chart removes both, the anchored one included.
  (\<open>clearUnReferencedTables\<close> keeps a table by \<open>|| t.anchored\<close>, table by table.)
\<close>

theorem anchored_removed_with_shared_id:
  "anchored (tables exStateSharedId ! 0)
   \<and> map table_id (tables exStateSharedId) = [''t1'', ''t1'']
   \<and> tables (deleteChart exStateSharedId ''c1'') = []
   \<and> tables (deleteChartsSeq exStateSharedId [''c1'']) = []"
  by code_simp

text \<open>
  C10. \<open>deleteTable\<close> removes from the concept shelf exactly the fields whose \<open>tableRef\<close>
  is the deleted table's id: the fields of every other table stay, unchanged and in
  their order, and no remaining field refers to the deleted id.
\<close>

theorem deleteTable_removes_fields_of_table:
  "conceptShelfItems (deleteTable s tid)
     = filter (\<lambda>item. field_tableRef item \<noteq> tid) (conceptShelfItems s)
   \<and> (\<forall>item \<in> set (conceptShelfItems (deleteTable s tid)). field_tableRef item \<noteq> tid)"
  unfolding deleteTable_def Let_def by (simp add: conceptShelfItems_deleteChartsRoutine)

theorem deleteTable_removes_fields_of_table_witness:
  "conceptShelfItems (deleteTable exStateTwoCharts ''t1'') = [exField ''f0'' ''root'', exField ''f2'' ''t2'']"
  using deleteTable_removes_fields_of_table[of exStateTwoCharts "''t1''"]
  by (simp add: exStateTwoCharts_def exField_def)

section \<open>Properties of type inference\<close>

text \<open>
  C5 (as amended). For an input that is absent, empty, or holds only \<open>null\<close>,
  \<open>undefined\<close> and empty strings, \<open>inferDataType\<close> and \<open>inferTypeFromValueArray\<close> return
  \<open>auto\<close>, not \<open>string\<close>; \<open>getDType\<close> maps such a column of declared type \<open>auto\<close> to the
  display type \<open>nominal\<close>.
\<close>

theorem inference_of_empty_input:
  assumes "list_all (\<lambda>v. \<not> nonNullValue v) vs"
  shows "inferDataType rt (Some vs) = TAuto \<and> inferDataType rt None = TAuto
       \<and> inferTypeFromValueArray rt (Some vs) = TAuto \<and> inferTypeFromValueArray rt None = TAuto
       \<and> getDType rt TAuto vs = ''nominal''"
proof -
  have "filter nonNullValue vs = []"
    using assms by (induction vs) auto
  then show ?thesis
    by (simp add: inferDataType_def inferTypeFromValueArray_def getDType_def)
qed

theorem inference_of_empty_input_witness:
  "list_all (\<lambda>v. \<not> nonNullValue v) [PNull, PStr [], PUndef]
   \<and> inferDataType refRuntime (Some [PNull, PStr [], PUndef]) = TAuto
   \<and> inferTypeFromValueArray refRuntime (Some [PNull, PStr [], PUndef]) = TAuto
   \<and> getDType refRuntime TAuto [PNull, PStr [], PUndef] = ''nominal''"
proof -
  have h: "list_all (\<lambda>v. \<not> nonNullValue v) [PNull, PStr [], PUndef]"
    by (simp add: nonNullValue_def)
  show ?thesis using inference_of_empty_input[OF h, of refRuntime] h by simp
qed

text \<open>C5, as stated, fails: on the empty sequence both inference functions return \<open>auto\<close>.\<close>

theorem inference_of_empty_input_counterexample:
  "inferDataType refRuntime (Some []) = TAuto \<and> inferTypeFromValueArray refRuntime (Some []) = TAuto
   \<and> inferDataType refRuntime (Some [PNull]) = TAuto \<and> TAuto \<noteq> TString"
  by (simp add: inferDataType_def inferTypeFromValueArray_def nonNullValue_def)

section \<open>Properties of the thumbnail down-sampling\<close>

lemma getRandom_range: "0 \<le> getRandom msin seed \<and> getRandom msin seed < 1"
  unfolding getRandom_def Let_def by linarith

lemma swapIndex_le: "swapIndex msin i \<le> i"
proof -
  let ?r = "getRandom msin (233 * int i + 888)"
  have r: "0 \<le> ?r" "?r < 1" using getRandom_range by auto
  have "(of_nat i + 1) * ?r < (of_nat i + 1) * 1"
    using r by (intro mult_strict_left_mono) auto
  then have "(of_nat i + 1) * ?r < of_int (int i + 1)" by simp
  then have "\<lfloor>(of_nat i + 1) * ?r\<rfloor> < int i + 1"
    by (simp only: floor_less_iff)
  then show ?thesis unfolding swapIndex_def by linarith
qed

lemma length_shuffleLoop: "length (shuffleLoop msin i xs) = length xs"
  by (induction i arbitrary: xs) (simp_all add: Let_def)

lemma mset_shuffleLoop: "i \<le> length xs \<Longrightarrow> mset (shuffleLoop msin i xs) = mset xs"
proof (induction i arbitrary: xs)
  case 0 then show ?case by simp
next
  case (Suc i)
  have a: "swapIndex msin i < length xs" using swapIndex_le[of msin i] Suc.prems by simp
  have b: "i < length xs" using Suc.prems by simp
  have "mset (xs[swapIndex msin i := xs ! i, i := xs ! swapIndex msin i]) = mset xs"
    using a b by (simp add: mset_swap)
  then show ?case using Suc by (simp add: Let_def)
qed

lemma map_shuffleLoop: "i \<le> length xs \<Longrightarrow> shuffleLoop msin i (map f xs) = map f (shuffleLoop msin i xs)"
proof (induction i arbitrary: xs)
  case 0 then show ?case by simp
next
  case (Suc i)
  have a: "swapIndex msin i < length xs" using swapIndex_le[of msin i] Suc.prems by simp
  have b: "i < length xs" using Suc.prems by simp
  let ?ys = "xs[swapIndex msin i := xs ! i, i := xs ! swapIndex msin i]"
  have "i \<le> length ?ys" using b by simp
  from Suc.IH[OF this] have ih: "shuffleLoop msin i (map f ?ys) = map f (shuffleLoop msin i ?ys)" .
  have "(map f xs)[swapIndex msin i := map f xs ! i, i := map f xs ! swapIndex msin i] = map f ?ys"
    using a b by (simp add: map_update)
  then show ?case using ih by (simp add: Let_def)
qed

lemma mset_take_subset: "mset (take n xs) \<subseteq># mset xs"
proof -
  have "mset xs = mset (take n xs) + mset (drop n xs)"
    by (metis append_take_drop_id mset_append)
  then show ?thesis by simp
qed

text \<open>
  The sampler on its own: it returns \<open>size\<close> elements of the array (all of them when
  the array has fewer), each taken from the array without repetition; which positions it
  swaps depends on the length of the array and on \<open>Math.sin\<close> only, so it commutes with any
  relabelling \<open>f\<close> of the elements.
\<close>

lemma getRandomSubarray_sample:
  "length (getRandomSubarray msin arr sz) = min sz (length arr)
   \<and> mset (getRandomSubarray msin arr sz) \<subseteq># mset arr
   \<and> getRandomSubarray msin (map f arr) sz = map f (getRandomSubarray msin arr sz)"
proof -
  have a: "length (getRandomSubarray msin arr sz) = min sz (length arr)"
    unfolding getRandomSubarray_def by (simp add: length_shuffleLoop min.commute)
  have "mset (take sz (shuffleLoop msin (length arr) arr)) \<subseteq># mset arr"
    using mset_take_subset[of sz "shuffleLoop msin (length arr) arr"]
    by (simp add: mset_shuffleLoop)
  then have b: "mset (getRandomSubarray msin arr sz) \<subseteq># mset arr"
    unfolding getRandomSubarray_def by simp
  have c: "getRandomSubarray msin (map f arr) sz = map f (getRandomSubarray msin arr sz)"
    unfolding getRandomSubarray_def
    using map_shuffleLoop[of "length arr" arr msin f] by (simp add: take_map)
  show ?thesis using a b c by blast
qed

section \<open>Properties of spec assembly\<close>

lemma bindE_simps [simp]: "bindE (Inl e) f = Inl e" "bindE (Inr x) f = f x"
  by (simp_all add: bindE_def)

lemma bindE_Inr_iff: "bindE m f = Inr y \<longleftrightarrow> (\<exists>x. m = Inr x \<and> f x = Inr y)"
  by (cases m) simp_all

lemma map_of_objSet: "map_of (objSet e k v) = (map_of e)(k \<mapsto> v)"
  by (induction e) (auto simp: fun_eq_iff)

lemma objGet_objSet: "objGet (objSet e k v) k' = (if k' = k then v else objGet e k')"
  by (simp add: objGet_def map_of_objSet)

lemma keys_objSet: "fst ` set (objSet e k v) = insert k (fst ` set e)"
proof -
  have "fst ` set (objSet e k v) = dom (map_of (objSet e k v))"
    by (simp add: dom_map_of_conv_image_fst)
  also have "\<dots> = insert k (dom (map_of e))" by (simp add: map_of_objSet)
  finally show ?thesis by (simp add: dom_map_of_conv_image_fst)
qed

lemma distinct_objSet: "distinct (map fst e) \<Longrightarrow> distinct (map fst (objSet e k v))"
proof (induction e)
  case Nil then show ?case by simp
next
  case (Cons a e)
  then show ?case using keys_objSet[of e k v] by (cases a) auto
qed

lemma subObj_objSet_same: "subObj (objSet e k (JObj kvs)) k = kvs"
  by (simp add: subObj_def objGet_objSet)

lemma subObj_objSet_other: "k' \<noteq> k \<Longrightarrow> subObj (objSet e k v) k' = subObj e k'"
  by (simp add: subObj_def objGet_objSet)

lemma set_uniq [simp]: "set (uniq xs) = set xs"
  by (induction xs) auto

lemma distinct_uniq [simp]: "distinct (uniq xs)"
  by (induction xs) auto

lemma length_uniq: "length (uniq xs) = card (set xs)"
  using distinct_card[of "uniq xs"] by simp

lemma superset_fits:
  assumes "set (map (\<lambda>r. cell r (field_name field)) workingTable) \<subset> set (field_domain field)"
  shows "list_all (\<lambda>v. v \<in> set (field_domain field)) (uniq (map (\<lambda>r. cell r (field_name field)) workingTable))
       \<and> length (uniq (map (\<lambda>r. cell r (field_name field)) workingTable)) < length (field_domain field)"
proof -
  let ?actual = "uniq (map (\<lambda>r. cell r (field_name field)) workingTable)"
  have a: "list_all (\<lambda>v. v \<in> set (field_domain field)) ?actual"
    using assms by (auto simp: list_all_iff)
  have "card (set (map (\<lambda>r. cell r (field_name field)) workingTable)) < card (set (field_domain field))"
    using assms by (intro psubset_card_mono) auto
  also have "\<dots> \<le> length (field_domain field)" by (rule card_length)
  finally have b: "length ?actual < length (field_domain field)"
    by (simp add: length_uniq)
  show ?thesis using a b by simp
qed

lemma colorEncoding_fits:
  assumes "set (map (\<lambda>r. cell r (field_name field)) workingTable) \<subset> set (field_domain field)"
  shows "\<exists>sc lg. objGet (colorEncoding rt field workingTable e) ''scale'' = JObj sc
           \<and> objGet (colorEncoding rt field workingTable e) ''legend'' = JObj lg
           \<and> objGet sc ''domain'' = primArr (jsSort rt (uniq (field_domain field)))
           \<and> objGet lg ''values''
               = primArr (jsSort rt (uniq (map (\<lambda>r. cell r (field_name field)) workingTable)))"
  using superset_fits[OF assms]
  by (simp add: colorEncoding_def Let_def subObj_def objGet_def map_of_objSet)

lemma keys_colorEncoding: "distinct (map fst e) \<Longrightarrow> distinct (map fst (colorEncoding rt field workingTable e))"
  by (simp add: colorEncoding_def Let_def distinct_objSet)

lemma keys_typedEncoding: "distinct (map fst e) \<Longrightarrow> distinct (map fst (typedEncoding rt ct ch enc f wt ap e))"
  by (simp add: typedEncoding_def Let_def distinct_objSet)

lemma keys_baseEncoding: "distinct (map fst (baseEncoding rt ct fs wt ap ch enc))"
  by (auto simp: baseEncoding_def fieldEncoding_def Let_def distinct_objSet keys_colorEncoding keys_typedEncoding
      split: option.splits)


lemma baseEncoding_color:
  assumes "resolveField fs enc = Some field"
    and "objGet (typedEncoding rt ct ''color'' enc field wt ap []) ''type'' = JStr ''nominal''"
  shows "baseEncoding rt ct fs wt ap ''color'' enc
           = colorEncoding rt field wt (typedEncoding rt ct ''color'' enc field wt ap [])"
  using assms by (simp add: baseEncoding_def fieldEncoding_def Let_def)

lemma sortEncoding_keeps:
  assumes "sortEncoding rt ch enc field e vg = Inr (e', vg')" and "k \<noteq> ''sort''"
  shows "objGet e' k = objGet e k"
  using assms
  by (auto simp: sortEncoding_def customSort_def Let_def objGet_objSet bindE_Inr_iff
      split: if_splits option.splits sum.splits error.splits)

lemma sortEncoding_distinct:
  assumes "sortEncoding rt ch enc field e vg = Inr (e', vg')" and "distinct (map fst e)"
  shows "distinct (map fst e')"
  using assms
  by (auto simp: sortEncoding_def customSort_def Let_def distinct_objSet bindE_Inr_iff
      split: if_splits option.splits sum.splits error.splits)

lemma stackEncoding_keeps: "k \<noteq> ''stack'' \<Longrightarrow> objGet (stackEncoding enc e) k = objGet e k"
  by (simp add: stackEncoding_def objGet_objSet)

lemma schemeEncoding_keeps_legend: "objGet (schemeEncoding enc e) ''legend'' = objGet e ''legend''"
  by (simp add: schemeEncoding_def objGet_objSet)

lemma schemeEncoding_keeps_domain:
  assumes "objGet e ''scale'' = JObj sc"
  shows "\<exists>sc'. objGet (schemeEncoding enc e) ''scale'' = JObj sc' \<and> objGet sc' ''domain'' = objGet sc ''domain''"
proof -
  have "map_of e ''scale'' \<noteq> None" using assms by (auto simp: objGet_def split: option.splits)
  then show ?thesis using assms
    by (auto simp: schemeEncoding_def objGet_objSet subObj_def)
qed

lemma schemeEncoding_distinct: "distinct (map fst e) \<Longrightarrow> distinct (map fst (schemeEncoding enc e))"
  by (simp add: schemeEncoding_def distinct_objSet)

lemma stackEncoding_distinct: "distinct (map fst e) \<Longrightarrow> distinct (map fst (stackEncoding enc e))"
  by (simp add: stackEncoding_def distinct_objSet)

lemma resolveEncoding_distinct:
  assumes "resolveEncoding rt ct fs wt ap ch enc vg = Inr (e, vg')"
  shows "distinct (map fst e)"
  using assms
  by (auto simp: resolveEncoding_def bindE_Inr_iff
      intro!: schemeEncoding_distinct stackEncoding_distinct
      dest!: sortEncoding_distinct[OF _ keys_baseEncoding])

text \<open>Reading back what was written.\<close>

lemma getProp_setProp: "setProp v k x = Inr v' \<Longrightarrow> getProp v' k = Inr x"
  by (cases "(v, k, x)" rule: setProp.cases) (auto simp: objGet_objSet split: if_splits)

lemma getAt_append: "getAt (xs @ ys) v = bindE (getAt xs v) (getAt ys)"
proof (induction xs arbitrary: v)
  case Nil then show ?case by simp
next
  case (Cons k ks)
  show ?case by (cases "getProp v k") (simp_all add: Cons.IH)
qed

lemma modifyAt_result:
  "modifyAt ks f v = Inr v' \<Longrightarrow> \<exists>c c'. getAt ks v = Inr c \<and> f c = Inr c' \<and> getAt ks v' = Inr c'"
proof (induction ks arbitrary: v v')
  case Nil then show ?case by simp
next
  case (Cons k ks)
  from Cons.prems obtain child child' where
    g: "getProp v k = Inr child" and m: "modifyAt ks f child = Inr child'" and s: "setProp v k child' = Inr v'"
    by (auto simp: bindE_Inr_iff)
  from Cons.IH[OF m] obtain c c' where
    "getAt ks child = Inr c" "f c = Inr c'" "getAt ks child' = Inr c'" by blast
  then show ?case using g getProp_setProp[OF s] by simp
qed

lemma map_of_foldl_objSet:
  "map_of (foldl (\<lambda>acc kv. objSet acc (fst kv) (snd kv)) acc xs) k
     = (case map_of (rev xs) k of Some v \<Rightarrow> Some v | None \<Rightarrow> map_of acc k)"
proof (induction xs arbitrary: acc)
  case Nil then show ?case by simp
next
  case (Cons x xs)
  show ?case
    by (cases x) (auto simp: Cons.IH map_of_objSet map_of_append split: option.splits)
qed

lemma map_of_rev_distinct: "distinct (map fst xs) \<Longrightarrow> map_of (rev xs) = map_of xs"
  by (simp add: map_of_inject_set distinct_map)

lemma objGet_fromEntries:
  assumes "distinct (map fst e)" and "map_of e k \<noteq> None"
  shows "objGet (fromEntries (pre @ e)) k = objGet e k"
  using assms
  by (auto simp: objGet_def fromEntries_def map_of_foldl_objSet map_of_append map_of_rev_distinct
      split: option.splits)

lemma fillPath_result:
  assumes w: "fillPath e path vg = Inr vg'" and g: "getAt path vg = Inr cur" and ns: "\<not> isString cur"
    and ne: "path \<noteq> []"
  shows "getAt path vg' = Inr (JObj (fromEntries ((if truthy cur then entriesOf cur else []) @ e)))"
proof -
  have p: "path = butlast path @ [last path]" using ne by simp
  let ?f = "\<lambda>ref. bindE (getProp ref (last path)) (\<lambda>cur.
           if isString cur
           then setProp ref (last path) (objGet e ''field'')
           else setProp ref (last path)
                  (JObj (fromEntries ((if truthy cur then entriesOf cur else []) @ e))))"
  have lk: "(if path = [] then KStr ''undefined'' else last path) = last path" using ne by simp
  from w have "modifyAt (butlast path) ?f vg = Inr vg'"
    unfolding fillPath_def Let_def lk .
  from modifyAt_result[OF this] obtain c c' where
    c: "getAt (butlast path) vg = Inr c" and f: "?f c = Inr c'" and c': "getAt (butlast path) vg' = Inr c'"
    by blast
  have "getAt path vg = getProp c (last path)"
    by (subst p) (simp add: getAt_append c bindE_def split: sum.splits)
  then have gc: "getProp c (last path) = Inr cur" using g by simp
  from f gc ns have "setProp c (last path) (JObj (fromEntries ((if truthy cur then entriesOf cur else []) @ e))) = Inr c'"
    by (simp add: Let_def)
  from getProp_setProp[OF this] have "getProp c' (last path) = Inr (JObj (fromEntries ((if truthy cur then entriesOf cur else []) @ e)))" .
  moreover have "getAt path vg' = getProp c' (last path)"
    by (subst p) (simp add: getAt_append c' bindE_def split: sum.splits)
  ultimately show ?thesis by simp
qed

lemma registry_no_radius_all:
  "list_all (\<lambda>t. map_of (paths t) ''radius'' = None) (concat (map snd (CHART_TEMPLATES rt)))"
  by (simp add: CHART_TEMPLATES_def tablePlots_def scatterPlots_def barCharts_def lineCharts_def
      tableCharts_def customCharts_def encodingPaths_def)

lemma find_Some_set: "find P xs = Some x \<Longrightarrow> x \<in> set xs"
  by (induction xs) (auto split: if_splits)

lemma registry_no_radius:
  "getChartTemplate rt chartType = Some t \<Longrightarrow> map_of (paths t) ''radius'' = None"
  using registry_no_radius_all[of rt] unfolding getChartTemplate_def list_all_iff
  by (blast dest: find_Some_set)

lemma processChannel_empty:
  assumes "\<not> truthyStr (fieldID encoding)" "\<not> truthyStr (sortBy encoding)"
    "\<not> truthyStr (sortOrder encoding)" "\<not> truthyStr (stack encoding)"
    "\<not> truthyStr (scheme encoding)" "\<not> (aggrPreprocessed \<and> aggregate encoding = Some ''count'')"
    "map_of (paths chartTemplate) ''radius'' = None"
  shows "processChannel rt chartType chartTemplate fieldItems workingTable aggrPreprocessed channel encoding vgObj = Inr vgObj"
  using assms
  by (auto simp: processChannel_def resolveEncoding_def baseEncoding_def resolveField_def
      sortEncoding_def stackEncoding_def schemeEncoding_def applyEncoding_def Let_def
      objectPrototypeNames_def)

lemma processChannels_append:
  "processChannels rt ct tm fs wt ap (xs @ ys) vg =
     bindE (processChannels rt ct tm fs wt ap xs vg) (processChannels rt ct tm fs wt ap ys)"
proof (induction xs arbitrary: vg)
  case Nil then show ?case by simp
next
  case (Cons x xs)
  show ?case
    by (cases "processChannel rt ct tm fs wt ap (fst x) (snd x) vg") (simp_all add: Cons.IH)
qed

text \<open>
  C6. For a chart type other than \<open>Table\<close> that has no entry in the template registry,
  assembly returns no specification: it throws the error that names the chart type.
\<close>

theorem unknown_chart_type_is_an_error:
  assumes "chartType \<noteq> ''Table''" and "getChartTemplate rt chartType = None"
  shows "assembleVegaChart rt chartType encodingMap fieldItems workingTable maxNominalValues aggrPreprocessed
           = Inl (TemplateNotFound chartType)"
  using assms by (simp add: assembleVegaChart_def)

lemma pie_chart_unregistered: "getChartTemplate refRuntime ''Pie Chart'' = None"
  by code_simp

theorem unknown_chart_type_is_an_error_witness:
  "''Pie Chart'' \<noteq> ''Table'' \<and> getChartTemplate refRuntime ''Pie Chart'' = None
   \<and> assembleVegaChart refRuntime ''Pie Chart'' [(''x'', exEncoding \<lparr> fieldID := Some ''f1'' \<rparr>)]
        [exRegion, exKind] exRows 68 False = Inl (TemplateNotFound ''Pie Chart'')"
proof -
  have h1: "''Pie Chart'' \<noteq> ''Table''" by simp
  show ?thesis
    using unknown_chart_type_is_an_error[OF h1 pie_chart_unregistered] h1 pie_chart_unregistered
    by simp
qed

text \<open>
  C1 (as amended). An Encoding with no bound field id that also has no sort order, no
  sort key, no stack and no colour scheme, and that does not ask for the \<open>count\<close>
  aggregate of pre-aggregated rows, contributes nothing: the assembled result is the one
  obtained without that entry, for every channel, \<open>radius\<close> included (no registered
  template has a path for \<open>radius\<close>).
\<close>

theorem empty_encoding_contributes_nothing:
  assumes "\<not> truthyStr (fieldID encoding)" and "\<not> truthyStr (sortBy encoding)"
    and "\<not> truthyStr (sortOrder encoding)" and "\<not> truthyStr (stack encoding)"
    and "\<not> truthyStr (scheme encoding)"
    and "\<not> (aggrPreprocessed \<and> aggregate encoding = Some ''count'')"
  shows "assembleVegaChart rt chartType (before @ (channel, encoding) # after) fieldItems workingTable
           maxNominalValues aggrPreprocessed
         = assembleVegaChart rt chartType (before @ after) fieldItems workingTable
             maxNominalValues aggrPreprocessed"
proof (cases "getChartTemplate rt chartType")
  case None
  then show ?thesis by (simp add: assembleVegaChart_def)
next
  case (Some chartTemplate)
  have step: "processChannel rt chartType chartTemplate fieldItems workingTable aggrPreprocessed
                channel encoding vg = Inr vg" for vg
    using assms registry_no_radius[OF Some] by (intro processChannel_empty) auto
  have tail: "processChannels rt chartType chartTemplate fieldItems workingTable aggrPreprocessed
                ((channel, encoding) # after)
              = processChannels rt chartType chartTemplate fieldItems workingTable aggrPreprocessed
                  after"
    by (rule ext) (simp add: step)
  have "processChannels rt chartType chartTemplate fieldItems workingTable aggrPreprocessed
          (before @ (channel, encoding) # after) vg
        = processChannels rt chartType chartTemplate fieldItems workingTable aggrPreprocessed
          (before @ after) vg" for vg
    by (simp only: processChannels_append tail)
  then show ?thesis by (simp add: assembleVegaChart_def Some)
qed

theorem empty_encoding_contributes_nothing_witness:
  "\<not> truthyStr (fieldID exEncoding) \<and> \<not> truthyStr (sortBy exEncoding)
   \<and> \<not> truthyStr (sortOrder exEncoding) \<and> \<not> truthyStr (stack exEncoding)
   \<and> \<not> truthyStr (scheme exEncoding) \<and> \<not> (False \<and> aggregate exEncoding = Some ''count'')
   \<and> assembleVegaChart refRuntime ''Scatter Plot''
        ([(''x'', exEncoding \<lparr> fieldID := Some ''f1'' \<rparr>)] @ (''radius'', exEncoding) # [])
        [exRegion, exKind] exRows 68 False
      = assembleVegaChart refRuntime ''Scatter Plot''
          ([(''x'', exEncoding \<lparr> fieldID := Some ''f1'' \<rparr>)] @ [])
          [exRegion, exKind] exRows 68 False"
proof -
  have h: "\<not> truthyStr (fieldID exEncoding)" "\<not> truthyStr (sortBy exEncoding)"
    "\<not> truthyStr (sortOrder exEncoding)" "\<not> truthyStr (stack exEncoding)"
    "\<not> truthyStr (scheme exEncoding)" "\<not> (False \<and> aggregate exEncoding = Some ''count'')"
    by (simp_all add: exEncoding_def)
  show ?thesis
    using empty_encoding_contributes_nothing[OF h, of refRuntime "''Scatter Plot''"
        "[(''x'', exEncoding \<lparr> fieldID := Some ''f1'' \<rparr>)]" "''radius''" "[]"
        "[exRegion, exKind]" exRows 68] h
    by blast
qed

text \<open>
  C1, as stated, fails: an Encoding of the \<open>x\<close> channel with no field id and a sort
  order puts a \<open>sort\<close> entry at the channel's template path.
\<close>

theorem empty_encoding_with_sort_counterexample:
  "fieldID (exEncoding \<lparr> sortOrder := Some ''descending'' \<rparr>) = None
   \<and> assembleVegaChart refRuntime ''Bar Chart''
        [(''x'', exEncoding \<lparr> sortOrder := Some ''descending'' \<rparr>)] [] [] 68 False
      = Inr (''Bar Chart'',
             JObj [(''mark'', JStr ''bar''),
                   (''encoding'', JObj [(''x'', JObj [(''sort'', JStr ''descending'')])]),
                   (''data'', JObj [(''values'', JArr [])])])
   \<and> assembleVegaChart refRuntime ''Bar Chart'' [] [] [] 68 False
      = Inr (''Bar Chart'',
             JObj [(''mark'', JStr ''bar''), (''encoding'', JObj []),
                   (''data'', JObj [(''values'', JArr [])])])"
  by code_simp

text \<open>
  The faceting step fires only when the filled specification has a \<open>column\<close> encoding
  and no \<open>row\<close> encoding: it then moves the column encoding to \<open>facet\<close>, with the fixed
  column count 6, and deletes \<open>column\<close>. Otherwise it leaves the specification as it is.
\<close>

lemma applyFaceting_cases:
  assumes "objGet spec ''encoding'' = JObj enc"
  shows "(truthy (objGet enc ''row'') \<or> \<not> truthy (objGet enc ''column'')
            \<longrightarrow> applyFaceting (JObj spec) = Inr (JObj spec))
       \<and> (\<forall>col. objGet enc ''column'' = JObj col \<and> \<not> truthy (objGet enc ''row'')
            \<longrightarrow> applyFaceting (JObj spec)
                  = Inr (JObj (objSet spec ''encoding''
                      (JObj (objDelete (objSet enc ''facet'' (JObj (objSet col ''columns'' (JNum 6))))
                               ''column'')))))"
  using assms by (auto simp: applyFaceting_def optionalProp_def deleteProp_def)

lemma resolveEncoding_color:
  assumes field: "resolveField fs enc = Some field"
    and nominal: "objGet (typedEncoding rt ct ''color'' enc field wt ap []) ''type'' = JStr ''nominal''"
    and superset: "set (map (\<lambda>r. cell r (field_name field)) wt) \<subset> set (field_domain field)"
    and resolved: "resolveEncoding rt ct fs wt ap ''color'' enc vg = Inr (e, vg1)"
  shows "\<exists>sc lg. objGet e ''scale'' = JObj sc \<and> objGet e ''legend'' = JObj lg
           \<and> objGet sc ''domain'' = primArr (jsSort rt (uniq (field_domain field)))
           \<and> objGet lg ''values'' = primArr (jsSort rt (uniq (map (\<lambda>r. cell r (field_name field)) wt)))"
proof -
  let ?b = "baseEncoding rt ct fs wt ap ''color'' enc"
  let ?t = "typedEncoding rt ct ''color'' enc field wt ap []"
  have b: "?b = colorEncoding rt field wt ?t"
    using field nominal by (rule baseEncoding_color)
  from colorEncoding_fits[OF superset, of rt ?t] obtain sc0 lg0 where
    sc0: "objGet ?b ''scale'' = JObj sc0" and lg0: "objGet ?b ''legend'' = JObj lg0"
    and dom: "objGet sc0 ''domain'' = primArr (jsSort rt (uniq (field_domain field)))"
    and leg: "objGet lg0 ''values''
                = primArr (jsSort rt (uniq (map (\<lambda>r. cell r (field_name field)) wt)))"
    unfolding b by blast
  from resolved obtain s where
    s: "sortEncoding rt ''color'' enc (resolveField fs enc) ?b vg = Inr s"
    and e: "e = schemeEncoding enc (stackEncoding enc (fst s))"
    by (auto simp: resolveEncoding_def bindE_Inr_iff)
  have s': "sortEncoding rt ''color'' enc (resolveField fs enc) ?b vg = Inr (fst s, snd s)"
    using s by simp
  have k1: "objGet (stackEncoding enc (fst s)) ''scale'' = objGet ?b ''scale''"
    using sortEncoding_keeps[OF s', of "''scale''"] by (simp add: stackEncoding_keeps)
  have k2: "objGet (stackEncoding enc (fst s)) ''legend'' = objGet ?b ''legend''"
    using sortEncoding_keeps[OF s', of "''legend''"] by (simp add: stackEncoding_keeps)
  from schemeEncoding_keeps_domain[of "stackEncoding enc (fst s)" sc0 enc] k1 sc0
  obtain sc where sc: "objGet e ''scale'' = JObj sc" "objGet sc ''domain'' = objGet sc0 ''domain''"
    unfolding e by auto
  have lg: "objGet e ''legend'' = JObj lg0"
    unfolding e by (simp add: schemeEncoding_keeps_legend k2 lg0)
  show ?thesis
    using sc lg dom leg by auto
qed

lemma objGet_JObj_present: "objGet e k = JObj x \<Longrightarrow> map_of e k \<noteq> None"
  by (auto simp: objGet_def split: option.splits)

lemma getAt_two:
  assumes "getAt path v = Inr (JObj m)" and "objGet m a = JObj m2"
  shows "getAt (path @ [KStr a, KStr b]) v = Inr (objGet m2 b)"
  using assms by (simp add: getAt_append)

text \<open>The default sort on strings is the sort of the strings.\<close>

lemma insort_key_map:
  "insort_key f (g x) (map g ys) = map g (insort_key (\<lambda>y. f (g y)) x ys)"
  by (induction ys) auto

lemma sort_key_map: "sort_key f (map g xs) = map g (sort_key (\<lambda>y. f (g y)) xs)"
  by (induction xs) (simp_all add: insort_key_map)

lemma jsSort_strings: "jsSort rt (map PStr ss) = map PStr (sort ss)"
proof -
  have a: "filter (\<lambda>v. v \<noteq> PUndef) (map PStr ss) = map PStr ss"
    by (induction ss) auto
  have b: "filter (\<lambda>v. v = PUndef) (map PStr ss) = []"
    by (induction ss) auto
  have c: "(\<lambda>y. primToString rt (PStr y)) = (\<lambda>y. y)"
    by (simp add: primToString_def)
  show ?thesis
    unfolding jsSort_def a b by (simp add: sort_key_map c)
qed

lemma uniq_map_inj: "inj f \<Longrightarrow> uniq (map f xs) = map f (uniq xs)"
proof (induction xs)
  case Nil then show ?case by simp
next
  case (Cons x xs)
  have "filter (\<lambda>y. y \<noteq> f x) (map f ys) = map f (filter (\<lambda>y. y \<noteq> x) ys)" for ys
    using Cons.prems by (induction ys) (auto dest: injD)
  then show ?case using Cons by simp
qed

lemma jsSort_uniq_strings:
  "jsSort rt (uniq (map PStr ss)) = map PStr (sort (uniq ss))"
  by (simp add: uniq_map_inj[of PStr] inj_def jsSort_strings)

subsection \<open>Writes that part ways\<close>

lemma diverge_append: "diverge p q \<Longrightarrow> diverge (p @ r) q"
  by (induction p q rule: diverge.induct) (auto split: if_splits)

lemma diverge_nonempty: "diverge p q \<Longrightarrow> p \<noteq> [] \<and> q \<noteq> []"
  by (cases p; cases q) auto

lemma getProp_setProp_other:
  assumes "setProp v a x = Inr v'" and "keyName b \<noteq> keyName a"
  shows "getProp v' b = getProp v b"
proof (cases "(v, a, x)" rule: setProp.cases)
  case (1 kvs s x0)
  then show ?thesis using assms by (auto simp: objGet_objSet)
next
  case (2 kvs n x0)
  then show ?thesis using assms by simp
next
  case (3 xs n x0)
  show ?thesis
  proof (cases b)
    case (KStr s)
    then show ?thesis using 3 assms by (auto split: if_splits)
  next
    case (KIdx m)
    then have "m \<noteq> n" using 3 assms(2) by auto
    then show ?thesis using 3 KIdx assms(1) by (auto split: if_splits)
  qed
next
  case (4 xs s x0)
  then show ?thesis using assms by simp
next
  case (5 p k x0)
  then show ?thesis using assms by simp
qed

lemma modifyAt_frame:
  assumes "modifyAt q f v = Inr v'"
    and "\<And>ref ref' b. f ref = Inr ref' \<Longrightarrow> keyName b \<noteq> keyName a \<Longrightarrow> getProp ref' b = getProp ref b"
    and "diverge p (q @ [a])"
  shows "getAt p v' = getAt p v"
  using assms(1,3)
proof (induction q arbitrary: p v v')
  case Nil
  then obtain b p' where p: "p = b # p'" and n: "keyName b \<noteq> keyName a"
    by (cases p) (auto split: if_splits)
  from Nil.prems(1) have "f v = Inr v'" by simp
  from assms(2)[OF this n] show ?case by (simp add: p)
next
  case (Cons k ks)
  from Cons.prems(1) obtain child child' where
    g: "getProp v k = Inr child" and m: "modifyAt ks f child = Inr child'"
    and s: "setProp v k child' = Inr v'"
    by (auto simp: bindE_Inr_iff)
  from Cons.prems(2) obtain b p' where p: "p = b # p'" by (cases p) auto
  show ?case
  proof (cases "b = k")
    case True
    then have d: "diverge p' (ks @ [a])" using Cons.prems(2) p by simp
    from Cons.IH[OF m d] have "getAt p' child' = getAt p' child" .
    then show ?thesis using p True g getProp_setProp[OF s] by simp
  next
    case False
    then have "keyName b \<noteq> keyName k" using Cons.prems(2) p by simp
    from getProp_setProp_other[OF s this] show ?thesis by (simp add: p)
  qed
qed

lemma modifyAt_setProp_frame:
  assumes "modifyAt q (\<lambda>ref. setProp ref a x) v = Inr v'" and "diverge p (q @ [a])"
  shows "getAt p v' = getAt p v"
  using assms(1) _ assms(2) by (rule modifyAt_frame) (rule getProp_setProp_other)

lemma fillPath_frame:
  assumes "fillPath e path v = Inr v'" and "diverge p path"
  shows "getAt p v' = getAt p v"
proof -
  have ne: "path \<noteq> []" using assms(2) diverge_nonempty by blast
  then have p: "butlast path @ [last path] = path" by simp
  have lk: "(if path = [] then KStr ''undefined'' else last path) = last path" using ne by simp
  let ?f = "\<lambda>ref. bindE (getProp ref (last path)) (\<lambda>cur.
           if isString cur
           then setProp ref (last path) (objGet e ''field'')
           else (let prebuiltEntries = (if truthy cur then entriesOf cur else [])
                 in setProp ref (last path) (JObj (fromEntries (prebuiltEntries @ e)))))"
  from assms(1) have m: "modifyAt (butlast path) ?f v = Inr v'"
    unfolding fillPath_def Let_def lk .
  have f: "getProp ref' b = getProp ref b"
    if "?f ref = Inr ref'" and "keyName b \<noteq> keyName (last path)" for ref ref' b
    using that by (auto simp: bindE_Inr_iff Let_def split: if_splits dest: getProp_setProp_other)
  have d: "diverge p (butlast path @ [last path])" using assms(2) by (simp only: p)
  show ?thesis
    using m f d by (rule modifyAt_frame)
qed

lemma fillPaths_frame:
  assumes "fillPaths e qs v = Inr v'" and "list_all (diverge p) qs"
  shows "getAt p v' = getAt p v"
  using assms
proof (induction qs arbitrary: v)
  case Nil
  then show ?case by simp
next
  case (Cons q qs)
  from Cons.prems(1) obtain v1 where a: "fillPath e q v = Inr v1" and b: "fillPaths e qs v1 = Inr v'"
    by (auto simp: bindE_Inr_iff)
  from Cons.prems(2) have d: "diverge p q" and ds: "list_all (diverge p) qs" by simp_all
  show ?case using Cons.IH[OF b ds] fillPath_frame[OF a d] by simp
qed

lemma sortEncoding_vg:
  assumes "sortEncoding rt ch enc field e vg = Inr (e', vg')"
  shows "vg' = vg \<or> (\<exists>n. setOrder n vg = Inr vg')"
  using assms
  by (auto simp: sortEncoding_def customSort_def Let_def bindE_Inr_iff
      split: if_splits option.splits sum.splits error.splits)

lemma getAt_JUndef: "getAt p JUndef = Inr x \<Longrightarrow> x = JUndef"
  by (cases p) auto

lemma getAt_falsy: "\<not> truthy enc \<Longrightarrow> getAt (c # p) enc = Inr x \<Longrightarrow> x = JUndef"
proof (cases enc)
  case (JPrim pr)
  assume a: "\<not> truthy enc" and g: "getAt (c # p) enc = Inr x"
  show ?thesis using a g JPrim by (cases pr) (auto dest: getAt_JUndef)
qed auto

lemma getAt_empty_object: "getAt (c # p) (JObj []) = Inr x \<Longrightarrow> x = JUndef"
  by (auto simp: objGet_def dest: getAt_JUndef)

lemma setOrder_cases:
  assumes s: "setOrder n v = Inr v'" and d: "diverge p [KStr ''encoding'', KStr ''order'']"
  shows "getAt p v' = getAt p v
       \<or> ((\<forall>x. getAt p v = Inr x \<longrightarrow> x = JUndef) \<and> (\<forall>x. getAt p v' = Inr x \<longrightarrow> x = JUndef))"
proof -
  from s obtain enc vg1 enc'' where
    g: "getProp v (KStr ''encoding'') = Inr enc"
    and s1: "setProp v (KStr ''encoding'') (if truthy enc then enc else JObj []) = Inr vg1"
    and s2: "setProp (if truthy enc then enc else JObj []) (KStr ''order'')
               (JObj [(''field'', JStr (''color_'' @ n @ ''_sort_index''))]) = Inr enc''"
    and s3: "setProp vg1 (KStr ''encoding'') enc'' = Inr v'"
    by (auto simp: setOrder_def Let_def bindE_Inr_iff)
  from d obtain b p' where p: "p = b # p'" by (cases p) auto
  show ?thesis
  proof (cases "b = KStr ''encoding''")
    case False
    then have k: "keyName b \<noteq> keyName (KStr ''encoding'')" using d p by simp
    have "getProp v' b = getProp v b"
      using getProp_setProp_other[OF s3 k] getProp_setProp_other[OF s1 k] by simp
    then show ?thesis by (simp add: p)
  next
    case True
    then have d': "diverge p' [KStr ''order'']" using d p by simp
    then obtain c p'' where p': "p' = c # p''" by (cases p') auto
    have k: "keyName c \<noteq> keyName (KStr ''order'')" using d' p' by (auto split: if_splits)
    have a: "getAt p v' = getAt p' (if truthy enc then enc else JObj [])"
      using getProp_setProp[OF s3] getProp_setProp_other[OF s2 k] by (simp add: p True p')
    have b: "getAt p v = getAt p' enc" using g by (simp add: p True)
    show ?thesis
    proof (cases "truthy enc")
      case True
      then show ?thesis using a b by simp
    next
      case False
      have "\<forall>x. getAt p v = Inr x \<longrightarrow> x = JUndef"
        using b False getAt_falsy[of enc c p''] by (simp add: p')
      moreover have "\<forall>x. getAt p v' = Inr x \<longrightarrow> x = JUndef"
        using a False getAt_empty_object[of c p''] by (simp add: p')
      ultimately show ?thesis by blast
    qed
  qed
qed

lemma setOrder_holdsAt:
  assumes "setOrder n v = Inr v'" and "diverge p [KStr ''encoding'', KStr ''order'']"
    and "Q JUndef" and "holdsAt Q p v"
  shows "holdsAt Q p v'"
  using setOrder_cases[OF assms(1,2)] assms(3,4)
  by (auto simp: holdsAt_def split: sum.splits)

lemma setOrder_frame:
  assumes "setOrder n v = Inr v'" and "diverge p [KStr ''encoding'', KStr ''order'']"
    and "getAt p v = Inr x" and "x \<noteq> JUndef"
  shows "getAt p v' = Inr x"
  using setOrder_cases[OF assms(1,2)] assms(3,4) by auto

lemma processChannel_parts:
  assumes "processChannel rt ct t fs wt ap ch enc v = Inr v'"
  obtains e0 v1 where
    "sortEncoding rt ch enc (resolveField fs enc) (baseEncoding rt ct fs wt ap ch enc) v = Inr (e0, v1)"
    and "applyEncoding t ch (schemeEncoding enc (stackEncoding enc e0)) v1 = Inr v'"
  using assms
  by (auto simp: processChannel_def resolveEncoding_def bindE_Inr_iff)

lemma applyEncoding_frame:
  assumes "applyEncoding t ch e v = Inr v'" and "list_all (diverge p) (channelPaths t ch)"
  shows "getAt p v' = getAt p v"
  using assms
  by (auto simp: applyEncoding_def channelPaths_def split: if_splits option.splits
      dest: fillPaths_frame)

lemma processChannel_holdsAt:
  assumes pc: "processChannel rt ct t fs wt ap ch enc v = Inr v'"
    and d: "list_all (diverge p) (channelPaths t ch)"
    and o: "diverge p [KStr ''encoding'', KStr ''order'']"
    and q: "Q JUndef" and h: "holdsAt Q p v"
  shows "holdsAt Q p v'"
proof -
  from pc obtain e0 v1 where
    s: "sortEncoding rt ch enc (resolveField fs enc) (baseEncoding rt ct fs wt ap ch enc) v = Inr (e0, v1)"
    and a: "applyEncoding t ch (schemeEncoding enc (stackEncoding enc e0)) v1 = Inr v'"
    by (rule processChannel_parts)
  have "holdsAt Q p v1"
    using sortEncoding_vg[OF s] setOrder_holdsAt[OF _ o q h] h by auto
  then show ?thesis using applyEncoding_frame[OF a d] by (simp add: holdsAt_def)
qed

lemma processChannel_frame:
  assumes pc: "processChannel rt ct t fs wt ap ch enc v = Inr v'"
    and d: "list_all (diverge p) (channelPaths t ch)"
    and o: "diverge p [KStr ''encoding'', KStr ''order'']"
    and g: "getAt p v = Inr x" and x: "x \<noteq> JUndef"
  shows "getAt p v' = Inr x"
proof -
  from pc obtain e0 v1 where
    s: "sortEncoding rt ch enc (resolveField fs enc) (baseEncoding rt ct fs wt ap ch enc) v = Inr (e0, v1)"
    and a: "applyEncoding t ch (schemeEncoding enc (stackEncoding enc e0)) v1 = Inr v'"
    by (rule processChannel_parts)
  have "getAt p v1 = Inr x"
    using sortEncoding_vg[OF s] setOrder_frame[OF _ o g x] g by auto
  then show ?thesis using applyEncoding_frame[OF a d] by simp
qed

lemma processChannels_holdsAt:
  assumes "processChannels rt ct t fs wt ap entries v = Inr v'"
    and "list_all (\<lambda>entry. list_all (diverge p) (channelPaths t (fst entry))) entries"
    and "diverge p [KStr ''encoding'', KStr ''order'']"
    and "Q JUndef" and "holdsAt Q p v"
  shows "holdsAt Q p v'"
  using assms(1,2,5)
proof (induction entries arbitrary: v)
  case Nil
  then show ?case by simp
next
  case (Cons entry entries)
  from Cons.prems(1) obtain v1 where
    a: "processChannel rt ct t fs wt ap (fst entry) (snd entry) v = Inr v1"
    and b: "processChannels rt ct t fs wt ap entries v1 = Inr v'"
    by (auto simp: bindE_Inr_iff)
  from Cons.prems(2) have d: "list_all (diverge p) (channelPaths t (fst entry))"
    and ds: "list_all (\<lambda>entry. list_all (diverge p) (channelPaths t (fst entry))) entries"
    by simp_all
  from processChannel_holdsAt[OF a d assms(3,4) Cons.prems(3)] have "holdsAt Q p v1" .
  from Cons.IH[OF b ds this] show ?case .
qed

lemma processChannels_frame:
  assumes "processChannels rt ct t fs wt ap entries v = Inr v'"
    and "list_all (\<lambda>entry. list_all (diverge p) (channelPaths t (fst entry))) entries"
    and "diverge p [KStr ''encoding'', KStr ''order'']"
    and "getAt p v = Inr x" and "x \<noteq> JUndef"
  shows "getAt p v' = Inr x"
  using assms(1,2,4)
proof (induction entries arbitrary: v)
  case Nil
  then show ?case by simp
next
  case (Cons entry entries)
  from Cons.prems(1) obtain v1 where
    a: "processChannel rt ct t fs wt ap (fst entry) (snd entry) v = Inr v1"
    and b: "processChannels rt ct t fs wt ap entries v1 = Inr v'"
    by (auto simp: bindE_Inr_iff)
  from Cons.prems(2) have d: "list_all (diverge p) (channelPaths t (fst entry))"
    and ds: "list_all (\<lambda>entry. list_all (diverge p) (channelPaths t (fst entry))) entries"
    by simp_all
  from processChannel_frame[OF a d assms(3) Cons.prems(3) assms(5)] have "getAt p v1 = Inr x" .
  from Cons.IH[OF b ds this] show ?case .
qed

lemma channelPaths_other:
  assumes "ch \<noteq> c0"
  shows "set (channelPaths t ch) \<subseteq> set (otherPaths t c0)"
proof (cases "map_of (paths t) ch")
  case None
  then show ?thesis by (simp add: channelPaths_def)
next
  case (Some po)
  then have "(ch, po) \<in> set (paths t)" by (rule map_of_SomeD)
  then show ?thesis using assms Some by (force simp: channelPaths_def otherPaths_def)
qed

lemma other_entries_diverge:
  assumes "list_all (diverge p) (otherPaths t c0)" and "c0 \<notin> fst ` set entries"
  shows "list_all (\<lambda>entry. list_all (diverge p) (channelPaths t (fst entry))) entries"
proof -
  have "list_all (diverge p) (channelPaths t (fst entry))" if "entry \<in> set entries" for entry
  proof -
    have "fst entry \<noteq> c0" using that assms(2) by auto
    from channelPaths_other[OF this] show ?thesis using assms(1) by (auto simp: list_all_iff)
  qed
  then show ?thesis by (simp add: list_all_iff)
qed

lemma objGet_objDelete_other: "k' \<noteq> k \<Longrightarrow> objGet (objDelete kvs k) k' = objGet kvs k'"
  by (induction kvs) (auto simp: objGet_def objDelete_def)


lemma getProp_deleteProp_other:
  "deleteProp v k = Inr v' \<Longrightarrow> keyName b \<noteq> k \<Longrightarrow> getProp v' b = getProp v b"
  by (auto simp: deleteProp_def objGet_objDelete_other split: json.splits if_splits)

lemma setProp_top_frame:
  assumes "setProp v (KStr k) x = Inr v'" and "diverge p [KStr k]"
  shows "getAt p v' = getAt p v"
proof -
  from assms(2) obtain b p' where p: "p = b # p'" and n: "keyName b \<noteq> keyName (KStr k)"
    by (cases p) (auto split: if_splits)
  from getProp_setProp_other[OF assms(1) n] show ?thesis by (simp add: p)
qed

lemma applyFaceting_frame:
  assumes a: "applyFaceting v = Inr v'"
    and df: "diverge p [KStr ''encoding'', KStr ''facet'']"
    and dc: "diverge p [KStr ''encoding'', KStr ''column'']"
  shows "getAt p v' = getAt p v"
proof -
  from a obtain enc col row where
    g: "getProp v (KStr ''encoding'') = Inr enc"
    and c: "optionalProp enc ''column'' = Inr col" and r: "optionalProp enc ''row'' = Inr row"
    and rest: "(if truthy col \<and> \<not> truthy row
                then bindE (setProp col (KStr ''columns'') (JNum 6)) (\<lambda>facet.
                     bindE (setProp enc (KStr ''facet'') facet) (\<lambda>enc1.
                     bindE (deleteProp enc1 ''column'') (\<lambda>enc2.
                       setProp v (KStr ''encoding'') enc2)))
                else Inr v) = Inr v'"
    by (auto simp: applyFaceting_def bindE_Inr_iff)
  show ?thesis
  proof (cases "truthy col \<and> \<not> truthy row")
    case False
    then show ?thesis using rest by auto
  next
    case True
    with rest obtain facet enc1 enc2 where
      s1: "setProp enc (KStr ''facet'') facet = Inr enc1"
      and s2: "deleteProp enc1 ''column'' = Inr enc2"
      and s3: "setProp v (KStr ''encoding'') enc2 = Inr v'"
      by (auto simp: bindE_Inr_iff)
    from df obtain b p' where p: "p = b # p'" by (cases p) auto
    have same: "b = KStr ''encoding'' \<Longrightarrow> diverge p' [KStr ''facet'']"
      and other: "b \<noteq> KStr ''encoding'' \<Longrightarrow> keyName b \<noteq> keyName (KStr ''encoding'')"
      using df p by simp_all
    show ?thesis
    proof (cases "b = KStr ''encoding''")
      case False
      from getProp_setProp_other[OF s3 other[OF False]] show ?thesis by (simp add: p)
    next
      case True
      from same[OF True] obtain c p'' where p': "p' = c # p''" and kf: "keyName c \<noteq> ''facet''"
        by (cases p') (auto split: if_splits)
      have "diverge p' [KStr ''column'']" using dc p True by simp
      then have kc: "keyName c \<noteq> ''column''" using p' by (auto split: if_splits)
      have "getProp enc2 c = getProp enc c"
        using getProp_deleteProp_other[OF s2 kc] getProp_setProp_other[OF s1, of c] kf by simp
      then show ?thesis using g getProp_setProp[OF s3] by (simp add: p True p')
    qed
  qed
qed

lemma rangedDotPlotPost_frame:
  assumes "rangedDotPlotPost v tbl = Inr v'"
    and "diverge p [KStr ''layer'', KIdx 0, KStr ''encoding'', KStr ''detail'']"
  shows "getAt p v' = getAt p v"
proof -
  have m: "getAt p u' = getAt p u"
    if "modifyAt [KStr ''layer'', KIdx 0, KStr ''encoding''] (\<lambda>ref. setProp ref (KStr ''detail'') x) u = Inr u'"
    for u u' x
    using that by (rule modifyAt_setProp_frame) (simp add: assms(2))
  show ?thesis
    using assms(1) unfolding rangedDotPlotPost_def
    by (auto simp: bindE_Inr_iff simp del: modifyAt.simps split: if_splits dest: m)
qed

lemma forceNominal_frame:
  assumes "forceNominal c v = Inr v'" and "diverge p [KStr ''encoding'', KStr c, KStr ''type'']"
  shows "getAt p v' = getAt p v"
proof -
  have m: "getAt p u' = getAt p u"
    if "modifyAt [KStr ''encoding'', KStr c] (\<lambda>ref. setProp ref (KStr ''type'') x) u = Inr u'"
    for u u' x
    using that by (rule modifyAt_setProp_frame) (simp add: assms(2))
  show ?thesis
    using assms(1) unfolding forceNominal_def
    by (auto simp: bindE_Inr_iff simp del: modifyAt.simps split: if_splits dest: m)
qed

lemma runSteps_frame:
  assumes "runSteps steps v = Inr v'"
    and "\<And>s u u'. s \<in> set steps \<Longrightarrow> s u = Inr u' \<Longrightarrow> getAt p u' = getAt p u"
  shows "getAt p v' = getAt p v"
  using assms
proof (induction steps arbitrary: v)
  case Nil
  then show ?case by simp
next
  case (Cons step steps)
  show ?case
  proof (cases "step v")
    case (Inl e)
    then show ?thesis using Cons.prems(1) by (cases e) simp_all
  next
    case (Inr v1)
    then have r: "runSteps steps v1 = Inr v'" using Cons.prems(1) by simp
    have "getAt p v' = getAt p v1" using r Cons.prems(2) by (intro Cons.IH) auto
    moreover have "getAt p v1 = getAt p v" using Inr Cons.prems(2)[of step v v1] by simp
    ultimately show ?thesis by simp
  qed
qed

lemma pyramidPost_frame:
  assumes a: "pyramidPost rt v tbl = Inr v'"
    and d1: "diverge p [KStr ''hconcat'', KIdx 0, KStr ''transform'']"
    and d2: "diverge p [KStr ''hconcat'', KIdx 0, KStr ''title'']"
    and d3: "diverge p [KStr ''hconcat'', KIdx 1, KStr ''transform'']"
    and d4: "diverge p [KStr ''hconcat'', KIdx 1, KStr ''title'']"
    and d5: "diverge p [KStr ''hconcat'', KIdx 0, KStr ''encoding'', KStr ''x'', KStr ''scale'', KStr ''domain'']"
    and d6: "diverge p [KStr ''hconcat'', KIdx 1, KStr ''encoding'', KStr ''x'', KStr ''scale'']"
  shows "getAt p v' = getAt p v"
proof -
  have m: "getAt p u' = getAt p u"
    if "modifyAt q (\<lambda>ref. setProp ref k x) u = Inr u'" and "diverge p (q @ [k])"
    for u u' x q k
    using that by (rule modifyAt_setProp_frame)
  show ?thesis
  proof (cases "bindE (getAt [KStr ''hconcat'', KIdx 0, KStr ''encoding'', KStr ''color'', KStr ''field''] v)
                  (keyOfJson rt)")
    case (Inl e)
    then show ?thesis using a by (cases e) (simp_all add: pyramidPost_def)
  next
    case (Inr colorField)
    then have "runSteps
           [modifyAt [KStr ''hconcat'', KIdx 0]
              (\<lambda>h. setProp h (KStr ''transform'')
                 (datumFilter rt colorField (nthOrUndef (uniq (map (\<lambda>r. cell r colorField) tbl)) 0))),
            modifyAt [KStr ''hconcat'', KIdx 0]
              (\<lambda>h. setProp h (KStr ''title'')
                 (JPrim (nthOrUndef (uniq (map (\<lambda>r. cell r colorField) tbl)) 0))),
            modifyAt [KStr ''hconcat'', KIdx 1]
              (\<lambda>h. setProp h (KStr ''transform'')
                 (datumFilter rt colorField (nthOrUndef (uniq (map (\<lambda>r. cell r colorField) tbl)) 1))),
            modifyAt [KStr ''hconcat'', KIdx 1]
              (\<lambda>h. setProp h (KStr ''title'')
                 (JPrim (nthOrUndef (uniq (map (\<lambda>r. cell r colorField) tbl)) 1))),
            (\<lambda>vg. bindE (pyramidDomain rt colorField
                            (nthOrUndef (uniq (map (\<lambda>r. cell r colorField) tbl)) 0)
                            (nthOrUndef (uniq (map (\<lambda>r. cell r colorField) tbl)) 1) tbl vg) (\<lambda>dom.
               modifyAt [KStr ''hconcat'', KIdx 0, KStr ''encoding'', KStr ''x'', KStr ''scale'']
                 (\<lambda>sc. setProp sc (KStr ''domain'') dom) vg)),
            (\<lambda>vg. bindE (pyramidDomain rt colorField
                            (nthOrUndef (uniq (map (\<lambda>r. cell r colorField) tbl)) 0)
                            (nthOrUndef (uniq (map (\<lambda>r. cell r colorField) tbl)) 1) tbl vg) (\<lambda>dom.
               modifyAt [KStr ''hconcat'', KIdx 1, KStr ''encoding'', KStr ''x'']
                 (\<lambda>x. setProp x (KStr ''scale'') (JObj [(''domain'', dom)])) vg))]
           v = Inr v'"
      using a unfolding pyramidPost_def Let_def
      by (simp del: modifyAt.simps runSteps.simps getAt.simps)
    then show ?thesis
    proof (rule runSteps_frame)
      fix s u u'
      assume "s \<in> set
           [modifyAt [KStr ''hconcat'', KIdx 0]
              (\<lambda>h. setProp h (KStr ''transform'')
                 (datumFilter rt colorField (nthOrUndef (uniq (map (\<lambda>r. cell r colorField) tbl)) 0))),
            modifyAt [KStr ''hconcat'', KIdx 0]
              (\<lambda>h. setProp h (KStr ''title'')
                 (JPrim (nthOrUndef (uniq (map (\<lambda>r. cell r colorField) tbl)) 0))),
            modifyAt [KStr ''hconcat'', KIdx 1]
              (\<lambda>h. setProp h (KStr ''transform'')
                 (datumFilter rt colorField (nthOrUndef (uniq (map (\<lambda>r. cell r colorField) tbl)) 1))),
            modifyAt [KStr ''hconcat'', KIdx 1]
              (\<lambda>h. setProp h (KStr ''title'')
                 (JPrim (nthOrUndef (uniq (map (\<lambda>r. cell r colorField) tbl)) 1))),
            (\<lambda>vg. bindE (pyramidDomain rt colorField
                            (nthOrUndef (uniq (map (\<lambda>r. cell r colorField) tbl)) 0)
                            (nthOrUndef (uniq (map (\<lambda>r. cell r colorField) tbl)) 1) tbl vg) (\<lambda>dom.
               modifyAt [KStr ''hconcat'', KIdx 0, KStr ''encoding'', KStr ''x'', KStr ''scale'']
                 (\<lambda>sc. setProp sc (KStr ''domain'') dom) vg)),
            (\<lambda>vg. bindE (pyramidDomain rt colorField
                            (nthOrUndef (uniq (map (\<lambda>r. cell r colorField) tbl)) 0)
                            (nthOrUndef (uniq (map (\<lambda>r. cell r colorField) tbl)) 1) tbl vg) (\<lambda>dom.
               modifyAt [KStr ''hconcat'', KIdx 1, KStr ''encoding'', KStr ''x'']
                 (\<lambda>x. setProp x (KStr ''scale'') (JObj [(''domain'', dom)])) vg))]"
        and "s u = Inr u'"
      then show "getAt p u' = getAt p u"
        using d1 d2 d3 d4 d5 d6
        by (auto simp: bindE_Inr_iff simp del: modifyAt.simps getAt.simps dest!: m)
    qed
  qed
qed

lemma post_frame:
  assumes "post = rangedDotPlotPost \<or> post = boxplotPost \<or> post = pyramidPost rt \<or> post = heatMapPost"
    and "post v tbl = Inr v'" and "list_all (diverge p) postWrites"
  shows "getAt p v' = getAt p v"
proof -
  from assms(3) have
    d0: "diverge p [KStr ''layer'', KIdx 0, KStr ''encoding'', KStr ''detail'']"
    and dx: "diverge p [KStr ''encoding'', KStr ''x'', KStr ''type'']"
    and dy: "diverge p [KStr ''encoding'', KStr ''y'', KStr ''type'']"
    and d1: "diverge p [KStr ''hconcat'', KIdx 0, KStr ''transform'']"
    and d2: "diverge p [KStr ''hconcat'', KIdx 0, KStr ''title'']"
    and d3: "diverge p [KStr ''hconcat'', KIdx 1, KStr ''transform'']"
    and d4: "diverge p [KStr ''hconcat'', KIdx 1, KStr ''title'']"
    and d5: "diverge p [KStr ''hconcat'', KIdx 0, KStr ''encoding'', KStr ''x'', KStr ''scale'', KStr ''domain'']"
    and d6: "diverge p [KStr ''hconcat'', KIdx 1, KStr ''encoding'', KStr ''x'', KStr ''scale'']"
    by (simp_all add: postWrites_def)
  from assms(1) consider "post = rangedDotPlotPost" | "post = boxplotPost" | "post = pyramidPost rt"
    | "post = heatMapPost" by blast
  then show ?thesis
  proof cases
    case 1
    then show ?thesis using assms(2) rangedDotPlotPost_frame[OF _ d0] by simp
  next
    case 2
    then show ?thesis using assms(2) forceNominal_frame[OF _ dx] by (simp add: boxplotPost_def)
  next
    case 3
    then show ?thesis using assms(2) pyramidPost_frame[OF _ d1 d2 d3 d4 d5 d6] by simp
  next
    case 4
    then show ?thesis using assms(2) forceNominal_frame[OF _ dx] forceNominal_frame[OF _ dy]
      by (auto simp: heatMapPost_def bindE_Inr_iff)
  qed
qed

lemma assemble_tail_frame:
  assumes a: "assembleWithTemplate rt ct t em fs wt ap = Inr (ct', spec)"
    and post: "postProcessor t = None \<or> postProcessor t = Some rangedDotPlotPost
               \<or> postProcessor t = Some boxplotPost \<or> postProcessor t = Some (pyramidPost rt)
               \<or> postProcessor t = Some heatMapPost"
  shows "\<exists>vg1. processChannels rt ct t fs wt ap em (template t) = Inr vg1
           \<and> (\<forall>p. list_all (diverge p) (stepWrites @ postWrites) \<longrightarrow> getAt p spec = getAt p vg1)"
proof -
  from a obtain vg1 vg2 vg3 where
    p1: "processChannels rt ct t fs wt ap em (template t) = Inr vg1"
    and p2: "applyFaceting vg1 = Inr vg2"
    and p3: "(case postProcessor t of None \<Rightarrow> Inr vg2 | Some post \<Rightarrow> post vg2 wt) = Inr vg3"
    and p4: "setProp vg3 (KStr ''data'')
               (JObj [(''values'', JArr (map rowObj (dataValues rt fs wt)))]) = Inr spec"
    by (auto simp: assembleWithTemplate_def bindE_Inr_iff)
  have "getAt p spec = getAt p vg1" if d: "list_all (diverge p) (stepWrites @ postWrites)" for p
  proof -
    from d have df: "diverge p [KStr ''encoding'', KStr ''facet'']"
      and dc: "diverge p [KStr ''encoding'', KStr ''column'']"
      and dd: "diverge p [KStr ''data'']" and dp: "list_all (diverge p) postWrites"
      by (simp_all add: stepWrites_def)
    have 1: "getAt p vg2 = getAt p vg1" using p2 df dc by (rule applyFaceting_frame)
    have 2: "getAt p vg3 = getAt p vg2"
    proof (cases "postProcessor t")
      case None
      then show ?thesis using p3 by simp
    next
      case (Some f)
      then have "f = rangedDotPlotPost \<or> f = boxplotPost \<or> f = pyramidPost rt \<or> f = heatMapPost"
        using post by auto
      moreover have "f vg2 wt = Inr vg3" using p3 Some by simp
      ultimately show ?thesis using dp by (rule post_frame)
    qed
    have 3: "getAt p spec = getAt p vg3" using p4 dd by (rule setProp_top_frame)
    show ?thesis using 1 2 3 by simp
  qed
  with p1 show ?thesis by blast
qed

subsection \<open>The colour channel\<close>

lemma list_all_diverge_append: "list_all (diverge p) qs \<Longrightarrow> list_all (diverge (p @ r)) qs"
  by (simp add: list_all_iff diverge_append)

lemma fillPath_reads:
  assumes w: "fillPath e path v = Inr v'" and ne: "path \<noteq> []"
  shows "\<exists>cur. getAt path v = Inr cur"
proof -
  have p: "path = butlast path @ [last path]" using ne by simp
  have lk: "(if path = [] then KStr ''undefined'' else last path) = last path" using ne by simp
  let ?f = "\<lambda>ref. bindE (getProp ref (last path)) (\<lambda>cur.
           if isString cur
           then setProp ref (last path) (objGet e ''field'')
           else (let prebuiltEntries = (if truthy cur then entriesOf cur else [])
                 in setProp ref (last path) (JObj (fromEntries (prebuiltEntries @ e)))))"
  from w have "modifyAt (butlast path) ?f v = Inr v'"
    unfolding fillPath_def Let_def lk .
  from modifyAt_result[OF this] obtain c c' where
    c: "getAt (butlast path) v = Inr c" and f: "?f c = Inr c'" by blast
  from f obtain cur where "getProp c (last path) = Inr cur" by (auto simp: bindE_Inr_iff)
  moreover have "getAt path v = getProp c (last path)"
    by (subst p) (simp add: getAt_append c bindE_def split: sum.splits)
  ultimately show ?thesis by simp
qed

lemma fillPath_writes:
  assumes w: "fillPath e path v = Inr v'" and ne: "path \<noteq> []"
    and ns: "holdsAt (\<lambda>x. \<not> isString x) path v"
    and dist: "distinct (map fst e)" and k: "map_of e k \<noteq> None"
  shows "getAt (path @ [KStr k]) v' = Inr (objGet e k)"
    and "holdsAt (\<lambda>x. \<not> isString x) path v'"
proof -
  from fillPath_reads[OF w ne] obtain cur where g: "getAt path v = Inr cur" by blast
  then have s: "\<not> isString cur" using ns by (simp add: holdsAt_def)
  from fillPath_result[OF w g s ne]
  have r: "getAt path v' = Inr (JObj (fromEntries ((if truthy cur then entriesOf cur else []) @ e)))" .
  show "getAt (path @ [KStr k]) v' = Inr (objGet e k)"
    using r objGet_fromEntries[OF dist k] by (simp add: getAt_append)
  show "holdsAt (\<lambda>x. \<not> isString x) path v'" using r by (simp add: holdsAt_def)
qed

lemma fillPaths_writes:
  assumes "fillPaths e qs v = Inr v'"
    and "list_all (\<lambda>q. q = path \<or> diverge path q) qs"
    and ne: "path \<noteq> []" and dist: "distinct (map fst e)" and k: "map_of e k \<noteq> None"
    and "holdsAt (\<lambda>x. \<not> isString x) path v"
    and "path \<in> set qs \<or> getAt (path @ [KStr k]) v = Inr (objGet e k)"
  shows "getAt (path @ [KStr k]) v' = Inr (objGet e k)"
  using assms(1,2,6,7)
proof (induction qs arbitrary: v)
  case Nil
  then show ?case by simp
next
  case (Cons q qs)
  from Cons.prems(1) obtain v1 where a: "fillPath e q v = Inr v1" and b: "fillPaths e qs v1 = Inr v'"
    by (auto simp: bindE_Inr_iff)
  from Cons.prems(2) have q: "q = path \<or> diverge path q"
    and qs: "list_all (\<lambda>q. q = path \<or> diverge path q) qs" by simp_all
  show ?case
  proof (cases "q = path")
    case True
    from fillPath_writes[OF a[unfolded True] ne Cons.prems(3) dist k]
    have "getAt (path @ [KStr k]) v1 = Inr (objGet e k)"
      and "holdsAt (\<lambda>x. \<not> isString x) path v1" .
    then show ?thesis using Cons.IH[OF b qs] by simp
  next
    case False
    then have d: "diverge path q" using q by simp
    have 1: "getAt path v1 = getAt path v" using a d by (rule fillPath_frame)
    have 2: "getAt (path @ [KStr k]) v1 = getAt (path @ [KStr k]) v"
      using a diverge_append[OF d] by (rule fillPath_frame)
    have h: "holdsAt (\<lambda>x. \<not> isString x) path v1"
      using Cons.prems(3) 1 by (simp add: holdsAt_def)
    have "path \<in> set qs \<or> getAt (path @ [KStr k]) v1 = Inr (objGet e k)"
      using Cons.prems(4) False 2 by auto
    from Cons.IH[OF b qs h this] show ?thesis .
  qed
qed

lemma processChannel_color:
  assumes pc: "processChannel rt ct t fs wt ap ''color'' enc v = Inr v'"
    and field: "resolveField fs enc = Some field"
    and nominal: "objGet (typedEncoding rt ct ''color'' enc field wt ap []) ''type'' = JStr ''nominal''"
    and superset: "set (map (\<lambda>r. cell r (field_name field)) wt) \<subset> set (field_domain field)"
    and path: "path \<in> set (channelPaths t ''color'')"
    and own: "list_all (\<lambda>q. q = path \<or> diverge path q) (channelPaths t ''color'')"
    and o: "diverge path [KStr ''encoding'', KStr ''order'']"
    and ns: "holdsAt (\<lambda>x. \<not> isString x) path v"
  shows "getAt (path @ [KStr ''scale'', KStr ''domain'']) v'
           = Inr (primArr (jsSort rt (uniq (field_domain field))))"
    and "getAt (path @ [KStr ''legend'', KStr ''values'']) v'
           = Inr (primArr (jsSort rt (uniq (map (\<lambda>r. cell r (field_name field)) wt))))"
proof -
  from pc obtain e0 v1 where
    s: "sortEncoding rt ''color'' enc (resolveField fs enc) (baseEncoding rt ct fs wt ap ''color'' enc) v
          = Inr (e0, v1)"
    and a: "applyEncoding t ''color'' (schemeEncoding enc (stackEncoding enc e0)) v1 = Inr v'"
    by (rule processChannel_parts)
  let ?e = "schemeEncoding enc (stackEncoding enc e0)"
  have r: "resolveEncoding rt ct fs wt ap ''color'' enc v = Inr (?e, v1)"
    using s by (simp add: resolveEncoding_def)
  from resolveEncoding_color[OF field nominal superset r] obtain sc lg where
    sc: "objGet ?e ''scale'' = JObj sc" and lg: "objGet ?e ''legend'' = JObj lg"
    and dom: "objGet sc ''domain'' = primArr (jsSort rt (uniq (field_domain field)))"
    and leg: "objGet lg ''values'' = primArr (jsSort rt (uniq (map (\<lambda>r. cell r (field_name field)) wt)))"
    by blast
  have ks: "map_of ?e ''scale'' \<noteq> None" using sc by (rule objGet_JObj_present)
  have kl: "map_of ?e ''legend'' \<noteq> None" using lg by (rule objGet_JObj_present)
  have ne: "?e \<noteq> []" using ks by auto
  have dist: "distinct (map fst ?e)" using r by (rule resolveEncoding_distinct)
  have pne: "path \<noteq> []" using o diverge_nonempty by blast
  have f: "fillPaths ?e (channelPaths t ''color'') v1 = Inr v'"
    using a ne path by (auto simp: applyEncoding_def channelPaths_def split: option.splits)
  have h1: "holdsAt (\<lambda>x. \<not> isString x) path v1"
    using sortEncoding_vg[OF s] setOrder_holdsAt[OF _ o _ ns] ns by auto
  have gs: "getAt (path @ [KStr ''scale'']) v' = Inr (JObj sc)"
    using fillPaths_writes[OF f own pne dist ks h1] path sc by simp
  have gl: "getAt (path @ [KStr ''legend'']) v' = Inr (JObj lg)"
    using fillPaths_writes[OF f own pne dist kl h1] path lg by simp
  have "getAt ((path @ [KStr ''scale'']) @ [KStr ''domain'']) v' = Inr (objGet sc ''domain'')"
    unfolding getAt_append[of "path @ [KStr ''scale'']"] gs by simp
  then show "getAt (path @ [KStr ''scale'', KStr ''domain'']) v'
           = Inr (primArr (jsSort rt (uniq (field_domain field))))"
    using dom by simp
  have "getAt ((path @ [KStr ''legend'']) @ [KStr ''values'']) v' = Inr (objGet lg ''values'')"
    unfolding getAt_append[of "path @ [KStr ''legend'']"] gl by simp
  then show "getAt (path @ [KStr ''legend'', KStr ''values'']) v'
           = Inr (primArr (jsSort rt (uniq (map (\<lambda>r. cell r (field_name field)) wt))))"
    using leg by simp
qed

lemma split_entry:
  assumes "distinct (map fst em)" and "(c, enc) \<in> set em"
  obtains before after where "em = before @ (c, enc) # after"
    and "c \<notin> fst ` set before" and "c \<notin> fst ` set after"
proof -
  from assms(2) obtain before after where e: "em = before @ (c, enc) # after"
    by (auto dest: split_list)
  have "c \<notin> fst ` set before" "c \<notin> fst ` set after"
    using assms(1) unfolding e by auto
  with e show ?thesis by (rule that)
qed

lemma color_stability_template:
  assumes a: "assembleWithTemplate rt ct t em fs wt ap = Inr (ct', spec)"
    and post: "postProcessor t = None \<or> postProcessor t = Some rangedDotPlotPost
               \<or> postProcessor t = Some boxplotPost \<or> postProcessor t = Some (pyramidPost rt)
               \<or> postProcessor t = Some heatMapPost"
    and path: "path \<in> set (channelPaths t ''color'')" and own: "ownPath t ''color'' path"
    and keys: "distinct (map fst em)" and bound: "(''color'', enc) \<in> set em"
    and field: "resolveField fs enc = Some field"
    and nominal: "objGet (typedEncoding rt ct ''color'' enc field wt ap []) ''type'' = JStr ''nominal''"
    and superset: "set (map (\<lambda>r. cell r (field_name field)) wt) \<subset> set (field_domain field)"
  shows "getAt (path @ [KStr ''scale'', KStr ''domain'']) spec
           = Inr (primArr (jsSort rt (uniq (field_domain field))))
       \<and> getAt (path @ [KStr ''legend'', KStr ''values'']) spec
           = Inr (primArr (jsSort rt (uniq (map (\<lambda>r. cell r (field_name field)) wt))))"
proof -
  from own have others: "list_all (diverge path) (otherPaths t ''color'')"
    and steps: "list_all (diverge path) (stepWrites @ postWrites)"
    and mine: "list_all (\<lambda>q. q = path \<or> diverge path q) (channelPaths t ''color'')"
    and ns: "holdsAt (\<lambda>x. \<not> isString x) path (template t)"
    by (simp_all add: ownPath_def)
  from steps have o: "diverge path [KStr ''encoding'', KStr ''order'']"
    by (simp add: stepWrites_def)
  from assemble_tail_frame[OF a post] obtain vg1 where
    p1: "processChannels rt ct t fs wt ap em (template t) = Inr vg1"
    and tail: "\<And>p. list_all (diverge p) (stepWrites @ postWrites) \<Longrightarrow> getAt p spec = getAt p vg1"
    by blast
  from keys bound obtain before after where em: "em = before @ (''color'', enc) # after"
    and nb: "''color'' \<notin> fst ` set before" and na: "''color'' \<notin> fst ` set after"
    by (rule split_entry)
  from p1 obtain va vb where
    b1: "processChannels rt ct t fs wt ap before (template t) = Inr va"
    and b2: "processChannel rt ct t fs wt ap ''color'' enc va = Inr vb"
    and b3: "processChannels rt ct t fs wt ap after vb = Inr vg1"
    unfolding em by (auto simp: processChannels_append bindE_Inr_iff)
  have nsa: "holdsAt (\<lambda>x. \<not> isString x) path va"
    using b1 other_entries_diverge[OF others nb] o _ ns by (rule processChannels_holdsAt) simp
  note g = processChannel_color[OF b2 field nominal superset path mine o nsa]
  have fr: "getAt (path @ r) spec = Inr x" if "getAt (path @ r) vb = Inr x" and "x \<noteq> JUndef" for r x
  proof -
    have "getAt (path @ r) vg1 = Inr x"
      using b3 other_entries_diverge[OF list_all_diverge_append[OF others] na]
        diverge_append[OF o] that
      by (rule processChannels_frame)
    then show ?thesis using tail[OF list_all_diverge_append[OF steps]] by simp
  qed
  show ?thesis using fr[OF g(1)] fr[OF g(2)] by (simp add: primArr_def)
qed

lemma registry_posts_all:
  "list_all (\<lambda>t. postProcessor t = None \<or> postProcessor t = Some rangedDotPlotPost
               \<or> postProcessor t = Some boxplotPost \<or> postProcessor t = Some (pyramidPost rt)
               \<or> postProcessor t = Some heatMapPost) (concat (map snd (CHART_TEMPLATES rt)))"
  by (simp add: CHART_TEMPLATES_def tablePlots_def scatterPlots_def barCharts_def lineCharts_def
      tableCharts_def customCharts_def)

lemma registry_color_all:
  "list_all (\<lambda>t. list_all (ownPath t ''color'') (channelPaths t ''color''))
     (concat (map snd (CHART_TEMPLATES rt)))"
  by (simp add: CHART_TEMPLATES_def tablePlots_def scatterPlots_def barCharts_def lineCharts_def
      tableCharts_def customCharts_def encodingPaths_def pyramidTemplate_def
      ownPath_def channelPaths_def otherPaths_def stepWrites_def postWrites_def holdsAt_def
      objGet_def natToString_def)

lemma assembleVegaChart_template:
  "chartType \<noteq> ''Table'' \<Longrightarrow> getChartTemplate rt chartType = Some t \<Longrightarrow>
   assembleVegaChart rt chartType em fs wt mnv ap = assembleWithTemplate rt chartType t em fs wt ap"
  by (simp add: assembleVegaChart_def assembleWithTemplate_def)

lemma table_template_paths: "getChartTemplate rt ''Table'' = Some t \<Longrightarrow> paths t = []"
  by (auto simp: getChartTemplate_def CHART_TEMPLATES_def tablePlots_def)

text \<open>
  C8 (as amended). On a chart type whose template has a path for the colour channel: for
  a field bound to the colour channel whose display type is nominal and whose domain is a
  strict superset of the values in the working rows, whatever else the encoding map
  binds, the specification that the assembler returns holds, at every colour path of the
  template, the whole domain, without repetition and in the default sort order, as the
  domain of the scale, and the values of the working rows, in that order too, as the
  values of the legend. On strings that order is the order of the strings. The keys of
  the encoding map are distinct, as the keys of an object are.
\<close>

theorem color_domain_stability:
  assumes tmpl: "getChartTemplate rt chartType = Some t"
    and cpaths: "map_of (paths t) ''color'' = Some ps" and cp: "path \<in> set (pathsOf ps)"
    and keys: "distinct (map fst encodingMap)" and bound: "(''color'', encoding) \<in> set encodingMap"
    and field: "resolveField fieldItems encoding = Some field"
    and nominal: "objGet (typedEncoding rt chartType ''color'' encoding field workingTable
                            aggrPreprocessed []) ''type'' = JStr ''nominal''"
    and superset: "set (map (\<lambda>r. cell r (field_name field)) workingTable) \<subset> set (field_domain field)"
    and returns: "assembleVegaChart rt chartType encodingMap fieldItems workingTable maxNominalValues
                    aggrPreprocessed = Inr (ct, spec)"
  shows "getAt (path @ [KStr ''scale'', KStr ''domain'']) spec
           = Inr (primArr (jsSort rt (uniq (field_domain field))))
       \<and> getAt (path @ [KStr ''legend'', KStr ''values'']) spec
           = Inr (primArr (jsSort rt (uniq (map (\<lambda>r. cell r (field_name field)) workingTable))))
       \<and> (\<forall>ds. field_domain field = map PStr ds \<longrightarrow>
             jsSort rt (uniq (field_domain field)) = map PStr (sort (uniq ds)))
       \<and> (\<forall>vs. map (\<lambda>r. cell r (field_name field)) workingTable = map PStr vs \<longrightarrow>
             jsSort rt (uniq (map (\<lambda>r. cell r (field_name field)) workingTable)) = map PStr (sort (uniq vs)))"
proof -
  have nt: "chartType \<noteq> ''Table''" using tmpl cpaths table_template_paths by auto
  have mem: "t \<in> set (concat (map snd (CHART_TEMPLATES rt)))"
    using tmpl unfolding getChartTemplate_def by (rule find_Some_set)
  have path': "path \<in> set (channelPaths t ''color'')"
    using cpaths cp by (simp add: channelPaths_def)
  have own: "ownPath t ''color'' path"
    using registry_color_all[of rt] mem path' by (auto simp: list_all_iff)
  have post: "postProcessor t = None \<or> postProcessor t = Some rangedDotPlotPost
               \<or> postProcessor t = Some boxplotPost \<or> postProcessor t = Some (pyramidPost rt)
               \<or> postProcessor t = Some heatMapPost"
    using registry_posts_all[of rt, unfolded list_all_iff] mem by (rule bspec)
  have a: "assembleWithTemplate rt chartType t encodingMap fieldItems workingTable aggrPreprocessed
             = Inr (ct, spec)"
    using returns assembleVegaChart_template[OF nt tmpl] by simp
  have "getAt (path @ [KStr ''scale'', KStr ''domain'']) spec
           = Inr (primArr (jsSort rt (uniq (field_domain field))))
       \<and> getAt (path @ [KStr ''legend'', KStr ''values'']) spec
           = Inr (primArr (jsSort rt (uniq (map (\<lambda>r. cell r (field_name field)) workingTable))))"
    using a post path' own keys bound field nominal superset by (rule color_stability_template)
  then show ?thesis by (simp add: jsSort_uniq_strings)
qed



lemma exRegion_resolved: "resolveField [exRegion, exKind] exColorEncoding = Some exRegion"
  by code_simp

lemma exRegion_nominal:
  "objGet (typedEncoding refRuntime ''Bar Chart'' ''color'' exColorEncoding exRegion exRows False [])
     ''type'' = JStr ''nominal''"
  by code_simp

lemma exRegion_superset:
  "set (map (\<lambda>r. cell r (field_name exRegion)) exRows) \<subset> set (field_domain exRegion)"
  by code_simp

lemma exRegion_sorted:
  "primArr (jsSort refRuntime (uniq (field_domain exRegion)))
     = JArr [JStr ''A'', JStr ''B'', JStr ''C'', JStr ''D'']"
  "primArr (jsSort refRuntime (uniq (map (\<lambda>r. cell r (field_name exRegion)) exRows)))
     = JArr [JStr ''A'', JStr ''C'']"
  by code_simp+

lemma exBar_registered: "getChartTemplate refRuntime ''Bar Chart'' = Some exBarTemplate"
  by (simp add: getChartTemplate_def CHART_TEMPLATES_def tablePlots_def scatterPlots_def
      barCharts_def exBarTemplate_def)

lemma exColor_assembled:
  "assembleVegaChart refRuntime ''Bar Chart'' [(''color'', exColorEncoding)] [exRegion, exKind]
     exRows 68 False
   = Inr (''Bar Chart'', exColorSpec)"
  by code_simp

text \<open>
  The example of the specification: the domain D, B, A, C and rows that show C and A, on
  the Bar Chart.
\<close>

theorem color_domain_stability_witness:
  "getChartTemplate refRuntime ''Bar Chart'' = Some exBarTemplate
   \<and> map_of (paths exBarTemplate) ''color'' = Some (OnePath [KStr ''encoding'', KStr ''color''])
   \<and> field_domain exRegion = [PStr ''D'', PStr ''B'', PStr ''A'', PStr ''C'']
   \<and> map (\<lambda>r. cell r (field_name exRegion)) exRows = [PStr ''C'', PStr ''A'']
   \<and> assembleVegaChart refRuntime ''Bar Chart'' [(''color'', exColorEncoding)] [exRegion, exKind]
        exRows 68 False
      = Inr (''Bar Chart'', exColorSpec)
   \<and> getAt ([KStr ''encoding'', KStr ''color''] @ [KStr ''scale'', KStr ''domain'']) exColorSpec
      = Inr (JArr [JStr ''A'', JStr ''B'', JStr ''C'', JStr ''D''])
   \<and> getAt ([KStr ''encoding'', KStr ''color''] @ [KStr ''legend'', KStr ''values'']) exColorSpec
      = Inr (JArr [JStr ''A'', JStr ''C''])"
proof -
  have d: "field_domain exRegion = [PStr ''D'', PStr ''B'', PStr ''A'', PStr ''C'']"
    by (simp add: exRegion_def)
  have r: "map (\<lambda>r. cell r (field_name exRegion)) exRows = [PStr ''C'', PStr ''A'']"
    by code_simp
  have cp: "map_of (paths exBarTemplate) ''color'' = Some (OnePath [KStr ''encoding'', KStr ''color''])"
    by (simp add: exBarTemplate_def)
  have p: "[KStr ''encoding'', KStr ''color''] \<in> set (pathsOf (OnePath [KStr ''encoding'', KStr ''color'']))"
    by simp
  have k: "distinct (map fst [(''color'', exColorEncoding)])" by simp
  have b: "(''color'', exColorEncoding) \<in> set [(''color'', exColorEncoding)]" by simp
  from color_domain_stability[OF exBar_registered cp p k b exRegion_resolved exRegion_nominal
      exRegion_superset exColor_assembled]
  have "getAt ([KStr ''encoding'', KStr ''color''] @ [KStr ''scale'', KStr ''domain'']) exColorSpec
          = Inr (JArr [JStr ''A'', JStr ''B'', JStr ''C'', JStr ''D''])"
    and "getAt ([KStr ''encoding'', KStr ''color''] @ [KStr ''legend'', KStr ''values'']) exColorSpec
          = Inr (JArr [JStr ''A'', JStr ''C''])"
    unfolding exRegion_sorted by blast+
  then show ?thesis using exBar_registered cp d r exColor_assembled by blast
qed

text \<open>
  C8, as stated, fails where the template has no path for the colour channel. On the
  Grouped Bar Chart (channels \<open>x\<close>, \<open>y\<close> and \<open>group\<close>) with the field \<open>Region\<close> bound to
  \<open>color\<close> and to \<open>group\<close>, the field is nominal and its domain D, B, A, C is a strict
  superset of the values C, A of the rows; the assembled colour encoding is the one that
  \<open>group\<close> writes, and it has no scale and no legend.
\<close>

theorem color_without_path_counterexample:
  "field_domain exRegion = [PStr ''D'', PStr ''B'', PStr ''A'', PStr ''C'']
   \<and> exRows = [[(''Region'', PStr ''C''), (''Kind'', PStr ''U'')],
                [(''Region'', PStr ''A''), (''Kind'', PStr ''V'')]]
   \<and> resolveField [exRegion, exKind] exColorEncoding = Some exRegion
   \<and> objGet (typedEncoding refRuntime ''Grouped Bar Chart'' ''color'' exColorEncoding exRegion exRows
                False []) ''type'' = JStr ''nominal''
   \<and> assembleVegaChart refRuntime ''Grouped Bar Chart''
        [(''group'', exColorEncoding), (''color'', exColorEncoding)] [exRegion, exKind] exRows 68 False
      = Inr (''Grouped Bar Chart'',
             JObj [(''mark'', JStr ''bar''),
                   (''encoding'',
                    JObj [(''xOffset'', JObj [(''field'', JStr ''Region''), (''type'', JStr ''nominal'')]),
                          (''color'', JObj [(''field'', JStr ''Region''), (''type'', JStr ''nominal'')])]),
                   (''data'',
                    JObj [(''values'',
                           JArr [JObj [(''Region'', JStr ''C''), (''Kind'', JStr ''U'')],
                                 JObj [(''Region'', JStr ''A''), (''Kind'', JStr ''V'')]])])])"
  by code_simp

subsection \<open>The facet channels\<close>


















lemma registry_not_single_faceted:
  "list_all (\<lambda>t. \<not> singleFaceted t) (concat (map snd (CHART_TEMPLATES rt)))"
  by (simp add: CHART_TEMPLATES_def tablePlots_def scatterPlots_def barCharts_def lineCharts_def
      tableCharts_def customCharts_def encodingPaths_def singleFaceted_def channelPaths_def)




section \<open>Assembly leaves its inputs alone\<close>

subsection \<open>Rules for programs that frame\<close>

lemma framesI:
  assumes "\<And>s r s'. localClosed s \<Longrightarrow> m s = (r, s') \<Longrightarrow>
             shared s' = shared s \<and> localClosed s' \<and> (\<forall>x. r = Inr x \<longrightarrow> Q x)"
  shows "frames Q m"
  unfolding frames_def
proof (intro allI impI)
  fix s assume c: "localClosed s"
  obtain r s' where m: "m s = (r, s')" by (cases "m s")
  from assms[OF c m] show "case m s of (r, s') \<Rightarrow> shared s' = shared s \<and> localClosed s'
                       \<and> (case r of Inl e \<Rightarrow> True | Inr x \<Rightarrow> Q x)"
    by (simp add: m split: sum.splits)
qed

lemma framesD:
  assumes "frames Q m" "localClosed s" "m s = (r, s')"
  shows "shared s' = shared s" "localClosed s'" "\<And>x. r = Inr x \<Longrightarrow> Q x"
proof -
  from assms(1) have "localClosed s \<longrightarrow> (case m s of (r, s') \<Rightarrow> shared s' = shared s \<and> localClosed s'
                       \<and> (case r of Inl e \<Rightarrow> True | Inr x \<Rightarrow> Q x))"
    unfolding frames_def by (rule spec)
  from this assms(2) have "case m s of (r, s') \<Rightarrow> shared s' = shared s \<and> localClosed s'
                       \<and> (case r of Inl e \<Rightarrow> True | Inr x \<Rightarrow> Q x)"
    by (rule mp)
  then have a: "shared s' = shared s \<and> localClosed s' \<and> (case r of Inl e \<Rightarrow> True | Inr x \<Rightarrow> Q x)"
    by (simp add: assms(3))
  show "shared s' = shared s" "localClosed s'" using a by simp_all
  show "\<And>x. r = Inr x \<Longrightarrow> Q x" using a by simp
qed

lemma frames_returnH: "Q x \<Longrightarrow> frames Q (returnH x)"
  by (rule framesI) (auto simp: returnH_def)

lemma frames_throwH: "frames Q (throwH e)"
  by (rule framesI) (auto simp: throwH_def)

lemma frames_bindH:
  assumes m: "frames P m" and f: "\<And>x. P x \<Longrightarrow> frames Q (f x)"
  shows "frames Q (bindH m f)"
proof (rule framesI)
  fix s r s' assume c: "localClosed s" and b: "bindH m f s = (r, s')"
  obtain r1 s1 where m1: "m s = (r1, s1)" by (cases "m s")
  note d = framesD[OF m c m1]
  show "shared s' = shared s \<and> localClosed s' \<and> (\<forall>x. r = Inr x \<longrightarrow> Q x)"
  proof (cases r1)
    case (Inl e)
    then show ?thesis using b m1 d by (auto simp: bindH_def)
  next
    case (Inr x)
    then have fx: "f x s1 = (r, s')" using b m1 by (simp add: bindH_def)
    from d(3)[OF Inr] have "P x" .
    from framesD[OF f[OF this] d(2) fx] d(1) show ?thesis by auto
  qed
qed

lemma frames_weaken:
  assumes "frames P m" and "\<And>x. P x \<Longrightarrow> Q x"
  shows "frames Q m"
proof (rule framesI)
  fix s r s' assume c: "localClosed s" and m: "m s = (r, s')"
  from framesD[OF assms(1) c m] assms(2)
  show "shared s' = shared s \<and> localClosed s' \<and> (\<forall>x. r = Inr x \<longrightarrow> Q x)" by blast
qed

lemma frames_state:
  assumes "\<And>s. frames Q (g s)"
  shows "frames Q (\<lambda>s. g s s)"
proof (rule framesI)
  fix s r s' assume c: "localClosed s" and m: "g s s = (r, s')"
  from framesD[OF assms c m]
  show "shared s' = shared s \<and> localClosed s' \<and> (\<forall>x. r = Inr x \<longrightarrow> Q x)" by blast
qed

lemma frames_catchH:
  assumes "frames P m"
  shows "frames (\<lambda>u. True) (catchH m)"
proof (rule framesI)
  fix s r s' assume c: "localClosed s" and m: "catchH m s = (r, s')"
  obtain r1 s1 where m1: "m s = (r1, s1)" by (cases "m s")
  have "s' = s1" using m m1 by (auto simp: catchH_def split: sum.splits error.splits)
  with framesD(1,2)[OF assms c m1]
  show "shared s' = shared s \<and> localClosed s' \<and> (\<forall>x. r = Inr x \<longrightarrow> True)" by simp
qed

lemma frames_pure:
  assumes "\<And>s. snd (m s) = s" and "\<And>s x. fst (m s) = Inr x \<Longrightarrow> Q x"
  shows "frames Q m"
proof (rule framesI)
  fix s r s' assume "localClosed s" "m s = (r, s')"
  then show "shared s' = shared s \<and> localClosed s' \<and> (\<forall>x. r = Inr x \<longrightarrow> Q x)"
    using assms(1)[of s] assms(2)[of s] by auto
qed

lemma localVal_simps [simp]:
  "localVal (HPrim p)" "localVal (HRef (Local n))" "\<not> localVal (HRef (Shared n))"
  by (simp_all add: localVal_def)

lemma localClosed_objAt:
  "localClosed s \<Longrightarrow> objAt s (Local n) = Some obj \<Longrightarrow> list_all localVal (objVals obj)"
  by (auto simp: localClosed_def objAt_def list_all_length split: if_splits)

lemma localVal_hGet: "list_all localVal (map snd kvs) \<Longrightarrow> localVal (hGet kvs k)"
  by (auto simp: hGet_def list_all_iff split: option.splits dest!: map_of_SomeD)

lemma getPropH_pure: "snd (getPropH v k s) = s"
  by (auto simp: getPropH_def returnH_def throwH_def
      split: hval.splits prim.splits option.splits hobj.splits pkey.splits)

lemma frames_getPropH: "localVal v \<Longrightarrow> frames localVal (getPropH v k)"
proof (rule framesI)
  fix s r s' assume lv: "localVal v" and c: "localClosed s" and g: "getPropH v k s = (r, s')"
  have s': "s' = s" using getPropH_pure[of v k s] g by simp
  have "localVal x" if "r = Inr x" for x
  proof (cases v)
    case (HPrim p)
    then show ?thesis using g that
      by (auto simp: getPropH_def returnH_def throwH_def split: prim.splits)
  next
    case (HRef a)
    then obtain n where a: "a = Local n" using lv by (cases a) auto
    show ?thesis
    proof (cases "objAt s (Local n)")
      case None
      then show ?thesis using g that HRef a by (simp add: getPropH_def)
    next
      case (Some obj)
      from localClosed_objAt[OF c Some] have l: "list_all localVal (objVals obj)" .
      show ?thesis using g that HRef a Some l
        by (cases obj)
           (auto simp: getPropH_def objVals_def localVal_hGet list_all_length
               split: pkey.splits if_splits)
    qed
  qed
  then show "shared s' = shared s \<and> localClosed s' \<and> (\<forall>x. r = Inr x \<longrightarrow> localVal x)"
    using s' c by simp
qed

lemma frames_getPropH_any: "frames (\<lambda>v. True) (getPropH v k)"
  by (rule frames_pure) (simp_all add: getPropH_pure)

lemma list_all_update: "list_all P xs \<Longrightarrow> P x \<Longrightarrow> list_all P (xs[i := x])"
  using set_update_subset_insert[of xs i x] by (auto simp: list_all_iff)

lemma localClosed_putObj:
  assumes "localClosed s" and "list_all localVal (objVals obj)"
  shows "localClosed (putObj (Local n) obj s)" and "shared (putObj (Local n) obj s) = shared s"
  using assms
  by (simp_all add: localClosed_def putObj_def list_all_update)

lemma localVal_objSet:
  "list_all localVal (map snd kvs) \<Longrightarrow> localVal x \<Longrightarrow> list_all localVal (map snd (objSet kvs k x))"
  by (induction kvs) auto

lemma frames_setPropH: "localVal v \<Longrightarrow> localVal x \<Longrightarrow> frames (\<lambda>u. True) (setPropH v k x)"
proof (rule framesI)
  fix s r s' assume lv: "localVal v" and lx: "localVal x" and c: "localClosed s"
    and g: "setPropH v k x s = (r, s')"
  show "shared s' = shared s \<and> localClosed s' \<and> (\<forall>x. r = Inr x \<longrightarrow> True)"
  proof (cases v)
    case (HPrim p)
    then show ?thesis using g c by (auto simp: setPropH_def throwH_def)
  next
    case (HRef a)
    then obtain n where a: "a = Local n" using lv by (cases a) auto
    show ?thesis
    proof (cases "objAt s (Local n)")
      case None
      then show ?thesis using g c HRef a by (auto simp: setPropH_def)
    next
      case (Some obj)
      from localClosed_objAt[OF c Some] have l: "list_all localVal (objVals obj)" .
      show ?thesis
      proof (cases obj)
        case (HObj kvs)
        have "list_all localVal (objVals (HObj (objSet kvs name x)))" for name
          using l HObj lx by (simp add: objVals_def localVal_objSet)
        then show ?thesis using g c HRef a Some HObj localClosed_putObj
          by (auto simp: setPropH_def split: pkey.splits)
      next
        case (HArr xs)
        have "list_all localVal (objVals (HArr (xs[i := x])))" for i
          using l HArr lx by (simp add: objVals_def list_all_update)
        then show ?thesis using g c HRef a Some HArr localClosed_putObj
          by (auto simp: setPropH_def split: pkey.splits if_splits)
      qed
    qed
  qed
qed

lemma frames_deletePropH: "localVal v \<Longrightarrow> frames (\<lambda>u. True) (deletePropH v name)"
proof (rule framesI)
  fix s r s' assume lv: "localVal v" and c: "localClosed s" and g: "deletePropH v name s = (r, s')"
  show "shared s' = shared s \<and> localClosed s' \<and> (\<forall>x. r = Inr x \<longrightarrow> True)"
  proof (cases v)
    case (HPrim p)
    then show ?thesis using g c
      by (auto simp: deletePropH_def throwH_def returnH_def split: if_splits)
  next
    case (HRef a)
    then obtain n where a: "a = Local n" using lv by (cases a) auto
    show ?thesis
    proof (cases "objAt s (Local n)")
      case None
      then show ?thesis using g c HRef a by (auto simp: deletePropH_def)
    next
      case (Some obj)
      from localClosed_objAt[OF c Some] have l: "list_all localVal (objVals obj)" .
      show ?thesis
      proof (cases obj)
        case (HObj kvs)
        have "list_all localVal (objVals (HObj (objDelete kvs name)))"
          using l HObj by (auto simp: objVals_def objDelete_def list_all_iff)
        then show ?thesis using g c HRef a Some HObj localClosed_putObj
          by (auto simp: deletePropH_def)
      next
        case (HArr xs)
        then show ?thesis using g c HRef a Some by (auto simp: deletePropH_def)
      qed
    qed
  qed
qed

lemma frames_allocH: "list_all localVal (objVals obj) \<Longrightarrow> frames localVal (allocH obj)"
  by (rule framesI) (auto simp: allocH_def localClosed_def)

subsection \<open>Loops, copies and reads\<close>

lemmas frames_binds =
  frames_bindH[where P = localVal]
  frames_bindH[where P = "\<lambda>u::unit. True"]
  frames_bindH[where P = "\<lambda>kvs::(string \<times> hval) list. list_all localVal (map snd kvs)"]
  frames_bindH[where P = "list_all localVal"]
  frames_bindH[where P = "\<lambda>x::FieldItem list. True"]
  frames_bindH[where P = "\<lambda>x::row list. True"]
  frames_bindH[where P = "\<lambda>x::string. True"]
  frames_bindH[where P = "\<lambda>x::string list. True"]
  frames_bindH[where P = "\<lambda>x::(string \<times> json) list. True"]
  frames_bindH[where P = "\<lambda>x::json. True"]

lemma frames_mapH:
  assumes "\<And>x. x \<in> set xs \<Longrightarrow> frames Q (f x)"
  shows "frames (list_all Q) (mapH f xs)"
  using assms
proof (induction xs)
  case Nil
  show ?case by (simp add: frames_returnH)
next
  case (Cons x xs)
  have 1: "frames Q (f x)" using Cons.prems by simp
  have 2: "frames (list_all Q) (mapH f xs)" using Cons by simp
  have "frames (list_all Q) (bindH (f x) (\<lambda>y. bindH (mapH f xs) (\<lambda>ys. returnH (y # ys))))"
    apply (rule frames_bindH[OF 1])
    apply (rule frames_bindH[OF 2])
    apply (rule frames_returnH)
    apply simp
    done
  then show ?case by simp
qed

lemma frames_forEachH:
  assumes "\<And>x. x \<in> set xs \<Longrightarrow> frames (\<lambda>u. True) (f x)"
  shows "frames (\<lambda>u. True) (forEachH f xs)"
  using assms
proof (induction xs)
  case Nil
  show ?case by (simp add: frames_returnH)
next
  case (Cons x xs)
  have 1: "frames (\<lambda>u. True) (f x)" using Cons.prems by simp
  have 2: "frames (\<lambda>u. True) (forEachH f xs)" using Cons by simp
  have "frames (\<lambda>u. True) (bindH (f x) (\<lambda>u. forEachH f xs))"
    by (rule frames_bindH[OF 1]) (rule 2)
  then show ?case by simp
qed

lemma frames_walkH: "localVal v \<Longrightarrow> frames localVal (walkH v ks)"
proof (induction ks arbitrary: v)
  case Nil
  then show ?case by (simp add: frames_returnH)
next
  case (Cons k ks)
  have "frames localVal (bindH (getPropH v k) (\<lambda>child. walkH child ks))"
    by (rule frames_bindH[OF frames_getPropH[OF Cons.prems]]) (rule Cons.IH)
  then show ?case by simp
qed

lemma entriesOfH_pure: "snd (entriesOfH v s) = s"
  by (auto simp: entriesOfH_def returnH_def split: hval.splits option.splits hobj.splits)

lemma frames_entriesOfH:
  "localVal v \<Longrightarrow> frames (\<lambda>kvs. list_all localVal (map snd kvs)) (entriesOfH v)"
proof (rule framesI)
  fix s r s' assume lv: "localVal v" and c: "localClosed s" and g: "entriesOfH v s = (r, s')"
  have s': "s' = s" using entriesOfH_pure[of v s] g by simp
  have "list_all localVal (map snd x)" if "r = Inr x" for x
  proof (cases v)
    case (HPrim p)
    then show ?thesis using g that by (auto simp: entriesOfH_def returnH_def)
  next
    case (HRef a)
    then obtain n where a: "a = Local n" using lv by (cases a) auto
    show ?thesis
    proof (cases "objAt s (Local n)")
      case None
      then show ?thesis using g that HRef a by (simp add: entriesOfH_def)
    next
      case (Some obj)
      from localClosed_objAt[OF c Some] have l: "list_all localVal (objVals obj)" .
      show ?thesis using g that HRef a Some l
        by (cases obj) (auto simp: entriesOfH_def objVals_def map_snd_zip_take)
    qed
  qed
  then show "shared s' = shared s \<and> localClosed s'
               \<and> (\<forall>x. r = Inr x \<longrightarrow> list_all localVal (map snd x))"
    using s' c by simp
qed

lemma localVal_foldl_objSet:
  "list_all localVal (map snd acc) \<Longrightarrow> list_all localVal (map snd xs) \<Longrightarrow>
   list_all localVal (map snd (foldl (\<lambda>acc kv. objSet acc (fst kv) (snd kv)) acc xs))"
  by (induction xs arbitrary: acc) (simp_all add: localVal_objSet)

lemma localVal_fromEntries:
  "list_all localVal (map snd xs) \<Longrightarrow> list_all localVal (map snd (fromEntries xs))"
  unfolding fromEntries_def by (rule localVal_foldl_objSet) simp_all

lemma localVal_zip: "list_all P vs \<Longrightarrow> list_all P (map snd (zip ks vs))"
  by (auto simp: list_all_iff dest: set_zip_rightD)

lemma frames_cloneH: "frames localVal (cloneH fuel v)"
proof (induction fuel arbitrary: v)
  case 0
  show ?case by (cases v) (simp_all add: frames_returnH frames_throwH)
next
  case (Suc fuel)
  show ?case
  proof (cases v)
    case (HPrim p)
    then show ?thesis by (simp add: frames_returnH)
  next
    case (HRef r)
    have m: "frames (list_all localVal) (mapH (cloneH fuel) xs)" for xs
      by (rule frames_mapH) (rule Suc.IH)
    define g where "g = (\<lambda>s. case objAt s r of
         None \<Rightarrow> throwH Unmodelled
       | Some (HObj kvs) \<Rightarrow>
           bindH (mapH (cloneH fuel) (map snd kvs)) (\<lambda>vs. allocH (HObj (zip (map fst kvs) vs)))
       | Some (HArr xs) \<Rightarrow> bindH (mapH (cloneH fuel) xs) (\<lambda>vs. allocH (HArr vs)))"
    have eq: "cloneH (Suc fuel) (HRef r) = (\<lambda>s. g s s)"
      by (rule ext) (simp add: g_def throwH_def split: option.splits hobj.splits)
    have "frames localVal (g s)" for s
    proof (cases "objAt s r")
      case None
      then show ?thesis by (simp add: g_def frames_throwH)
    next
      case (Some obj)
      show ?thesis
      proof (cases obj)
        case (HObj kvs)
        have "frames localVal (bindH (mapH (cloneH fuel) (map snd kvs))
                 (\<lambda>vs. allocH (HObj (zip (map fst kvs) vs))))"
          by (rule frames_bindH[OF m], rule frames_allocH) (simp add: objVals_def localVal_zip)
        then show ?thesis using Some HObj by (simp add: g_def)
      next
        case (HArr xs)
        have "frames localVal (bindH (mapH (cloneH fuel) xs) (\<lambda>vs. allocH (HArr vs)))"
          by (rule frames_bindH[OF m], rule frames_allocH) (simp add: objVals_def)
        then show ?thesis using Some HArr by (simp add: g_def)
      qed
    qed
    then show ?thesis unfolding HRef eq by (rule frames_state)
  qed
qed

lemma frames_structuredCloneH: "frames localVal (structuredCloneH v)"
  unfolding structuredCloneH_def by (rule frames_state) (rule frames_cloneH)

lemma frames_storeJsonH: "frames localVal (storeJsonH t)"
proof (induction t rule: storeJsonH.induct)
  case (1 p)
  show ?case by (simp add: frames_returnH)
next
  case (2 xs)
  have m: "frames (list_all localVal) (mapH (\<lambda>m. m) (map storeJsonH xs))"
    by (rule frames_mapH) (auto dest: 2)
  have "frames localVal (bindH (mapH (\<lambda>m. m) (map storeJsonH xs)) (\<lambda>vs. allocH (HArr vs)))"
    by (rule frames_bindH[OF m], rule frames_allocH) (simp add: objVals_def)
  then show ?case by simp
next
  case (3 kvs)
  have m: "frames (list_all localVal) (mapH (\<lambda>m. m) (map (\<lambda>kv. storeJsonH (snd kv)) kvs))"
    by (rule frames_mapH) (auto dest: 3)
  have "frames localVal (bindH (mapH (\<lambda>m. m) (map (\<lambda>kv. storeJsonH (snd kv)) kvs))
           (\<lambda>vs. allocH (HObj (zip (map fst kvs) vs))))"
    by (rule frames_bindH[OF m], rule frames_allocH) (simp add: objVals_def localVal_zip)
  then show ?case by simp
qed

lemma frames_readJsonH: "frames (\<lambda>t. True) (readJsonH v)"
  by (rule frames_pure) (simp_all add: readJsonH_def split: option.splits)

lemma frames_readFieldsH: "frames (\<lambda>t. True) (readFieldsH v)"
  by (rule frames_pure) (simp_all add: readFieldsH_def split: option.splits)

lemma frames_readRowsH: "frames (\<lambda>t. True) (readRowsH v)"
  by (rule frames_pure) (simp_all add: readRowsH_def split: option.splits)

lemma frames_elementsH: "localVal v \<Longrightarrow> frames (list_all localVal) (elementsH v)"
proof (rule framesI)
  fix s r s' assume lv: "localVal v" and c: "localClosed s" and g: "elementsH v s = (r, s')"
  have s': "s' = s" using g by (auto simp: elementsH_def split: option.splits)
  have "list_all localVal x" if "r = Inr x" for x
  proof (cases v)
    case (HPrim p)
    then show ?thesis using g that by (auto simp: elementsH_def elementsOf_def)
  next
    case (HRef a)
    then obtain n where a: "a = Local n" using lv by (cases a) auto
    show ?thesis
    proof (cases "objAt s (Local n)")
      case None
      then show ?thesis using g that HRef a by (simp add: elementsH_def elementsOf_def)
    next
      case (Some obj)
      from localClosed_objAt[OF c Some] have l: "list_all localVal (objVals obj)" .
      show ?thesis using g that HRef a Some l
        by (cases obj) (auto simp: elementsH_def elementsOf_def objVals_def)
    qed
  qed
  then show "shared s' = shared s \<and> localClosed s' \<and> (\<forall>x. r = Inr x \<longrightarrow> list_all localVal x)"
    using s' c by simp
qed

lemma frames_storeEntriesH:
  "frames (\<lambda>kvs. list_all localVal (map snd kvs)) (storeEntriesH encodingObj)"
proof -
  have "frames (list_all (\<lambda>kv. localVal (snd kv)))
          (mapH (\<lambda>kv. bindH (storeJsonH (snd kv)) (\<lambda>v. returnH (fst kv, v))) encodingObj)"
    by (rule frames_mapH, rule frames_bindH[OF frames_storeJsonH], rule frames_returnH) simp
  then show ?thesis
    unfolding storeEntriesH_def by (rule frames_weaken) (simp add: list_all_iff)
qed

subsection \<open>The steps of the assembler\<close>

lemma frames_fillPathH:
  assumes e: "list_all localVal (map snd entries)" and v: "localVal vgObj"
  shows "frames (\<lambda>u. True) (fillPathH entries path vgObj)"
  unfolding fillPathH_def Let_def
  by (intro frames_binds frames_walkH v)
     (auto intro!: frames_binds frames_getPropH frames_setPropH frames_entriesOfH frames_returnH
        frames_allocH localVal_hGet e
        simp: objVals_def localVal_fromEntries e)

lemma frames_applyEncodingH:
  assumes v: "localVal vgObj"
  shows "frames (\<lambda>u. True) (applyEncodingH templatePaths channel encodingObj vgObj)"
  unfolding applyEncodingH_def
  by (auto intro!: frames_binds frames_returnH frames_throwH frames_storeEntriesH frames_forEachH
        frames_fillPathH v split: option.splits)

lemma frames_setOrderH:
  assumes v: "localVal vgObj"
  shows "frames (\<lambda>u. True) (setOrderH fieldName vgObj)"
  unfolding setOrderH_def
  by (auto intro!: frames_binds frames_returnH frames_getPropH frames_setPropH frames_allocH v
        simp: objVals_def)

lemma frames_customSortH:
  assumes v: "localVal vgObj"
  shows "frames (\<lambda>x. True) (customSortH rt channel encoding field sortOrder' encodingObj vgObj)"
  unfolding customSortH_def Let_def
  by (auto intro!: frames_binds frames_returnH frames_throwH frames_catchH frames_getPropH
        frames_setOrderH v
        split: option.splits sum.splits error.splits)

lemma frames_sortEncodingH:
  assumes v: "localVal vgObj"
  shows "frames (\<lambda>x. True) (sortEncodingH rt channel encoding field encodingObj vgObj)"
  unfolding sortEncodingH_def Let_def
  by (auto intro!: frames_returnH frames_customSortH v)

lemma frames_processChannelH:
  assumes v: "localVal vgObj"
  shows "frames (\<lambda>u. True)
           (processChannelH rt chartType templatePaths fieldsRef tableRef aggrPreprocessed
              channel encoding vgObj)"
  unfolding processChannelH_def
  by (intro frames_binds frames_readFieldsH frames_readRowsH frames_sortEncodingH
        frames_applyEncodingH v)

lemma frames_optionalPropH: "localVal v \<Longrightarrow> frames localVal (optionalPropH v k)"
  unfolding optionalPropH_def
  by (auto intro!: frames_returnH frames_getPropH)

lemma frames_applyFacetingH:
  assumes v: "localVal vgObj"
  shows "frames (\<lambda>u. True) (applyFacetingH vgObj)"
  unfolding applyFacetingH_def
  by (auto intro!: frames_binds frames_returnH frames_getPropH frames_optionalPropH
        frames_setPropH frames_deletePropH v)

lemma frames_jsonRoundTripH: "frames localVal (jsonRoundTripH v)"
  unfolding jsonRoundTripH_def
  by (intro frames_binds frames_readJsonH frames_storeJsonH)

lemma frames_typeOfEncodingH: "localVal v \<Longrightarrow> frames localVal (typeOfEncodingH v)"
  unfolding typeOfEncodingH_def
  by (auto intro!: frames_returnH frames_getPropH)

lemma frames_rangedDotPlotPostH:
  assumes v: "localVal vgSpec"
  shows "frames (\<lambda>u. True) (rangedDotPlotPostH vgSpec tableRef)"
  unfolding rangedDotPlotPostH_def
  by (auto intro!: frames_binds frames_returnH frames_getPropH frames_typeOfEncodingH
        frames_jsonRoundTripH frames_setPropH v)

lemma frames_forceNominalH:
  assumes v: "localVal vgSpec"
  shows "frames (\<lambda>u. True) (forceNominalH c vgSpec)"
  unfolding forceNominalH_def
  by (auto intro!: frames_binds frames_returnH frames_walkH frames_getPropH frames_setPropH v)

lemma frames_boxplotPostH:
  "localVal vgSpec \<Longrightarrow> frames (\<lambda>u. True) (boxplotPostH vgSpec tableRef)"
  unfolding boxplotPostH_def by (rule frames_forceNominalH)

lemma frames_heatMapPostH:
  "localVal vgSpec \<Longrightarrow> frames (\<lambda>u. True) (heatMapPostH vgSpec tableRef)"
  unfolding heatMapPostH_def by (intro frames_binds frames_forceNominalH)

lemma frames_keyOfH: "frames (\<lambda>x. True) (keyOfH rt v)"
  unfolding keyOfH_def by (auto intro!: frames_returnH frames_throwH split: hval.splits)

lemma frames_assignAtH:
  "localVal vgSpec \<Longrightarrow> localVal v \<Longrightarrow> frames (\<lambda>u. True) (assignAtH vgSpec path key v)"
  unfolding assignAtH_def
  by (auto intro!: frames_binds frames_walkH frames_setPropH)

lemma frames_pyramidPostH:
  assumes v: "localVal vgSpec"
  shows "frames (\<lambda>u. True) (pyramidPostH rt vgSpec tableRef)"
  unfolding pyramidPostH_def Let_def
  by (rule frames_catchH[where P = "\<lambda>u. True"])
     (auto intro!: frames_binds frames_getPropH frames_returnH frames_keyOfH frames_readRowsH
        frames_storeJsonH frames_assignAtH frames_allocH v simp: objVals_def)

lemma frames_keysH: "localVal r \<Longrightarrow> frames (\<lambda>x. True) (keysH r)"
  unfolding keysH_def
  by (auto intro!: frames_binds frames_returnH frames_throwH frames_entriesOfH)

lemma frames_dataValuesH: "frames localVal (dataValuesH rt fieldsRef tableRef)"
  unfolding dataValuesH_def
  by (auto intro!: frames_binds frames_structuredCloneH frames_elementsH frames_forEachH
        frames_keysH frames_readFieldsH frames_getPropH frames_setPropH frames_throwH
        frames_allocH
        simp: objVals_def list_all_iff split: hval.splits)

lemma frames_postProcessorOf:
  "postProcessorOf rt name = Some post \<Longrightarrow> localVal vg \<Longrightarrow> frames (\<lambda>u. True) (post vg tbl)"
  by (auto simp: postProcessorOf_def frames_rangedDotPlotPostH frames_boxplotPostH
        frames_pyramidPostH frames_heatMapPostH split: if_splits)

lemma postProcessorH_registry:
  "t \<in> set (registryH rt roots) \<Longrightarrow> postProcessorH t = Some post \<Longrightarrow>
     \<exists>name. postProcessorOf rt name = Some post"
  by (auto simp: registryH_def)

lemma frames_assembleVegaChartH:
  "frames (\<lambda>res. localVal (snd res))
     (assembleVegaChartH rt roots chartType encodingMap fieldsRef tableRef maxNominalValues
        aggrPreprocessed)"
proof (cases "chartType = ''Table''")
  case True
  then show ?thesis by (simp add: assembleVegaChartH_def frames_returnH)
next
  case False
  show ?thesis
  proof (cases "getChartTemplateH rt roots chartType")
    case None
    then show ?thesis using False by (simp add: assembleVegaChartH_def frames_throwH)
  next
    case (Some chartTemplate)
    then have mem: "chartTemplate \<in> set (registryH rt roots)"
      by (auto simp: getChartTemplateH_def find_Some_iff)
    have post: "frames (\<lambda>u. True)
                  (case postProcessorH chartTemplate of None \<Rightarrow> returnH ()
                   | Some post \<Rightarrow> post vgObj tableRef)" if "localVal vgObj" for vgObj
    proof (cases "postProcessorH chartTemplate")
      case None
      then show ?thesis by (simp add: frames_returnH)
    next
      case (Some p)
      from postProcessorH_registry[OF mem Some] obtain name
        where "postProcessorOf rt name = Some p" ..
      from frames_postProcessorOf[OF this that] show ?thesis using Some by simp
    qed
    have "frames (\<lambda>res. localVal (snd res))
            (bindH (structuredCloneH (templateH chartTemplate)) (\<lambda>vgObj.
               bindH (forEachH
                        (\<lambda>entry. processChannelH rt chartType (pathsH chartTemplate) fieldsRef tableRef
                                   aggrPreprocessed (fst entry) (snd entry) vgObj)
                        encodingMap) (\<lambda>u.
               bindH (applyFacetingH vgObj) (\<lambda>u.
               bindH (case postProcessorH chartTemplate of
                        None \<Rightarrow> returnH ()
                      | Some post \<Rightarrow> post vgObj tableRef) (\<lambda>u.
               bindH (dataValuesH rt fieldsRef tableRef) (\<lambda>values.
               bindH (allocH (HObj [(''values'', values)])) (\<lambda>dataObj.
               bindH (setPropH vgObj (KStr ''data'') dataObj) (\<lambda>u.
                 returnH (chartType, vgObj)))))))))"
      by (intro frames_binds frames_structuredCloneH frames_forEachH frames_processChannelH
            frames_applyFacetingH post frames_dataValuesH frames_allocH frames_setPropH
            frames_returnH)
         (simp_all add: objVals_def)
    then show ?thesis using False Some by (simp add: assembleVegaChartH_def)
  qed
qed

lemma assembleCall_world:
  "snd (assembleCall rt chartType encodingMap maxNominalValues aggrPreprocessed w) = w"
proof -
  let ?m = "bindH (assembleVegaChartH rt (templateRoots w) chartType encodingMap (fieldList w)
                    (workingRows w) maxNominalValues aggrPreprocessed)
             (\<lambda>res. bindH (readJsonH (snd res)) (\<lambda>t. returnH (fst res, t)))"
  let ?s = "\<lparr> shared = objects w, local = [] \<rparr>"
  have f: "frames (\<lambda>x. True) ?m"
    by (rule frames_bindH[OF frames_assembleVegaChartH], rule frames_bindH[OF frames_readJsonH],
        rule frames_returnH) simp
  have c: "localClosed ?s" by (simp add: localClosed_def)
  obtain r s' where m: "?m ?s = (r, s')" by (cases "?m ?s")
  from framesD(1)[OF f c m] have "shared s' = objects w" by simp
  then show ?thesis by (simp add: assembleCall_def m)
qed

subsection \<open>Assembling twice\<close>

text \<open>The example world holds the first three skeletons of the registry, the field \<open>Kind\<close> and the two rows.\<close>

lemma exWorld_inputs:
  "map (readJson 3 \<lparr> shared = objects exWorld, local = [] \<rparr>) (templateRoots exWorld)
     = map (\<lambda>t. Some (template t)) (take 3 (concat (map snd (CHART_TEMPLATES refRuntime))))
   \<and> fst (readFieldsH (fieldList exWorld) \<lparr> shared = objects exWorld, local = [] \<rparr>) = Inr [exKind]
   \<and> fst (readRowsH (workingRows exWorld) \<lparr> shared = objects exWorld, local = [] \<rparr>) = Inr exKindRows"
  by code_simp

lemma exWorld_result:
  "fst (assembleCall refRuntime ''Scatter Plot'' exColumnMap 68 False exWorld)
     = Inr (''Scatter Plot'', exFacetSpec)"
  by code_simp

lemma exTree_result:
  "assembleVegaChart refRuntime ''Scatter Plot'' exColumnMap [exKind] exKindRows 68 False
     = Inr (''Scatter Plot'', exFacetSpec)"
  by code_simp

text \<open>
  C7. Whatever the chart type, the encoding map, the objects of the world, the registry's
  skeletons, the field list and the rows: a call of the assembler leaves the world as it
  found it (no object that existed before the call is changed, so neither a skeleton of
  the registry, nor the field list, nor a row is), and a second call, made in the world
  the first one left, returns what the first one returned: the same error, or a
  specification of the same structure.
\<close>

theorem assembly_leaves_inputs_unchanged:
  "snd (assembleCall rt chartType encodingMap maxNominalValues aggrPreprocessed w) = w
   \<and> assembleCall rt chartType encodingMap maxNominalValues aggrPreprocessed
        (snd (assembleCall rt chartType encodingMap maxNominalValues aggrPreprocessed w))
      = assembleCall rt chartType encodingMap maxNominalValues aggrPreprocessed w"
  by (simp add: assembleCall_world)

text \<open>
  On the example world, the scatter plot with \<open>Kind\<close> on the channel \<open>column\<close>: the call
  writes the channel into its copy of the skeleton and turns it into a facet, the world
  stays as it was, the second call returns the same specification, and so does the
  assembler on values.
\<close>

theorem assembly_leaves_inputs_unchanged_witness:
  "assembleCall refRuntime ''Scatter Plot'' exColumnMap 68 False exWorld
     = (Inr (''Scatter Plot'', exFacetSpec), exWorld)
   \<and> assembleCall refRuntime ''Scatter Plot'' exColumnMap 68 False
        (snd (assembleCall refRuntime ''Scatter Plot'' exColumnMap 68 False exWorld))
      = (Inr (''Scatter Plot'', exFacetSpec), exWorld)
   \<and> assembleVegaChart refRuntime ''Scatter Plot'' exColumnMap [exKind] exKindRows 68 False
      = Inr (''Scatter Plot'', exFacetSpec)"
proof -
  note t = assembly_leaves_inputs_unchanged[of refRuntime "''Scatter Plot''" exColumnMap 68 False exWorld]
  from t have w: "snd (assembleCall refRuntime ''Scatter Plot'' exColumnMap 68 False exWorld) = exWorld"
    by (rule conjunct1)
  have c: "assembleCall refRuntime ''Scatter Plot'' exColumnMap 68 False exWorld
             = (Inr (''Scatter Plot'', exFacetSpec), exWorld)"
    using exWorld_result w by (simp add: prod_eq_iff)
  show ?thesis using c exTree_result by simp
qed

section \<open>Properties of the thumbnail\<close>

text \<open>
  The guard reads \<open>data\<close> on the array \<open>[chartType, vgObj]\<close>, which has no such property,
  and then \<open>values\<close> on \<open>undefined\<close>: whatever was assembled, the statement throws.
\<close>

lemma thumbnailChart_throws: "thumbnailChart msin assembled = Inl TypeError"
  by (simp add: thumbnailChart_def setNamedProp_def namedProp_def objGet_def)

lemma ChartElementFC_never_renders:
  "ChartElementFC rt msin available c fieldItems tableRows \<noteq> Inr (Rendered r)"
  by (cases "assembleVegaChart rt (chart_type c) (chart_encodingMap c) fieldItems
               tableRows 68 False")
     (simp_all add: ChartElementFC_def thumbnailChart_throws)

text \<open>
  C9 does not hold of the code. The sampler \<open>getRandomSubarray\<close> is deterministic and
  returns at most \<open>size\<close> rows (\<open>getRandomSubarray_sample\<close>), but the component never
  reaches it and never passes a row list through: \<open>assembleVegaChart\<close> returns the pair
  \<open>[chartType, vgObj]\<close>, the component treats it as the specification, and the guard
  \<open>assembledChart["data"]["values"].length > 5000\<close> throws a \<open>TypeError\<close>. Here a bar
  chart over two rows is assembled, and its thumbnail throws.
\<close>

theorem thumbnail_guard_throws:
  "assembleVegaChart refRuntime ''Bar Chart'' [] [exRegion, exKind] exRows 68 False
     = Inr (''Bar Chart'',
            JObj [(''mark'', JStr ''bar''), (''encoding'', JObj []),
                  (''data'',
                   JObj [(''values'',
                          JArr [JObj [(''Region'', JStr ''C''), (''Kind'', JStr ''U'')],
                                JObj [(''Region'', JStr ''A''), (''Kind'', JStr ''V'')]])])])
   \<and> ChartElementFC refRuntime (\<lambda>seed. sin (of_int seed)) True (exChart ''c1'' ''t1'')
        [exRegion, exKind] exRows
      = Inl TypeError"
proof -
  have a: "assembleVegaChart refRuntime ''Bar Chart'' [] [exRegion, exKind] exRows 68 False
     = Inr (''Bar Chart'',
            JObj [(''mark'', JStr ''bar''), (''encoding'', JObj []),
                  (''data'',
                   JObj [(''values'',
                          JArr [JObj [(''Region'', JStr ''C''), (''Kind'', JStr ''U'')],
                                JObj [(''Region'', JStr ''A''), (''Kind'', JStr ''V'')]])])])"
    by code_simp
  show ?thesis
    using a by (simp add: ChartElementFC_def exChart_def thumbnailChart_throws)
qed

text \<open>The chart of the example is neither \<open>Auto\<close> nor \<open>Table\<close> and is available: it is assembled.\<close>

theorem thumbnail_guard_throws_witness:
  "chart_type (exChart ''c1'' ''t1'') \<noteq> ''Auto''
   \<and> \<not> (\<not> True \<or> chart_type (exChart ''c1'' ''t1'') = ''Table'')
   \<and> ChartElementFC refRuntime (\<lambda>seed. sin (of_int seed)) True (exChart ''c1'' ''t1'')
        [exRegion, exKind] exRows
      = Inl TypeError"
  using thumbnail_guard_throws by (simp add: exChart_def)

end
